theory Spec2Isabelle
  imports Complex_Main "HOL-Library.Code_Target_Numeral"
begin

section \<open>Values, errors and arrays\<close>

text \<open>
  The augmentation pipeline of \<^verbatim>\<open>utils/augmentations.py\<close> works on a 4-tuple
  (image, masks, boxes, labels) of numpy arrays. In the embedding of the transforms, box
  coordinates and pixel values are real numbers: what the transforms do to the shapes,
  to the alignment of the three annotation arrays and to the order of the coordinates
  does not depend on rounding. The values that \<^verbatim>\<open>jaccard_numpy\<close> and the reflection
  of \<^verbatim>\<open>RandomMirror\<close> compute do depend on it, and these two are embedded a second time
  in the arithmetic of the binary floating-point formats. What a numpy division
  produces where the divisor is zero is part of both: an infinity or NaN, as a value.
\<close>

datatype error = ValueError | IndexError | ZeroDivisionError | CvError

datatype npfloat = Finite real | PosInf | NegInf | NaN

text \<open>Element-wise numpy division of two finite values: no exception, the IEEE result.\<close>

definition np_div :: "real \<Rightarrow> real \<Rightarrow> npfloat" where
  "np_div a b =
     (if b \<noteq> 0 then Finite (a / b)
      else if 0 < a then PosInf
      else if a < 0 then NegInf
      else NaN)"

fun is_finite :: "npfloat \<Rightarrow> bool" where
  "is_finite (Finite x) = True"
| "is_finite PosInf = False"
| "is_finite NegInf = False"
| "is_finite NaN = False"

text \<open>The comparison \<^verbatim>\<open>a < b\<close> of two floating-point values: false as soon as one is NaN.\<close>

fun np_less :: "npfloat \<Rightarrow> npfloat \<Rightarrow> bool" where
  "np_less NaN b = False"
| "np_less a NaN = False"
| "np_less (Finite x) (Finite y) = (x < y)"
| "np_less (Finite x) PosInf = True"
| "np_less (Finite x) NegInf = False"
| "np_less PosInf b = False"
| "np_less NegInf NegInf = False"
| "np_less NegInf b = True"

text \<open>\<^verbatim>\<open>np.minimum\<close> and \<^verbatim>\<open>np.maximum\<close> of two values propagate NaN.\<close>

fun np_min2 :: "npfloat \<Rightarrow> npfloat \<Rightarrow> npfloat" where
  "np_min2 NaN b = NaN"
| "np_min2 a NaN = NaN"
| "np_min2 a b = (if np_less b a then b else a)"

fun np_max2 :: "npfloat \<Rightarrow> npfloat \<Rightarrow> npfloat" where
  "np_max2 NaN b = NaN"
| "np_max2 a NaN = NaN"
| "np_max2 a b = (if np_less a b then b else a)"

text \<open>
  \<^verbatim>\<open>arr.min()\<close> and \<^verbatim>\<open>arr.max()\<close> of a one-dimensional array: a reduction that
  has no identity, so the empty array raises ValueError.
\<close>

fun np_amin :: "npfloat list \<Rightarrow> error + npfloat" where
  "np_amin [] = Inl ValueError"
| "np_amin (x # xs) = Inr (foldl np_min2 x xs)"

fun np_amax :: "npfloat list \<Rightarrow> error + npfloat" where
  "np_amax [] = Inl ValueError"
| "np_amax (x # xs) = Inr (foldl np_max2 x xs)"

subsection \<open>Boxes\<close>

text \<open>A row of the boxes array, \<^verbatim>\<open>(x1, y1, x2, y2)\<close>; the array is a list of rows.\<close>

type_synonym box = "real \<times> real \<times> real \<times> real"

definition well_formed :: "box \<Rightarrow> bool" where
  "well_formed b = (case b of (x1, y1, x2, y2) \<Rightarrow> x1 \<le> x2 \<and> y1 \<le> y2)"

definition area :: "box \<Rightarrow> real" where
  "area b = (case b of (x1, y1, x2, y2) \<Rightarrow> (x2 - x1) * (y2 - y1))"

section \<open>Geometric primitives\<close>

text \<open>
  \<^verbatim>\<open>intersect(box_a, box_b)\<close>: one row of the result. \<^verbatim>\<open>np.clip\<close> with
  \<^verbatim>\<open>a_min=0, a_max=np.inf\<close> is the maximum with 0.
\<close>

definition intersect_row :: "box \<Rightarrow> box \<Rightarrow> real" where
  "intersect_row a b =
     (case a of (ax1, ay1, ax2, ay2) \<Rightarrow>
      case b of (bx1, by1, bx2, by2) \<Rightarrow>
        (let max_x = min ax2 bx2; max_y = min ay2 by2;
             min_x = max ax1 bx1; min_y = max ay1 by1;
             inter_x = max (max_x - min_x) 0;
             inter_y = max (max_y - min_y) 0
         in inter_x * inter_y))"

definition intersect :: "box list \<Rightarrow> box \<Rightarrow> real list" where
  "intersect box_a box_b = map (\<lambda>a. intersect_row a box_b) box_a"

text \<open>
  \<^verbatim>\<open>jaccard_numpy(box_a, box_b)\<close>: the arithmetic is element-wise on the rows of
  \<open>box_a\<close>, and the final division is numpy's.
\<close>

definition jaccard_numpy :: "box list \<Rightarrow> box \<Rightarrow> npfloat list" where
  "jaccard_numpy box_a box_b =
     (let inter = intersect box_a box_b;
          area_a = map area box_a;
          area_b = area box_b;
          union = map2 (\<lambda>s i. s - i) (map (\<lambda>a. a + area_b) area_a) inter
      in map2 np_div inter union)"

text \<open>The denominator and the quotient of \<^verbatim>\<open>jaccard_numpy\<close> for one row.\<close>

definition union_row :: "box \<Rightarrow> box \<Rightarrow> real" where
  "union_row a b = area a + area b - intersect_row a b"

definition jaccard_row :: "box \<Rightarrow> box \<Rightarrow> npfloat" where
  "jaccard_row a b = np_div (intersect_row a b) (union_row a b)"


section \<open>Arrays\<close>

text \<open>
  A numpy array is its shape and its elements in row-major order. An array the runtime
  can build has as many elements as its shape says.
\<close>

record 'a ndarray =
  shape :: "nat list"
  flat :: "'a list"

definition wf_array :: "'a ndarray \<Rightarrow> bool" where
  "wf_array a = (length (flat a) = prod_list (shape a))"

text \<open>All index tuples of a shape, in row-major order, and the position of one of them.\<close>

fun indices :: "nat list \<Rightarrow> nat list list" where
  "indices [] = [[]]"
| "indices (n # ns) = concat (map (\<lambda>i. map ((#) i) (indices ns)) [0..<n])"

fun offset :: "nat list \<Rightarrow> nat list \<Rightarrow> nat" where
  "offset (n # ns) (i # is) = i * prod_list ns + offset ns is"
| "offset ns is = 0"

definition at_shape :: "nat list \<Rightarrow> 'a list \<Rightarrow> nat list \<Rightarrow> 'a" where
  "at_shape shp xs idx = xs ! offset shp idx"

definition elem_at :: "'a ndarray \<Rightarrow> nat list \<Rightarrow> 'a" where
  "elem_at a idx = at_shape (shape a) (flat a) idx"

definition build :: "nat list \<Rightarrow> (nat list \<Rightarrow> 'a) \<Rightarrow> 'a ndarray" where
  "build shp f = \<lparr>shape = shp, flat = map f (indices shp)\<rparr>"

definition np_zeros :: "nat list \<Rightarrow> real ndarray" where
  "np_zeros shp = build shp (\<lambda>idx. 0)"

text \<open>\<^verbatim>\<open>int(x)\<close> of a Python float truncates towards zero.\<close>

definition py_int :: "real \<Rightarrow> int" where
  "py_int x = (if 0 \<le> x then \<lfloor>x\<rfloor> else \<lceil>x\<rceil>)"

text \<open>
  The bounds of the slice \<^verbatim>\<open>[start:stop]\<close> on an axis of length \<open>n\<close>: a negative
  bound counts from the end, both are clamped to the axis, and an empty slice has
  \<open>stop = start\<close>.
\<close>

definition slice_bound :: "nat \<Rightarrow> int \<Rightarrow> nat" where
  "slice_bound n i = nat (if i < 0 then max 0 (i + int n) else min i (int n))"

definition slice_range :: "nat \<Rightarrow> int \<Rightarrow> int \<Rightarrow> nat \<times> nat" where
  "slice_range n start stop =
     (let lo = slice_bound n start; hi = slice_bound n stop in (lo, max lo hi))"

definition range_len :: "nat \<times> nat \<Rightarrow> nat" where
  "range_len r = snd r - fst r"

text \<open>
  Assignment \<^verbatim>\<open>canvas[region] = src\<close>, the region being one range per axis of the
  canvas. The source is broadcast to the region: unit axes on its left beyond the rank
  of the region are dropped, the remaining axes are matched from the right, and each has
  the length of the region's axis or length 1. Otherwise numpy raises ValueError.
\<close>

fun strip_ones :: "nat \<Rightarrow> nat list \<Rightarrow> nat list" where
  "strip_ones n [] = []"
| "strip_ones n (d # ds) = (if n < length (d # ds) \<and> d = 1 then strip_ones n ds else d # ds)"

definition broadcastable :: "nat list \<Rightarrow> nat list \<Rightarrow> bool" where
  "broadcastable s t =
     (length s \<le> length t \<and>
      list_all2 (\<lambda>sd td. sd = td \<or> sd = 1) s (drop (length t - length s) t))"

definition bcast_index :: "nat list \<Rightarrow> nat list \<Rightarrow> nat list" where
  "bcast_index s idx =
     map2 (\<lambda>sd i. if sd = 1 then 0 else i) s (drop (length idx - length s) idx)"

definition in_region :: "(nat \<times> nat) list \<Rightarrow> nat list \<Rightarrow> bool" where
  "in_region region idx = list_all2 (\<lambda>i r. fst r \<le> i \<and> i < snd r) idx region"

definition assign_region ::
  "'a ndarray \<Rightarrow> (nat \<times> nat) list \<Rightarrow> 'a ndarray \<Rightarrow> error + 'a ndarray" where
  "assign_region canvas region src =
     (let t = map range_len region; s = strip_ones (length t) (shape src)
      in if broadcastable s t
         then Inr (build (shape canvas)
                (\<lambda>idx. if in_region region idx
                        then at_shape s (flat src)
                               (bcast_index s (map2 (\<lambda>i r. i - fst r) idx region))
                        else elem_at canvas idx))
         else Inl ValueError)"

definition full_region :: "nat list \<Rightarrow> (nat \<times> nat) list" where
  "full_region shp = map (\<lambda>n. (0, n)) shp"

text \<open>Reversal of one axis, \<^verbatim>\<open>a[..., ::-1, ...]\<close>.\<close>

definition flip_axis :: "nat \<Rightarrow> 'a ndarray \<Rightarrow> 'a ndarray" where
  "flip_axis k a =
     build (shape a) (\<lambda>idx. elem_at a (idx[k := shape a ! k - 1 - idx ! k]))"

text \<open>Boolean-mask indexing of a list, \<^verbatim>\<open>xs[mask]\<close>, for a mask of the same length.\<close>

definition select :: "bool list \<Rightarrow> 'a list \<Rightarrow> 'a list" where
  "select msk xs = map snd (filter fst (zip msk xs))"

text \<open>The positions where a mask is true.\<close>

definition true_positions :: "bool list \<Rightarrow> nat list" where
  "true_positions msk = select msk [0..<length msk]"

section \<open>The sample and the random source\<close>

text \<open>
  The label bundle is a dictionary with the keys \<^verbatim>\<open>labels\<close> and \<^verbatim>\<open>num_crowds\<close>;
  a sample is the 4-tuple every transform takes and returns.
\<close>

record label_bundle =
  labels :: "int list"
  num_crowds :: int

type_synonym sample = "real ndarray \<times> real ndarray \<times> box list \<times> label_bundle"

text \<open>
  The process-wide random source is a tape of raw draws, consumed from the left. Each
  call of \<^verbatim>\<open>random.choice\<close>, \<^verbatim>\<open>random.uniform\<close> or \<^verbatim>\<open>random.randint\<close> takes
  one draw. \<^verbatim>\<open>random.random()\<close> is a multiple of \<open>2 ^ 53\<close> in \<open>[0, 1)\<close>, and
  \<^verbatim>\<open>random.uniform(a, b)\<close> is \<^verbatim>\<open>a + (b - a) * random.random()\<close>. A run that needs
  a draw from an empty tape has no result (\<open>None\<close>).
\<close>

type_synonym tape = "nat list"

type_synonym 'a run = "(error + 'a \<times> tape) option"

type_synonym transform = "sample \<Rightarrow> tape \<Rightarrow> sample run"

definition random_unit :: "nat \<Rightarrow> real" where
  "random_unit k = real (k mod 2 ^ 53) / 2 ^ 53"

definition uniform :: "real \<Rightarrow> real \<Rightarrow> nat \<Rightarrow> real" where
  "uniform a b k = a + (b - a) * random_unit k"

definition randint01 :: "nat \<Rightarrow> nat" where
  "randint01 k = k mod 2"

definition choice :: "'a list \<Rightarrow> nat \<Rightarrow> 'a" where
  "choice xs k = xs ! (k mod length xs)"

text \<open>A transform that draws nothing leaves the tape as it is.\<close>

definition pure_transform :: "(sample \<Rightarrow> error + sample) \<Rightarrow> transform" where
  "pure_transform f s t = (case f s of Inl e \<Rightarrow> Some (Inl e) | Inr s' \<Rightarrow> Some (Inr (s', t)))"

section \<open>Composition and the coordinate transforms\<close>

fun Compose :: "transform list \<Rightarrow> transform" where
  "Compose [] s t = Some (Inr (s, t))"
| "Compose (f # fs) s t =
     (case f s t of
        None \<Rightarrow> None
      | Some (Inl e) \<Rightarrow> Some (Inl e)
      | Some (Inr (s', t')) \<Rightarrow> Compose fs s' t')"

text \<open>\<^verbatim>\<open>astype(np.float32)\<close>: the values are reals already, rounding is not modelled.\<close>

definition astype_float32 :: "real ndarray \<Rightarrow> real ndarray" where
  "astype_float32 a = a\<lparr>flat := map (\<lambda>x. x) (flat a)\<rparr>"

definition ConvertFromInts :: "sample \<Rightarrow> error + sample" where
  "ConvertFromInts s =
     (case s of (img, masks, boxes, lbls) \<Rightarrow> Inr (astype_float32 img, masks, boxes, lbls))"

definition scale_box :: "real \<Rightarrow> real \<Rightarrow> box \<Rightarrow> box" where
  "scale_box fx fy b = (case b of (x1, y1, x2, y2) \<Rightarrow> (x1 * fx, y1 * fy, x2 * fx, y2 * fy))"

definition ToAbsoluteCoords :: "sample \<Rightarrow> error + sample" where
  "ToAbsoluteCoords s =
     (case s of (img, masks, boxes, lbls) \<Rightarrow>
        (case shape img of
           [height, width, channels] \<Rightarrow>
             Inr (img, masks, map (scale_box (real width) (real height)) boxes, lbls)
         | _ \<Rightarrow> Inl ValueError))"

text \<open>
  \<^verbatim>\<open>boxes[:, 0] /= width\<close> is a numpy division: with a zero width or height and at
  least one box the result holds infinities or NaN and no exception is raised. Boxes
  are finite in this model, so that outcome is reported as \<open>NonFinite\<close>.
\<close>

datatype 'a percent_result = Raised error | NonFinite | Returned 'a

definition unscale_box :: "real \<Rightarrow> real \<Rightarrow> box \<Rightarrow> box" where
  "unscale_box fx fy b = (case b of (x1, y1, x2, y2) \<Rightarrow> (x1 / fx, y1 / fy, x2 / fx, y2 / fy))"

definition ToPercentCoords :: "sample \<Rightarrow> sample percent_result" where
  "ToPercentCoords s =
     (case s of (img, masks, boxes, lbls) \<Rightarrow>
        (case shape img of
           [height, width, channels] \<Rightarrow>
             if boxes \<noteq> [] \<and> (width = 0 \<or> height = 0) then NonFinite
             else Returned (img, masks, map (unscale_box (real width) (real height)) boxes, lbls)
         | _ \<Rightarrow> Raised ValueError))"

section \<open>More array operations\<close>

definition and_then :: "error + 'a \<Rightarrow> ('a \<Rightarrow> error + 'b) \<Rightarrow> error + 'b" where
  "and_then r f = (case r of Inl e \<Rightarrow> Inl e | Inr x \<Rightarrow> f x)"

text \<open>\<^verbatim>\<open>np.zeros(dims)\<close> for integer dimensions: a negative one raises ValueError.\<close>

definition np_zeros_int :: "int list \<Rightarrow> error + real ndarray" where
  "np_zeros_int dims =
     (if list_ex (\<lambda>d. d < 0) dims then Inl ValueError else Inr (np_zeros (map nat dims)))"

text \<open>The view \<^verbatim>\<open>a[lo0:hi0, lo1:hi1, ...]\<close> with one range per axis.\<close>

definition slice_view :: "'a ndarray \<Rightarrow> (nat \<times> nat) list \<Rightarrow> 'a ndarray" where
  "slice_view a region =
     build (map range_len region) (\<lambda>idx. elem_at a (map2 (\<lambda>i r. fst r + i) idx region))"

text \<open>
  Boolean-mask indexing of the first axis, \<^verbatim>\<open>a[msk, ...]\<close>: the mask has the
  length of that axis, or numpy raises IndexError.
\<close>

definition select_axis0 :: "bool list \<Rightarrow> 'a ndarray \<Rightarrow> error + 'a ndarray" where
  "select_axis0 msk a =
     (case shape a of
        [] \<Rightarrow> Inl IndexError
      | n # rest \<Rightarrow>
          if length msk \<noteq> n then Inl IndexError
          else Inr (build (length (true_positions msk) # rest)
                 (\<lambda>idx. elem_at a (idx[0 := true_positions msk ! (idx ! 0)]))))"

fun position_of :: "'a \<Rightarrow> 'a list \<Rightarrow> nat" where
  "position_of x [] = 0"
| "position_of x (y # ys) = (if x = y then 0 else Suc (position_of x ys))"

text \<open>
  \<^verbatim>\<open>a.transpose(axes)\<close> for a permutation \<open>axes\<close>: axis \<open>i\<close> of the result is axis
  \<open>axes ! i\<close> of \<open>a\<close>. A permutation of another rank raises ValueError.
\<close>

definition np_transpose :: "nat list \<Rightarrow> 'a ndarray \<Rightarrow> error + 'a ndarray" where
  "np_transpose axes a =
     (if length axes \<noteq> length (shape a) then Inl ValueError
      else Inr (build (map (\<lambda>p. shape a ! p) axes)
             (\<lambda>idx. elem_at a (map (\<lambda>d. idx ! position_of d axes) [0..<length axes]))))"

definition expand_dims0 :: "'a ndarray \<Rightarrow> 'a ndarray" where
  "expand_dims0 a = \<lparr>shape = 1 # shape a, flat = flat a\<rparr>"

text \<open>
  \<^verbatim>\<open>cv2.resize(src, (width, height))\<close> is a primitive of OpenCV. Its interpolation is a
  parameter of the model: \<open>px src width height\<close> is an error, or the value of every
  element of the result. The shape of the result is the one the source relies on: the
  channels of a three-dimensional source are kept, except that a single channel is
  dropped (``OpenCV resizes a (w,h,1) array to (s,s)'').
\<close>

type_synonym cv_backend = "real ndarray \<Rightarrow> nat \<Rightarrow> nat \<Rightarrow> error + (nat list \<Rightarrow> real)"

definition cv2_resize :: "cv_backend \<Rightarrow> real ndarray \<Rightarrow> nat \<times> nat \<Rightarrow> error + real ndarray" where
  "cv2_resize px src dsize =
     (case dsize of (width, height) \<Rightarrow>
        and_then (px src width height) (\<lambda>f.
          case shape src of
            [h, w] \<Rightarrow> Inr (build [height, width] f)
          | [h, w, c] \<Rightarrow>
              if c = 1 then Inr (build [height, width] f)
              else Inr (build [height, width, c] f)
          | _ \<Rightarrow> Inl CvError))"

definition pixel_mean :: "real ndarray" where
  "pixel_mean = \<lparr>shape = [3], flat = [103.94, 116.78, 123.68]\<rparr>"

definition pixel_std :: "real ndarray" where
  "pixel_std = \<lparr>shape = [3], flat = [57.38, 57.12, 58.40]\<rparr>"

text \<open>\<^verbatim>\<open>canvas[:, :, :] = np.array([103.94, 116.78, 123.68])\<close>\<close>

definition fill_mean :: "real ndarray \<Rightarrow> error + real ndarray" where
  "fill_mean canvas = assign_region canvas (full_region (shape canvas)) pixel_mean"

section \<open>Pad and Resize\<close>

text \<open>\<open>Pad width height pad_gt\<close> is the transform \<^verbatim>\<open>Pad(width, height, pad_gt)\<close>.\<close>

definition Pad :: "nat \<Rightarrow> nat \<Rightarrow> bool \<Rightarrow> sample \<Rightarrow> error + sample" where
  "Pad width height pad_gt s =
     (case s of (img, masks, boxes, lbls) \<Rightarrow>
        (case shape img of
           [im_h, im_w, depth] \<Rightarrow>
             (let rows = slice_range height 0 (int im_h);
                  cols = slice_range width 0 (int im_w)
              in and_then (fill_mean (np_zeros [height, width, depth])) (\<lambda>filled.
                 and_then (assign_region filled [rows, cols, (0, depth)] img) (\<lambda>expand_image.
                   if pad_gt then
                     (case shape masks of
                        [] \<Rightarrow> Inl IndexError
                      | n # rest \<Rightarrow>
                          and_then (assign_region (np_zeros [n, height, width])
                                      [(0, n), rows, cols] masks) (\<lambda>expand_masks.
                            Inr (expand_image, expand_masks, boxes, lbls)))
                   else Inr (expand_image, masks, boxes, lbls))))
         | _ \<Rightarrow> Inl ValueError))"

text \<open>
  \<open>Resize px img_size resize_gt\<close> is \<^verbatim>\<open>Resize(img_size, resize_gt)\<close>. The factors
  \<^verbatim>\<open>width / img_w\<close> and \<^verbatim>\<open>height / img_h\<close> are Python divisions, which raise on a
  zero divisor.
\<close>

definition Resize :: "cv_backend \<Rightarrow> nat \<Rightarrow> bool \<Rightarrow> sample \<Rightarrow> error + sample" where
  "Resize px img_size resize_gt s =
     (case s of (img, masks, boxes, lbls) \<Rightarrow>
        (case shape img of
           [img_h, img_w, c] \<Rightarrow>
             (let width = img_size; height = img_size
              in and_then (cv2_resize px img (width, height)) (\<lambda>img'.
                   if resize_gt then
                     and_then (np_transpose [1, 2, 0] masks) (\<lambda>m1.
                     and_then (cv2_resize px m1 (width, height)) (\<lambda>m2.
                     and_then (if length (shape m2) = 2 then Inr (expand_dims0 m2)
                               else np_transpose [2, 0, 1] m2) (\<lambda>m3.
                       if img_w = 0 \<or> img_h = 0 then Inl ZeroDivisionError
                       else Inr (img', m3,
                                 map (scale_box (real width / real img_w)
                                                (real height / real img_h)) boxes,
                                 lbls))))
                   else Inr (img', masks, boxes, lbls)))
         | _ \<Rightarrow> Inl ValueError))"

section \<open>RandomMirror and Expand\<close>

definition mirror_box :: "real \<Rightarrow> box \<Rightarrow> box" where
  "mirror_box width b = (case b of (x1, y1, x2, y2) \<Rightarrow> (width - x2, y1, width - x1, y2))"

text \<open>
  The mirroring branch of \<^verbatim>\<open>RandomMirror\<close>, for an image of the given width:
  \<^verbatim>\<open>image[:, ::-1]\<close>, \<^verbatim>\<open>masks[:, :, ::-1]\<close> (IndexError for masks of fewer than three
  axes) and \<^verbatim>\<open>boxes[:, 0::2] = width - boxes[:, 2::-2]\<close> on a copy of the boxes.
\<close>

definition mirror :: "nat \<Rightarrow> sample \<Rightarrow> error + sample" where
  "mirror width s =
     (case s of (img, masks, boxes, lbls) \<Rightarrow>
        if length (shape masks) < 3 then Inl IndexError
        else Inr (flip_axis 1 img, flip_axis 2 masks,
                  map (mirror_box (real width)) boxes, lbls))"

definition RandomMirror :: transform where
  "RandomMirror s t =
     (case s of (img, masks, boxes, lbls) \<Rightarrow>
        (case shape img of
           [h, width, c] \<Rightarrow>
             (case t of
                [] \<Rightarrow> None
              | k # t' \<Rightarrow>
                  if randint01 k \<noteq> 0 then
                    (case mirror width s of Inl e \<Rightarrow> Some (Inl e) | Inr s' \<Rightarrow> Some (Inr (s', t')))
                  else Some (Inr (s, t')))
         | _ \<Rightarrow> Some (Inl ValueError)))"

definition shift_box :: "int \<Rightarrow> int \<Rightarrow> box \<Rightarrow> box" where
  "shift_box dx dy b =
     (case b of (x1, y1, x2, y2) \<Rightarrow>
        (x1 + of_int dx, y1 + of_int dy, x2 + of_int dx, y2 + of_int dy))"

text \<open>The branch of \<^verbatim>\<open>Expand\<close> that enlarges the canvas, for the three values drawn.\<close>

definition expand_at :: "real \<Rightarrow> real \<Rightarrow> real \<Rightarrow> sample \<Rightarrow> error + sample" where
  "expand_at ratio left top' s =
     (case s of (img, masks, boxes, lbls) \<Rightarrow>
        (case shape img of
           [height, width, depth] \<Rightarrow>
             (let eh = py_int (real height * ratio);
                  ew = py_int (real width * ratio);
                  rows = slice_range (nat eh) (py_int top') (py_int (top' + real height));
                  cols = slice_range (nat ew) (py_int left) (py_int (left + real width))
              in and_then (np_zeros_int [eh, ew, int depth]) (\<lambda>canvas.
                 and_then (fill_mean canvas) (\<lambda>filled.
                 and_then (assign_region filled [rows, cols, (0, depth)] img) (\<lambda>expand_image.
                   case shape masks of
                     [] \<Rightarrow> Inl IndexError
                   | n # rest \<Rightarrow>
                       and_then (np_zeros_int [int n, eh, ew]) (\<lambda>mcanvas.
                       and_then (assign_region mcanvas [(0, n), rows, cols] masks)
                         (\<lambda>expand_masks.
                            Inr (expand_image, expand_masks,
                                 map (shift_box (py_int left) (py_int top')) boxes, lbls)))))))
         | _ \<Rightarrow> Inl ValueError))"

definition Expand :: transform where
  "Expand s t =
     (case t of
        [] \<Rightarrow> None
      | k # t0 \<Rightarrow>
          if randint01 k \<noteq> 0 then
            (case s of (img, masks, boxes, lbls) \<Rightarrow>
               (case shape img of
                  [height, width, depth] \<Rightarrow>
                    (case t0 of
                       kr # kl # kt # t' \<Rightarrow>
                         (let ratio = uniform 1 4 kr;
                              left = uniform 1 (real width * ratio - real width) kl;
                              top' = uniform 1 (real height * ratio - real height) kt
                          in case expand_at ratio left top' s of
                               Inl e \<Rightarrow> Some (Inl e)
                             | Inr s' \<Rightarrow> Some (Inr (s', t')))
                     | _ \<Rightarrow> None)
                | _ \<Rightarrow> Some (Inl ValueError)))
          else Some (Inr (s, t0)))"

section \<open>RandomSampleCrop\<close>

text \<open>The crop rectangle \<^verbatim>\<open>rect = [x1, y1, x2, y2]\<close>, an integer array.\<close>

type_synonym rect = "int \<times> int \<times> int \<times> int"

definition rect_box :: "rect \<Rightarrow> box" where
  "rect_box r = (case r of (r0, r1, r2, r3) \<Rightarrow> (of_int r0, of_int r1, of_int r2, of_int r3))"

text \<open>
  The sampling modes: \<open>None\<close> returns the input as it is, the others give the lower and
  the upper bound of the overlap, \<open>None\<close> standing for no bound.
\<close>

definition sample_options :: "(real option \<times> real option) option list" where
  "sample_options =
     [None,
      Some (Some 0.1, None),
      Some (Some 0.3, None),
      Some (Some 0.7, None),
      Some (Some 0.9, None),
      Some (None, None)]"

definition min_iou_of :: "real option \<Rightarrow> npfloat" where
  "min_iou_of b = (case b of None \<Rightarrow> NegInf | Some v \<Rightarrow> Finite v)"

definition max_iou_of :: "real option \<Rightarrow> npfloat" where
  "max_iou_of b = (case b of None \<Rightarrow> PosInf | Some v \<Rightarrow> Finite v)"

text \<open>
  The condition \<^verbatim>\<open>overlap.min() < min_iou and max_iou < overlap.max()\<close>: the right
  operand is evaluated only when the left one is true.
\<close>

definition overlap_rejects :: "npfloat \<Rightarrow> npfloat \<Rightarrow> npfloat list \<Rightarrow> error + bool" where
  "overlap_rejects min_iou max_iou overlap =
     and_then (np_amin overlap) (\<lambda>lo.
       if np_less lo min_iou
       then and_then (np_amax overlap) (\<lambda>hi. Inr (np_less max_iou hi))
       else Inr False)"

definition center :: "box \<Rightarrow> real \<times> real" where
  "center b = (case b of (x1, y1, x2, y2) \<Rightarrow> ((x1 + x2) / 2, (y1 + y2) / 2))"

text \<open>\<^verbatim>\<open>mask = m1 * m2\<close>: the boxes whose centre is strictly inside the rectangle.\<close>

definition center_inside :: "rect \<Rightarrow> box \<Rightarrow> bool" where
  "center_inside r b =
     (case center b of (cx, cy) \<Rightarrow>
      case r of (r0, r1, r2, r3) \<Rightarrow>
        (of_int r0 < cx \<and> of_int r1 < cy) \<and> (of_int r2 > cx \<and> of_int r3 > cy))"

definition center_mask :: "rect \<Rightarrow> box list \<Rightarrow> bool list" where
  "center_mask r boxes = map (center_inside r) boxes"

text \<open>
  \<^verbatim>\<open>crowd_mask\<close>: zeros, and ones in \<^verbatim>\<open>crowd_mask[-num_crowds:]\<close> when
  \<^verbatim>\<open>num_crowds > 0\<close>.
\<close>

definition crowd_mask_of :: "nat \<Rightarrow> int \<Rightarrow> int list" where
  "crowd_mask_of n nc =
     (if 0 < nc
      then (let lo = slice_bound n (- nc) in replicate lo 0 @ replicate (n - lo) 1)
      else replicate n 0)"

text \<open>Clipping a box to the rectangle and moving it into the rectangle's frame.\<close>

definition clip_box :: "rect \<Rightarrow> box \<Rightarrow> box" where
  "clip_box r b =
     (case b of (x1, y1, x2, y2) \<Rightarrow>
      case r of (r0, r1, r2, r3) \<Rightarrow>
        (max x1 (of_int r0) - of_int r0, max y1 (of_int r1) - of_int r1,
         min x2 (of_int r2) - of_int r0, min y2 (of_int r3) - of_int r1))"

text \<open>
  One candidate rectangle, after the overlap test: \<open>Inr None\<close> is \<^verbatim>\<open>continue\<close>,
  \<open>Inr (Some s)\<close> is the sample returned.
\<close>

definition crop_keep :: "rect \<Rightarrow> sample \<Rightarrow> error + sample option" where
  "crop_keep r s =
     (case s of (img, masks, boxes, lbls) \<Rightarrow>
      case r of (r0, r1, r2, r3) \<Rightarrow>
        (case shape img of
           height # width # d # rest \<Rightarrow>
             (let current_image =
                    slice_view img
                      ([slice_range height r1 r3, slice_range width r0 r2] @ full_region (d # rest));
                  msk = center_mask r boxes;
                  crowd_mask = crowd_mask_of (length msk) (num_crowds lbls)
              in if \<not> list_ex (\<lambda>m. m) msk
                    \<or> sum_list (map (\<lambda>c. 1 - c) (select msk crowd_mask)) = 0
                 then Inr None
                 else
                   (case shape masks of
                      n # mh # mw # mrest \<Rightarrow>
                        and_then (select_axis0 msk masks) (\<lambda>kept_masks.
                          if length (labels lbls) \<noteq> length msk then Inl IndexError
                          else
                            (let current_boxes = map (clip_box r) (select msk boxes);
                                 current_labels =
                                   lbls\<lparr>labels := select msk (labels lbls),
                                        num_crowds :=
                                          (if 0 < num_crowds lbls
                                           then sum_list (select msk crowd_mask)
                                           else num_crowds lbls)\<rparr>;
                                 current_masks =
                                   slice_view kept_masks
                                     ([(0, length (true_positions msk)),
                                       slice_range mh r1 r3, slice_range mw r0 r2]
                                      @ full_region mrest)
                             in Inr (Some (current_image, current_masks,
                                           current_boxes, current_labels))))
                    | _ \<Rightarrow> Inl IndexError))
         | _ \<Rightarrow> Inl IndexError))"

definition crop_candidate ::
  "npfloat \<Rightarrow> npfloat \<Rightarrow> rect \<Rightarrow> sample \<Rightarrow> error + sample option" where
  "crop_candidate min_iou max_iou r s =
     (case s of (img, masks, boxes, lbls) \<Rightarrow>
        and_then (overlap_rejects min_iou max_iou (jaccard_numpy boxes (rect_box r)))
          (\<lambda>rejected. if rejected then Inr None else crop_keep r s))"

text \<open>
  The loop \<^verbatim>\<open>for _ in range(50)\<close>, with the number of trials left. A trial draws
  \<open>w\<close> and \<open>h\<close>, and \<open>left\<close> and \<open>top\<close> when the aspect ratio is accepted;
  \<^verbatim>\<open>h / w\<close> is a Python division. The result \<open>None\<close> inside \<open>Inr\<close> says that no
  trial returned.
\<close>

fun sample_trials ::
  "nat \<Rightarrow> npfloat \<Rightarrow> npfloat \<Rightarrow> nat \<Rightarrow> nat \<Rightarrow> sample \<Rightarrow> tape \<Rightarrow> (sample option) run" where
  "sample_trials 0 min_iou max_iou height width s t = Some (Inr (None, t))"
| "sample_trials (Suc n) min_iou max_iou height width s t =
     (case t of
        kw # kh # t1 \<Rightarrow>
          (let w = uniform (0.3 * real width) (real width) kw;
               h = uniform (0.3 * real height) (real height) kh
           in if w = 0 then Some (Inl ZeroDivisionError)
              else if h / w < 0.5 \<or> h / w > 2
              then sample_trials n min_iou max_iou height width s t1
              else
                (case t1 of
                   kl # kt # t2 \<Rightarrow>
                     (let left = uniform 1 (real width - w) kl;
                          top' = uniform 1 (real height - h) kt;
                          r = (py_int left, py_int top', py_int (left + w), py_int (top' + h))
                      in case crop_candidate min_iou max_iou r s of
                           Inl e \<Rightarrow> Some (Inl e)
                         | Inr None \<Rightarrow> sample_trials n min_iou max_iou height width s t2
                         | Inr (Some s') \<Rightarrow> Some (Inr (Some s', t2)))
                 | _ \<Rightarrow> None))
      | _ \<Rightarrow> None)"

text \<open>
  The loop \<^verbatim>\<open>while True\<close>: every round draws a mode, so the tape gets shorter and a
  run on a finite tape ends, with a result or out of draws.
\<close>

function crop_loop :: "nat \<Rightarrow> nat \<Rightarrow> sample \<Rightarrow> tape \<Rightarrow> sample run" where
  "crop_loop height width s t =
     (case t of
        [] \<Rightarrow> None
      | k # t0 \<Rightarrow>
          (case choice sample_options k of
             None \<Rightarrow> Some (Inr (s, t0))
           | Some mode \<Rightarrow>
               (case sample_trials 50 (min_iou_of (fst mode)) (max_iou_of (snd mode))
                       height width s t0 of
                  None \<Rightarrow> None
                | Some (Inl e) \<Rightarrow> Some (Inl e)
                | Some (Inr (Some s', t1)) \<Rightarrow> Some (Inr (s', t1))
                | Some (Inr (None, t1)) \<Rightarrow> crop_loop height width s t1)))"
  by pat_completeness auto
termination
proof -
  have shorter: "length t' \<le> length t"
    if "sample_trials n lo hi height width s t = Some (Inr (res, t'))"
    for n lo hi height width s t res t'
    using that
  proof (induction n arbitrary: t)
    case 0
    then show ?case by simp
  next
    case (Suc n)
    show ?case
    proof (cases t)
      case Nil
      with Suc.prems show ?thesis by simp
    next
      case c1: (Cons kw ta)
      show ?thesis
      proof (cases ta)
        case Nil
        with c1 Suc.prems show ?thesis by simp
      next
        case c2: (Cons kh t1)
        show ?thesis
        proof (cases t1)
          case Nil
          with c1 c2 Suc.prems Suc.IH [of "[]"] show ?thesis
            by (auto simp: Let_def split: if_splits)
        next
          case c3: (Cons kl tb)
          show ?thesis
          proof (cases tb)
            case Nil
            with c1 c2 c3 Suc.prems Suc.IH [of t1] show ?thesis
              by (auto simp: Let_def split: if_splits)
          next
            case c4: (Cons kt t2)
            with c1 c2 c3 Suc.prems Suc.IH [of t1] Suc.IH [of t2] show ?thesis
              by (auto simp: Let_def split: if_splits sum.splits option.splits)
          qed
        qed
      qed
    qed
  qed
  show ?thesis
    by (relation "measure (\<lambda>(height, width, s, t). length t)") (auto dest!: shorter)
qed

declare crop_loop.simps [simp del]

definition RandomSampleCrop :: transform where
  "RandomSampleCrop s t =
     (case s of (img, masks, boxes, lbls) \<Rightarrow>
        (case shape img of
           [height, width, c] \<Rightarrow> crop_loop height width s t
         | _ \<Rightarrow> Some (Inl ValueError)))"

section \<open>Normalisation and the validation pipeline\<close>

text \<open>
  \<^verbatim>\<open>(img - self.mean) / self.std\<close>: the image is broadcast against the three means, so
  its last axis has length 3 or 1 (or the image has no axis), otherwise numpy raises
  ValueError.
\<close>

definition normalize :: "real ndarray \<Rightarrow> error + real ndarray" where
  "normalize img =
     (let shp = shape img
      in if shp = [] \<or> last shp = 3 \<or> last shp = 1
         then Inr (build (butlast shp @ [3])
                (\<lambda>idx. (at_shape shp (flat img) (bcast_index shp idx)
                           - flat pixel_mean ! last idx) / flat pixel_std ! last idx))
         else Inl ValueError)"

text \<open>
  \<^verbatim>\<open>img[:, :, (2, 1, 0)]\<close>: three axes at least, and the third of length 3 at least,
  otherwise IndexError.
\<close>

definition bgr_to_rgb :: "real ndarray \<Rightarrow> error + real ndarray" where
  "bgr_to_rgb img =
     (if length (shape img) < 3 \<or> shape img ! 2 < 3 then Inl IndexError
      else Inr (build ((shape img)[2 := 3]) (\<lambda>idx. elem_at img (idx[2 := 2 - idx ! 2]))))"

definition NormalizeAndToRGB :: "sample \<Rightarrow> error + sample" where
  "NormalizeAndToRGB s =
     (case s of (img, masks, boxes, lbls) \<Rightarrow>
        and_then (normalize (astype_float32 img)) (\<lambda>x.
        and_then (bgr_to_rgb x) (\<lambda>y.
          Inr (astype_float32 y, masks, boxes, lbls))))"

text \<open>\<open>ValAug px img_size\<close> is \<^verbatim>\<open>ValAug(cfg)\<close> with \<^verbatim>\<open>cfg.img_size = img_size\<close>.\<close>

definition ValAug :: "cv_backend \<Rightarrow> nat \<Rightarrow> transform" where
  "ValAug px img_size =
     Compose [pure_transform ConvertFromInts,
              pure_transform (Resize px img_size False),
              pure_transform (Pad img_size img_size False),
              pure_transform NormalizeAndToRGB]"

section \<open>Boxes inside a crop\<close>

text \<open>
  A box in the frame of the crop rectangle \<open>r\<close>: its x-coordinates are in
  \<open>[0, r2 - r0]\<close> and its y-coordinates in \<open>[0, r3 - r1]\<close>.
\<close>

definition within_crop :: "rect \<Rightarrow> box \<Rightarrow> bool" where
  "within_crop r b =
     (case b of (x1, y1, x2, y2) \<Rightarrow>
      case r of (r0, r1, r2, r3) \<Rightarrow>
        (0 \<le> x1 \<and> x1 \<le> of_int (r2 - r0)) \<and> (0 \<le> x2 \<and> x2 \<le> of_int (r2 - r0)) \<and>
        (0 \<le> y1 \<and> y1 \<le> of_int (r3 - r1)) \<and> (0 \<le> y2 \<and> y2 \<le> of_int (r3 - r1)))"

section \<open>The spatial-alignment invariant\<close>

text \<open>\<^verbatim>\<open>masks.shape[1:] == image.shape[:2]\<close>\<close>

definition aligned :: "'a ndarray \<Rightarrow> 'b ndarray \<Rightarrow> bool" where
  "aligned img masks = (drop 1 (shape masks) = take 2 (shape img))"

section \<open>Floating-point arithmetic\<close>

text \<open>
  The boxes are a numpy array of a binary floating-point dtype, and \<^verbatim>\<open>jaccard_numpy\<close> and
  the reflection of \<^verbatim>\<open>RandomMirror\<close> compute with its arithmetic: an operation returns
  the value of the format that is nearest to the exact result, a tie going to the even
  significand, with gradual underflow, and an infinity where that value is beyond the
  largest finite one. A format is its precision \<open>prec\<close> (the bits of the significand, the
  implicit one included) and its largest exponent \<open>emax\<close>; the exponent of its smallest
  normal values is \<open>emin = 1 - emax\<close>.
\<close>

datatype dtype = Float32 | Float64

fun prec :: "dtype \<Rightarrow> int" where
  "prec Float32 = 24"
| "prec Float64 = 53"

fun emax :: "dtype \<Rightarrow> int" where
  "emax Float32 = 127"
| "emax Float64 = 1023"

definition emin :: "dtype \<Rightarrow> int" where
  "emin dt = 1 - emax dt"

text \<open>
  The exponent of a magnitude \<open>x\<close> is the \<open>e\<close> with \<open>2 ^ e \<le> x < 2 ^ (e + 1)\<close>, kept
  between \<open>emin\<close> and \<open>emax\<close>: magnitudes below \<open>2 ^ emin\<close> are subnormal and have the
  spacing of the smallest normal values. It is searched upwards from 0 for \<open>1 \<le> x\<close> and
  downwards from -1 otherwise.
\<close>

function scan_up :: "int \<Rightarrow> real \<Rightarrow> int \<Rightarrow> int" where
  "scan_up hi x e = (if hi \<le> e \<or> x < 2 powi (e + 1) then e else scan_up hi x (e + 1))"
  by auto
termination by (relation "measure (\<lambda>(hi, x, e). nat (hi - e))") auto

function scan_down :: "int \<Rightarrow> real \<Rightarrow> int \<Rightarrow> int" where
  "scan_down lo x e = (if e \<le> lo \<or> 2 powi e \<le> x then e else scan_down lo x (e - 1))"
  by auto
termination by (relation "measure (\<lambda>(lo, x, e). nat (e - lo))") auto

declare scan_up.simps [simp del] scan_down.simps [simp del]

definition exponent :: "dtype \<Rightarrow> real \<Rightarrow> int" where
  "exponent dt x = (if 1 \<le> x then scan_up (emax dt) x 0 else scan_down (emin dt) x (- 1))"

text \<open>The integer nearest to a real, a tie going to the even one.\<close>

definition round_half_even :: "real \<Rightarrow> int" where
  "round_half_even r =
     (let n = \<lfloor>r\<rfloor>; f = r - of_int n
      in if f < 1 / 2 then n else if 1 / 2 < f then n + 1 else if even n then n else n + 1)"

text \<open>
  The spacing of the values of the format around \<open>x\<close>, and the multiple of it that is
  nearest to \<open>x\<close>.
\<close>

definition ulp :: "dtype \<Rightarrow> real \<Rightarrow> real" where
  "ulp dt x = 2 powi (exponent dt \<bar>x\<bar> - prec dt + 1)"

definition nearest :: "dtype \<Rightarrow> real \<Rightarrow> real" where
  "nearest dt x = of_int (round_half_even (x / ulp dt x)) * ulp dt x"

text \<open>
  The overflow threshold \<open>2 ^ (emax + 1)\<close>: a result whose rounding reaches it in magnitude
  is stored as an infinity. \<open>np_round\<close> is the value stored for an exact result.
\<close>

definition huge :: "dtype \<Rightarrow> real" where
  "huge dt = 2 powi (emax dt + 1)"

definition np_round :: "dtype \<Rightarrow> real \<Rightarrow> npfloat" where
  "np_round dt x =
     (let y = nearest dt x
      in if huge dt \<le> y then PosInf
         else if y \<le> - huge dt then NegInf
         else Finite y)"

text \<open>The smallest positive value of the format.\<close>

definition tiny :: "dtype \<Rightarrow> real" where
  "tiny dt = 2 powi (emin dt - prec dt + 1)"

text \<open>
  The arithmetic of two values of the format. The operations on finite values round the
  exact result; those on infinities and NaN follow IEEE 754. The sign of a zero is not
  modelled: a finite value other than zero divided by zero is the infinity of the sign of
  the dividend, and zero divided by zero is NaN.
\<close>

fun fl_neg :: "npfloat \<Rightarrow> npfloat" where
  "fl_neg (Finite a) = Finite (- a)"
| "fl_neg PosInf = NegInf"
| "fl_neg NegInf = PosInf"
| "fl_neg NaN = NaN"

fun fl_add :: "dtype \<Rightarrow> npfloat \<Rightarrow> npfloat \<Rightarrow> npfloat" where
  "fl_add dt (Finite a) (Finite b) = np_round dt (a + b)"
| "fl_add dt NaN y = NaN"
| "fl_add dt x NaN = NaN"
| "fl_add dt PosInf NegInf = NaN"
| "fl_add dt NegInf PosInf = NaN"
| "fl_add dt PosInf y = PosInf"
| "fl_add dt x PosInf = PosInf"
| "fl_add dt NegInf y = NegInf"
| "fl_add dt x NegInf = NegInf"

definition fl_sub :: "dtype \<Rightarrow> npfloat \<Rightarrow> npfloat \<Rightarrow> npfloat" where
  "fl_sub dt x y = fl_add dt x (fl_neg y)"

fun fl_mul :: "dtype \<Rightarrow> npfloat \<Rightarrow> npfloat \<Rightarrow> npfloat" where
  "fl_mul dt (Finite a) (Finite b) = np_round dt (a * b)"
| "fl_mul dt NaN y = NaN"
| "fl_mul dt x NaN = NaN"
| "fl_mul dt (Finite a) y =
     (if a = 0 then NaN else if (0 < a) = (y = PosInf) then PosInf else NegInf)"
| "fl_mul dt x (Finite b) =
     (if b = 0 then NaN else if (0 < b) = (x = PosInf) then PosInf else NegInf)"
| "fl_mul dt x y = (if x = y then PosInf else NegInf)"

fun fl_div :: "dtype \<Rightarrow> npfloat \<Rightarrow> npfloat \<Rightarrow> npfloat" where
  "fl_div dt (Finite a) (Finite b) =
     (if b \<noteq> 0 then np_round dt (a / b)
      else if 0 < a then PosInf
      else if a < 0 then NegInf
      else NaN)"
| "fl_div dt NaN y = NaN"
| "fl_div dt x NaN = NaN"
| "fl_div dt (Finite a) y = Finite 0"
| "fl_div dt x (Finite b) = (if (0 \<le> b) = (x = PosInf) then PosInf else NegInf)"
| "fl_div dt x y = NaN"

text \<open>
  A row of a boxes array of a floating-point dtype, the row of finite coordinates, and
  the reals that are values of the dtype: those that rounding leaves as they are.
\<close>

type_synonym fbox = "npfloat \<times> npfloat \<times> npfloat \<times> npfloat"

definition fbox_of :: "box \<Rightarrow> fbox" where
  "fbox_of b = (case b of (x1, y1, x2, y2) \<Rightarrow> (Finite x1, Finite y1, Finite x2, Finite y2))"

definition representable :: "dtype \<Rightarrow> real \<Rightarrow> bool" where
  "representable dt x = (np_round dt x = Finite x)"

definition float_box :: "dtype \<Rightarrow> box \<Rightarrow> bool" where
  "float_box dt b =
     (case b of (x1, y1, x2, y2) \<Rightarrow>
        representable dt x1 \<and> representable dt y1 \<and> representable dt x2 \<and> representable dt y2)"

subsection \<open>The overlap in the arithmetic of the dtype\<close>

text \<open>
  \<^verbatim>\<open>intersect\<close> and \<^verbatim>\<open>jaccard_numpy\<close> as they run on an array of dtype \<open>dt\<close>: the same
  expressions as above, every subtraction, product, sum and quotient being that of the
  dtype. \<^verbatim>\<open>np.clip(x, a_min=0, a_max=np.inf)\<close> is \<^verbatim>\<open>minimum(maximum(x, 0), inf)\<close>.
\<close>

definition np_clip0 :: "npfloat \<Rightarrow> npfloat" where
  "np_clip0 x = np_min2 (np_max2 x (Finite 0)) PosInf"

definition intersect_row_ieee :: "dtype \<Rightarrow> fbox \<Rightarrow> fbox \<Rightarrow> npfloat" where
  "intersect_row_ieee dt a b =
     (case a of (ax1, ay1, ax2, ay2) \<Rightarrow>
      case b of (bx1, by1, bx2, by2) \<Rightarrow>
        (let max_x = np_min2 ax2 bx2; max_y = np_min2 ay2 by2;
             min_x = np_max2 ax1 bx1; min_y = np_max2 ay1 by1;
             inter_x = np_clip0 (fl_sub dt max_x min_x);
             inter_y = np_clip0 (fl_sub dt max_y min_y)
         in fl_mul dt inter_x inter_y))"

definition intersect_ieee :: "dtype \<Rightarrow> fbox list \<Rightarrow> fbox \<Rightarrow> npfloat list" where
  "intersect_ieee dt box_a box_b = map (\<lambda>a. intersect_row_ieee dt a box_b) box_a"

definition area_ieee :: "dtype \<Rightarrow> fbox \<Rightarrow> npfloat" where
  "area_ieee dt b = (case b of (x1, y1, x2, y2) \<Rightarrow> fl_mul dt (fl_sub dt x2 x1) (fl_sub dt y2 y1))"

definition jaccard_numpy_ieee :: "dtype \<Rightarrow> fbox list \<Rightarrow> fbox \<Rightarrow> npfloat list" where
  "jaccard_numpy_ieee dt box_a box_b =
     (let inter = intersect_ieee dt box_a box_b;
          area_a = map (area_ieee dt) box_a;
          area_b = area_ieee dt box_b;
          union = map2 (fl_sub dt) (map (\<lambda>a. fl_add dt a area_b) area_a) inter
      in map2 (fl_div dt) inter union)"

text \<open>The denominator and the quotient of \<^verbatim>\<open>jaccard_numpy\<close> for one row.\<close>

definition union_row_ieee :: "dtype \<Rightarrow> fbox \<Rightarrow> fbox \<Rightarrow> npfloat" where
  "union_row_ieee dt a b =
     fl_sub dt (fl_add dt (area_ieee dt a) (area_ieee dt b)) (intersect_row_ieee dt a b)"

definition jaccard_row_ieee :: "dtype \<Rightarrow> fbox \<Rightarrow> fbox \<Rightarrow> npfloat" where
  "jaccard_row_ieee dt a b = fl_div dt (intersect_row_ieee dt a b) (union_row_ieee dt a b)"

subsection \<open>The mirror in the arithmetic of the dtype\<close>

text \<open>
  \<^verbatim>\<open>boxes[:, 0::2] = width - boxes[:, 2::-2]\<close> on an array of dtype \<open>dt\<close>: the Python
  int \<open>width\<close> is converted to the dtype and the subtraction is that of the dtype. The
  flips of the image and of the masks move elements and compute nothing.
\<close>

type_synonym fsample = "real ndarray \<times> real ndarray \<times> fbox list \<times> label_bundle"

definition mirror_box_ieee :: "dtype \<Rightarrow> nat \<Rightarrow> fbox \<Rightarrow> fbox" where
  "mirror_box_ieee dt width b =
     (case b of (x1, y1, x2, y2) \<Rightarrow>
        (fl_sub dt (np_round dt (real width)) x2, y1,
         fl_sub dt (np_round dt (real width)) x1, y2))"

definition mirror_ieee :: "dtype \<Rightarrow> nat \<Rightarrow> fsample \<Rightarrow> error + fsample" where
  "mirror_ieee dt width s =
     (case s of (img, masks, boxes, lbls) \<Rightarrow>
        if length (shape masks) < 3 then Inl IndexError
        else Inr (flip_axis 1 img, flip_axis 2 masks,
                  map (mirror_box_ieee dt width) boxes, lbls))"

definition RandomMirror_ieee :: "dtype \<Rightarrow> fsample \<Rightarrow> tape \<Rightarrow> fsample run" where
  "RandomMirror_ieee dt s t =
     (case s of (img, masks, boxes, lbls) \<Rightarrow>
        (case shape img of
           [h, width, c] \<Rightarrow>
             (case t of
                [] \<Rightarrow> None
              | k # t' \<Rightarrow>
                  if randint01 k \<noteq> 0 then
                    (case mirror_ieee dt width s of
                       Inl e \<Rightarrow> Some (Inl e)
                     | Inr s' \<Rightarrow> Some (Inr (s', t')))
                  else Some (Inr (s, t')))
         | _ \<Rightarrow> Some (Inl ValueError)))"

section \<open>Properties of the geometric primitives\<close>

lemma jaccard_numpy_rows: "jaccard_numpy box_a box_b = map (\<lambda>a. jaccard_row a box_b) box_a"
  by (induction box_a)
     (simp_all add: jaccard_numpy_def intersect_def jaccard_row_def union_row_def Let_def)

section \<open>Properties of the array operations\<close>

lemma shape_build [simp]: "shape (build shp f) = shp"
  by (simp add: build_def)

lemma concat_blocks_length:
  "length (concat (map (\<lambda>i. map (g i) xs) [0..<n])) = n * length xs"
  by (induction n) simp_all

lemma length_indices: "length (indices shp) = prod_list shp"
  by (induction shp) (simp_all add: concat_blocks_length)

lemma concat_blocks_nth:
  "i < n \<Longrightarrow> j < length xs \<Longrightarrow>
     concat (map (\<lambda>i. map (g i) xs) [0..<n]) ! (i * length xs + j) = g i (xs ! j)"
proof (induction n)
  case 0
  then show ?case by simp
next
  case (Suc n)
  show ?case
  proof (cases "i < n")
    case True
    then have "Suc i \<le> n" by simp
    then have "Suc i * length xs \<le> n * length xs" by (rule mult_le_mono1)
    with Suc.prems have "i * length xs + j < n * length xs" by simp
    with True Suc show ?thesis by (simp add: nth_append concat_blocks_length)
  next
    case False
    with Suc.prems have "i = n" by simp
    with Suc.prems show ?thesis by (simp add: nth_append concat_blocks_length)
  qed
qed

lemma in_indices: "idx \<in> set (indices shp) \<longleftrightarrow> list_all2 (<) idx shp"
proof (induction shp arbitrary: idx)
  case Nil
  then show ?case by auto
next
  case (Cons n ns)
  show ?case
    by (cases idx) (auto simp: Cons image_iff)
qed

lemma offset_bound: "list_all2 (<) idx shp \<Longrightarrow> offset shp idx < prod_list shp"
proof (induction shp arbitrary: idx)
  case Nil
  then show ?case by simp
next
  case (Cons n ns)
  then obtain i rest where idx: "idx = i # rest" and i: "i < n" and rest: "list_all2 (<) rest ns"
    by (cases idx) auto
  from Cons.IH [OF rest] have o: "offset ns rest < prod_list ns" .
  from i have "Suc i \<le> n" by simp
  then have "Suc i * prod_list ns \<le> n * prod_list ns" by (rule mult_le_mono1)
  with o show ?case by (simp add: idx)
qed

lemma indices_nth_offset:
  "list_all2 (<) idx shp \<Longrightarrow> indices shp ! offset shp idx = idx"
proof (induction shp arbitrary: idx)
  case Nil
  then show ?case by simp
next
  case (Cons n ns)
  then obtain i rest where idx: "idx = i # rest" and i: "i < n" and rest: "list_all2 (<) rest ns"
    by (cases idx) auto
  from offset_bound [OF rest] have o: "offset ns rest < length (indices ns)"
    by (simp add: length_indices)
  from concat_blocks_nth [OF i o, of "\<lambda>i. (#) i"] Cons.IH [OF rest]
  show ?case by (simp add: idx length_indices)
qed

lemma elem_at_build:
  "list_all2 (<) idx shp \<Longrightarrow> elem_at (build shp f) idx = f idx"
  using offset_bound [of idx shp] indices_nth_offset [of idx shp]
  by (simp add: elem_at_def at_shape_def build_def length_indices)

lemma concat_blocks_upt:
  "concat (map (\<lambda>i. map (\<lambda>j. i * p + j) [0..<p]) [0..<n]) = [0..<n * p]"
proof (induction n)
  case 0
  then show ?case by simp
next
  case (Suc n)
  have blk: "map (\<lambda>j. n * p + j) [0..<p] = [n * p..<n * p + p]"
    by (simp add: map_add_upt add.commute)
  have app: "[0..<n * p + p] = [0..<n * p] @ [n * p..<n * p + p]"
    by (rule upt_add_eq_append) simp
  have "concat (map (\<lambda>i. map (\<lambda>j. i * p + j) [0..<p]) [0..<Suc n])
      = concat (map (\<lambda>i. map (\<lambda>j. i * p + j) [0..<p]) [0..<n]) @ map (\<lambda>j. n * p + j) [0..<p]"
    by simp
  also have "\<dots> = [0..<n * p] @ [n * p..<n * p + p]"
    by (simp only: Suc blk)
  also have "\<dots> = [0..<Suc n * p]"
    using app by (simp add: add.commute)
  finally show ?case .
qed

lemma map_offset_indices: "map (offset shp) (indices shp) = [0..<prod_list shp]"
proof (induction shp)
  case Nil
  then show ?case by simp
next
  case (Cons n ns)
  have "map (offset (n # ns)) (indices (n # ns))
      = concat (map (\<lambda>i. map (\<lambda>j. i * prod_list ns + j) (map (offset ns) (indices ns))) [0..<n])"
    by (simp add: map_concat comp_def)
  also have "\<dots> = [0..<n * prod_list ns]"
    by (simp only: Cons concat_blocks_upt)
  finally show ?case by simp
qed

lemma build_elem_at: "wf_array a \<Longrightarrow> build (shape a) (elem_at a) = a"
proof -
  assume wf: "wf_array a"
  have "map (elem_at a) (indices (shape a))
      = map ((!) (flat a)) (map (offset (shape a)) (indices (shape a)))"
    by (simp add: elem_at_def at_shape_def)
  also have "\<dots> = flat a"
    using map_nth [of "flat a"] wf by (simp add: map_offset_indices wf_array_def)
  finally show ?thesis by (simp add: build_def)
qed

lemma build_cong:
  "(\<And>idx. list_all2 (<) idx shp \<Longrightarrow> f idx = g idx) \<Longrightarrow> build shp f = build shp g"
  by (simp add: build_def in_indices)

lemma flip_index_valid:
  fixes idx shp :: "nat list"
  assumes "list_all2 (<) idx shp"
  shows "list_all2 (<) (idx[k := shp ! k - 1 - idx ! k]) shp"
proof -
  from assms have len: "length idx = length shp" and lt: "\<And>i. i < length shp \<Longrightarrow> idx ! i < shp ! i"
    by (simp_all add: list_all2_conv_all_nth)
  have "(idx[k := shp ! k - 1 - idx ! k]) ! i < shp ! i" if "i < length shp" for i
  proof (cases "i = k")
    case True
    from lt [OF that] True have "idx ! k < shp ! k" by simp
    then have "shp ! k - 1 - idx ! k < shp ! k" by linarith
    with True that len show ?thesis by simp
  next
    case False
    with lt [OF that] show ?thesis by simp
  qed
  with len show ?thesis by (simp add: list_all2_conv_all_nth)
qed

lemma flip_index_twice:
  fixes idx shp :: "nat list"
  shows "list_all2 (<) idx shp \<Longrightarrow>
     (idx[k := shp ! k - 1 - idx ! k])[k := shp ! k - 1 - (idx[k := shp ! k - 1 - idx ! k]) ! k] = idx"
proof (cases "k < length idx")
  case True
  assume v: "list_all2 (<) idx shp"
  with True have "idx ! k < shp ! k" by (simp add: list_all2_conv_all_nth)
  then have "shp ! k - 1 - (shp ! k - 1 - idx ! k) = idx ! k" by linarith
  with True show ?thesis by simp
next
  case False
  then show ?thesis by (simp add: list_update_beyond)
qed

lemma flip_axis_twice: "wf_array a \<Longrightarrow> flip_axis k (flip_axis k a) = a"
proof -
  assume wf: "wf_array a"
  let ?g = "\<lambda>idx. idx[k := shape a ! k - 1 - idx ! k]"
  have "flip_axis k (flip_axis k a)
      = build (shape a) (\<lambda>idx. elem_at (build (shape a) (\<lambda>i. elem_at a (?g i))) (?g idx))"
    by (simp add: flip_axis_def)
  also have "\<dots> = build (shape a) (elem_at a)"
  proof (rule build_cong)
    fix idx assume v: "list_all2 (<) idx (shape a)"
    then have "list_all2 (<) (?g idx) (shape a)" by (rule flip_index_valid)
    then have "elem_at (build (shape a) (\<lambda>i. elem_at a (?g i))) (?g idx) = elem_at a (?g (?g idx))"
      by (rule elem_at_build)
    with flip_index_twice [OF v, of k] show
      "elem_at (build (shape a) (\<lambda>i. elem_at a (?g i))) (?g idx) = elem_at a idx"
      by simp
  qed
  also have "\<dots> = a" using wf by (rule build_elem_at)
  finally show ?thesis .
qed

section \<open>Rounding to the nearest value of a format\<close>

lemma prec_ge: "2 \<le> prec dt"
  by (cases dt) simp_all

lemma emax_ge: "2 \<le> emax dt"
  by (cases dt) simp_all

lemma emin_le: "emin dt \<le> - 1"
  using emax_ge [of dt] by (simp add: emin_def)

lemma p2_mono: "a \<le> b \<Longrightarrow> (2::real) powi a \<le> 2 powi b"
  by (rule power_int_increasing) simp_all

lemma p2_strict_mono: "a < b \<Longrightarrow> (2::real) powi a < 2 powi b"
  by (rule power_int_strict_increasing) simp_all

lemma p2_add: "(2::real) powi (a + b) = 2 powi a * 2 powi b"
  by (rule power_int_add) simp

lemma p2_diff: "(2::real) powi (a - b) = 2 powi a / 2 powi b"
  by (rule power_int_diff) simp

lemma p2_Suc: "(2::real) powi (a + 1) = 2 * 2 powi a"
  by (simp add: p2_add)

lemma p2_is_int: "0 \<le> n \<Longrightarrow> (2::real) powi n = of_int (2 ^ nat n)"
  by (simp add: power_int_def)

lemma scan_up_bounds:
  "e \<le> hi \<Longrightarrow> 2 powi e \<le> x \<Longrightarrow>
     e \<le> scan_up hi x e \<and> scan_up hi x e \<le> hi \<and> 2 powi (scan_up hi x e) \<le> x \<and>
     (scan_up hi x e < hi \<longrightarrow> x < 2 powi (scan_up hi x e + 1))"
proof (induction hi x e rule: scan_up.induct)
  case (1 hi x e)
  show ?case
  proof (cases "hi \<le> e \<or> x < 2 powi (e + 1)")
    case True
    with 1(2,3) show ?thesis by (subst (1 2 3 4 5) scan_up.simps) auto
  next
    case False
    with 1(1) [OF False] 1(2,3) have
      "e + 1 \<le> scan_up hi x (e + 1) \<and> scan_up hi x (e + 1) \<le> hi \<and>
       2 powi (scan_up hi x (e + 1)) \<le> x \<and>
       (scan_up hi x (e + 1) < hi \<longrightarrow> x < 2 powi (scan_up hi x (e + 1) + 1))"
      by simp
    moreover have "scan_up hi x e = scan_up hi x (e + 1)"
      using False by (subst scan_up.simps) simp
    ultimately show ?thesis by simp
  qed
qed

lemma scan_down_bounds:
  "lo \<le> e \<Longrightarrow> x < 2 powi (e + 1) \<Longrightarrow>
     lo \<le> scan_down lo x e \<and> scan_down lo x e \<le> e \<and> x < 2 powi (scan_down lo x e + 1) \<and>
     (lo < scan_down lo x e \<longrightarrow> 2 powi (scan_down lo x e) \<le> x)"
proof (induction lo x e rule: scan_down.induct)
  case (1 lo x e)
  show ?case
  proof (cases "e \<le> lo \<or> 2 powi e \<le> x")
    case True
    with 1(2,3) show ?thesis by (subst (1 2 3 4 5) scan_down.simps) auto
  next
    case False
    with 1(1) [OF False] 1(2,3) have
      "lo \<le> scan_down lo x (e - 1) \<and> scan_down lo x (e - 1) \<le> e - 1 \<and>
       x < 2 powi (scan_down lo x (e - 1) + 1) \<and>
       (lo < scan_down lo x (e - 1) \<longrightarrow> 2 powi (scan_down lo x (e - 1)) \<le> x)"
      by simp
    moreover have "scan_down lo x e = scan_down lo x (e - 1)"
      using False by (subst scan_down.simps) simp
    ultimately show ?thesis by simp
  qed
qed

lemma exponent_range: "emin dt \<le> exponent dt x \<and> exponent dt x \<le> emax dt"
proof (cases "1 \<le> x")
  case True
  with scan_up_bounds [of 0 "emax dt" x] emax_ge [of dt] emin_le [of dt]
  show ?thesis by (simp add: exponent_def)
next
  case False
  with scan_down_bounds [of "emin dt" "- 1" x] emax_ge [of dt] emin_le [of dt]
  show ?thesis by (simp add: exponent_def)
qed

lemma exponent_lower: "emin dt < exponent dt x \<Longrightarrow> 2 powi (exponent dt x) \<le> x"
proof (cases "1 \<le> x")
  case True
  with scan_up_bounds [of 0 "emax dt" x] emax_ge [of dt]
  show ?thesis by (simp add: exponent_def)
next
  case False
  assume "emin dt < exponent dt x"
  with False scan_down_bounds [of "emin dt" "- 1" x] emin_le [of dt]
  show ?thesis by (simp add: exponent_def)
qed

lemma exponent_upper: "exponent dt x < emax dt \<Longrightarrow> x < 2 powi (exponent dt x + 1)"
proof (cases "1 \<le> x")
  case True
  assume "exponent dt x < emax dt"
  with True scan_up_bounds [of 0 "emax dt" x] emax_ge [of dt]
  show ?thesis by (simp add: exponent_def)
next
  case False
  with scan_down_bounds [of "emin dt" "- 1" x] emin_le [of dt]
  show ?thesis by (simp add: exponent_def)
qed

lemma exponent_eq:
  assumes "emin dt \<le> e" "e \<le> emax dt"
    and "emin dt < e \<Longrightarrow> 2 powi e \<le> x"
    and "e < emax dt \<Longrightarrow> x < 2 powi (e + 1)"
  shows "exponent dt x = e"
proof (rule ccontr)
  assume ne: "exponent dt x \<noteq> e"
  let ?r = "exponent dt x"
  from exponent_range [of dt x] have r: "emin dt \<le> ?r" "?r \<le> emax dt" by simp_all
  show False
  proof (cases "?r < e")
    case True
    with r assms have "2 powi e \<le> x" by simp
    moreover from True assms(2) have "x < 2 powi (?r + 1)" by (intro exponent_upper) simp
    moreover from True have "(2::real) powi (?r + 1) \<le> 2 powi e" by (intro p2_mono) simp
    ultimately show False by simp
  next
    case False
    with ne have gt: "e < ?r" by simp
    with assms(1) have "2 powi ?r \<le> x" by (intro exponent_lower) simp
    moreover from gt r assms have "x < 2 powi (e + 1)" by simp
    moreover from gt have "(2::real) powi (e + 1) \<le> 2 powi ?r" by (intro p2_mono) simp
    ultimately show False by simp
  qed
qed

lemma exponent_mono:
  assumes "x \<le> y"
  shows "exponent dt x \<le> exponent dt y"
proof (rule ccontr)
  assume "\<not> exponent dt x \<le> exponent dt y"
  then have gt: "exponent dt y < exponent dt x" by simp
  from exponent_range [of dt x] exponent_range [of dt y] gt
  have "emin dt < exponent dt x" "exponent dt y < emax dt" by simp_all
  then have "2 powi (exponent dt x) \<le> x" "y < 2 powi (exponent dt y + 1)"
    by (simp_all add: exponent_lower exponent_upper)
  moreover from gt have "(2::real) powi (exponent dt y + 1) \<le> 2 powi (exponent dt x)"
    by (intro p2_mono) simp
  ultimately show False using assms by simp
qed

lemma round_half_even_0 [simp]: "round_half_even 0 = 0"
  by (simp add: round_half_even_def)

lemma round_half_even_of_int [simp]: "round_half_even (of_int n) = n"
  by (simp add: round_half_even_def)

lemma round_half_even_mono:
  assumes "r \<le> s"
  shows "round_half_even r \<le> round_half_even s"
proof (cases "\<lfloor>r\<rfloor> = \<lfloor>s\<rfloor>")
  case True
  with assms show ?thesis by (simp add: round_half_even_def Let_def)
next
  case False
  with assms have "\<lfloor>r\<rfloor> + 1 \<le> \<lfloor>s\<rfloor>" using floor_mono [of r s] by simp
  moreover have "round_half_even r \<le> \<lfloor>r\<rfloor> + 1" by (simp add: round_half_even_def Let_def)
  moreover have "\<lfloor>s\<rfloor> \<le> round_half_even s" by (simp add: round_half_even_def Let_def)
  ultimately show ?thesis by simp
qed

lemma round_half_even_minus: "round_half_even (- r) = - round_half_even r"
proof (cases "r = of_int \<lfloor>r\<rfloor>")
  case True
  then obtain n where "r = of_int n" ..
  then have "- r = of_int (- n)" by simp
  then show ?thesis unfolding \<open>r = of_int n\<close> by (simp only: round_half_even_of_int)
next
  case False
  then have fl: "\<lfloor>- r\<rfloor> = - \<lfloor>r\<rfloor> - 1"
    by (metis Ints_of_int ceiling_altdef ceiling_def floor_of_int minus_diff_eq minus_minus of_int_floor_cancel diff_minus_eq_add uminus_add_conv_diff)
  show ?thesis
    unfolding round_half_even_def Let_def fl by auto
qed


lemma ulp_pos: "0 < ulp dt x"
  by (simp add: ulp_def)

lemma ulp_nonneg_arg: "0 \<le> x \<Longrightarrow> ulp dt x = 2 powi (exponent dt x - prec dt + 1)"
  by (simp add: ulp_def)

lemma nearest_minus: "nearest dt (- x) = - nearest dt x"
  by (simp add: nearest_def ulp_def round_half_even_minus)

lemma nearest_0 [simp]: "nearest dt 0 = 0"
  by (simp add: nearest_def)

lemma nearest_nonneg:
  assumes "0 \<le> x"
  shows "0 \<le> nearest dt x"
proof -
  from assms ulp_pos [of dt x] have "0 \<le> x / ulp dt x" by simp
  from round_half_even_mono [OF this] have "0 \<le> round_half_even (x / ulp dt x)" by simp
  with ulp_pos [of dt x] show ?thesis by (simp add: nearest_def)
qed

lemma nearest_rep:
  assumes "y = of_int k * 2 powi q" and "exponent dt \<bar>y\<bar> - prec dt + 1 \<le> q"
  shows "nearest dt y = y"
proof -
  define d where "d = q - (exponent dt \<bar>y\<bar> - prec dt + 1)"
  with assms(2) have d: "0 \<le> d" by simp
  have "(2::real) powi q = 2 powi d * ulp dt y"
    unfolding ulp_def d_def by (simp flip: p2_add)
  then have y: "y = of_int (k * 2 ^ nat d) * ulp dt y"
    using assms(1) d by (simp add: p2_is_int)
  then have "y / ulp dt y = of_int (k * 2 ^ nat d)"
    using ulp_pos [of dt y] by (simp add: field_simps)
  then have "round_half_even (y / ulp dt y) = k * 2 ^ nat d"
    by (simp only: round_half_even_of_int)
  with y show ?thesis by (simp add: nearest_def)
qed

lemma nearest_lower:
  assumes "0 \<le> x" and "emin dt < exponent dt x"
  shows "2 powi (exponent dt x) \<le> nearest dt x"
proof -
  let ?e = "exponent dt x"
  let ?K = "2 ^ nat (prec dt - 1) :: int"
  have u: "ulp dt x = 2 powi (?e - prec dt + 1)" using assms(1) by (rule ulp_nonneg_arg)
  have K: "2 powi ?e = of_int ?K * ulp dt x"
  proof -
    have "(2::real) powi ?e = 2 powi (prec dt - 1) * 2 powi (?e - prec dt + 1)"
      by (simp flip: p2_add)
    also have "(2::real) powi (prec dt - 1) = of_int ?K"
      using prec_ge [of dt] by (intro p2_is_int) simp
    finally show ?thesis by (simp add: u)
  qed
  from exponent_lower [OF assms(2)] have "2 powi ?e \<le> x" .
  with K ulp_pos [of dt x] have "of_int ?K \<le> x / ulp dt x" by (simp add: field_simps)
  from round_half_even_mono [OF this] have "?K \<le> round_half_even (x / ulp dt x)"
    by (simp only: round_half_even_of_int)
  then have "(of_int ?K :: real) \<le> of_int (round_half_even (x / ulp dt x))" by linarith
  with ulp_pos [of dt x] have "of_int ?K * ulp dt x \<le> nearest dt x"
    unfolding nearest_def by (intro mult_right_mono) simp_all
  with K show ?thesis by simp
qed

lemma nearest_upper:
  assumes "0 \<le> x" and "exponent dt x < emax dt"
  shows "nearest dt x \<le> 2 powi (exponent dt x + 1)"
proof -
  let ?e = "exponent dt x"
  let ?K = "2 ^ nat (prec dt) :: int"
  have u: "ulp dt x = 2 powi (?e - prec dt + 1)" using assms(1) by (rule ulp_nonneg_arg)
  have K: "2 powi (?e + 1) = of_int ?K * ulp dt x"
  proof -
    have "(2::real) powi (?e + 1) = 2 powi (prec dt) * 2 powi (?e - prec dt + 1)"
      by (simp flip: p2_add)
    also have "(2::real) powi (prec dt) = of_int ?K"
      using prec_ge [of dt] by (intro p2_is_int) simp
    finally show ?thesis by (simp add: u)
  qed
  from exponent_upper [OF assms(2)] have "x < 2 powi (?e + 1)" .
  with K ulp_pos [of dt x] have "x / ulp dt x \<le> of_int ?K" by (simp add: field_simps)
  from round_half_even_mono [OF this] have "round_half_even (x / ulp dt x) \<le> ?K"
    by (simp only: round_half_even_of_int)
  then have "(of_int (round_half_even (x / ulp dt x)) :: real) \<le> of_int ?K" by linarith
  with ulp_pos [of dt x] have "nearest dt x \<le> of_int ?K * ulp dt x"
    unfolding nearest_def by (intro mult_right_mono) simp_all
  with K show ?thesis by simp
qed

lemma nearest_mono_nonneg:
  assumes "0 \<le> x" and "x \<le> y"
  shows "nearest dt x \<le> nearest dt y"
proof (cases "exponent dt x = exponent dt y")
  case True
  from assms have y: "0 \<le> y" by simp
  from True assms(1) y have u: "ulp dt x = ulp dt y" by (simp add: ulp_nonneg_arg)
  from assms(2) ulp_pos [of dt y] have "x / ulp dt y \<le> y / ulp dt y"
    by (simp add: divide_right_mono)
  from round_half_even_mono [OF this]
  have "(of_int (round_half_even (x / ulp dt y)) :: real) \<le> of_int (round_half_even (y / ulp dt y))"
    by linarith
  with ulp_pos [of dt y] show ?thesis
    unfolding nearest_def u by (intro mult_right_mono) simp_all
next
  case False
  from assms have y: "0 \<le> y" by simp
  from False exponent_mono [OF assms(2), of dt] have lt: "exponent dt x < exponent dt y" by simp
  with exponent_range [of dt x] exponent_range [of dt y]
  have "exponent dt x < emax dt" "emin dt < exponent dt y" by simp_all
  with assms(1) y have "nearest dt x \<le> 2 powi (exponent dt x + 1)"
    "2 powi (exponent dt y) \<le> nearest dt y"
    by (simp_all add: nearest_upper nearest_lower)
  moreover from lt have "(2::real) powi (exponent dt x + 1) \<le> 2 powi (exponent dt y)"
    by (intro p2_mono) simp
  ultimately show ?thesis by simp
qed

lemma nearest_mono:
  assumes "x \<le> y"
  shows "nearest dt x \<le> nearest dt y"
proof (cases "0 \<le> x")
  case True
  from True assms show ?thesis by (rule nearest_mono_nonneg)
next
  case x: False
  show ?thesis
  proof (cases "0 \<le> y")
    case True
    from x nearest_nonneg [of "- x" dt] have "nearest dt x \<le> 0" by (simp add: nearest_minus)
    with nearest_nonneg [OF True, of dt] show ?thesis by simp
  next
    case False
    with assms nearest_mono_nonneg [of "- y" "- x" dt] show ?thesis by (simp add: nearest_minus)
  qed
qed

lemma nearest_idem_nonneg:
  assumes "0 \<le> x"
  shows "nearest dt (nearest dt x) = nearest dt x"
proof -
  let ?y = "nearest dt x"
  let ?e = "exponent dt x"
  from nearest_nonneg [OF assms] have y: "0 \<le> ?y" .
  then have ay: "\<bar>?y\<bar> = ?y" by simp
  show ?thesis
  proof (cases "exponent dt ?y \<le> ?e")
    case True
    have "?y = of_int (round_half_even (x / ulp dt x)) * 2 powi (?e - prec dt + 1)"
      using assms by (simp add: nearest_def ulp_nonneg_arg)
    moreover from True have "exponent dt \<bar>?y\<bar> - prec dt + 1 \<le> ?e - prec dt + 1"
      by (simp add: ay)
    ultimately show ?thesis by (rule nearest_rep)
  next
    case False
    then have gt: "?e < exponent dt ?y" by simp
    with exponent_range [of dt ?y] exponent_range [of dt x]
    have e: "?e < emax dt" "emin dt < exponent dt ?y" by simp_all
    from nearest_upper [OF assms e(1)] have up: "?y \<le> 2 powi (?e + 1)" .
    from exponent_lower [OF e(2)] have lo: "2 powi (exponent dt ?y) \<le> ?y" .
    have ey: "exponent dt ?y = ?e + 1"
    proof (rule ccontr)
      assume "exponent dt ?y \<noteq> ?e + 1"
      with gt have "?e + 1 < exponent dt ?y" by simp
      then have "(2::real) powi (?e + 1) < 2 powi (exponent dt ?y)" by (rule p2_strict_mono)
      with up lo show False by simp
    qed
    with up lo have "?y = of_int 1 * 2 powi (?e + 1)" by simp
    moreover have "exponent dt \<bar>?y\<bar> - prec dt + 1 \<le> ?e + 1"
      using prec_ge [of dt] by (simp add: ay ey)
    ultimately show ?thesis by (rule nearest_rep)
  qed
qed

lemma nearest_idem: "nearest dt (nearest dt x) = nearest dt x"
proof (cases "0 \<le> x")
  case True
  then show ?thesis by (rule nearest_idem_nonneg)
next
  case False
  with nearest_idem_nonneg [of "- x" dt] show ?thesis by (simp add: nearest_minus)
qed

lemma exponent_double: "exponent dt (2 * x) \<le> exponent dt x + 1"
proof (rule ccontr)
  assume "\<not> exponent dt (2 * x) \<le> exponent dt x + 1"
  then have gt: "exponent dt x + 1 < exponent dt (2 * x)" by simp
  with exponent_range [of dt x] exponent_range [of dt "2 * x"]
  have "emin dt < exponent dt (2 * x)" "exponent dt x < emax dt" by simp_all
  then have "2 powi (exponent dt (2 * x)) \<le> 2 * x" "x < 2 powi (exponent dt x + 1)"
    by (simp_all add: exponent_lower exponent_upper)
  moreover from gt have "(2::real) powi (exponent dt x + 1 + 1) \<le> 2 powi (exponent dt (2 * x))"
    by (intro p2_mono) simp
  moreover have "(2::real) powi (exponent dt x + 1 + 1) = 2 * 2 powi (exponent dt x + 1)"
    by (rule p2_Suc)
  ultimately show False by linarith
qed

lemma nearest_double:
  assumes "nearest dt y = y"
  shows "nearest dt (2 * y) = 2 * y"
proof -
  let ?k = "round_half_even (y / ulp dt y)"
  define q where "q = exponent dt \<bar>y\<bar> - prec dt + 1"
  from assms have "y = of_int ?k * 2 powi q"
    by (simp add: nearest_def ulp_def q_def)
  then have "2 * y = of_int ?k * 2 powi (q + 1)"
    using p2_Suc [of q] by simp
  moreover have "exponent dt \<bar>2 * y\<bar> - prec dt + 1 \<le> q + 1"
    using exponent_double [of dt "\<bar>y\<bar>"] by (simp add: abs_mult q_def)
  ultimately show ?thesis by (rule nearest_rep)
qed

lemma nearest_1 [simp]: "nearest dt 1 = 1"
proof -
  have "exponent dt 1 = 0"
    using emin_le [of dt] emax_ge [of dt] by (intro exponent_eq) simp_all
  with prec_ge [of dt] have "exponent dt \<bar>1\<bar> - prec dt + 1 \<le> 0" by simp
  with nearest_rep [of 1 1 0 dt] show ?thesis by simp
qed

lemma tiny_pos: "0 < tiny dt"
  by (simp add: tiny_def)

lemma nearest_tiny: "nearest dt (tiny dt) = tiny dt"
proof -
  have "tiny dt < 2 powi (emin dt + 1)"
    unfolding tiny_def using prec_ge [of dt] by (intro p2_strict_mono) simp
  then have "exponent dt (tiny dt) = emin dt"
    using emax_ge [of dt] by (intro exponent_eq) (simp_all add: emin_def)
  then have "exponent dt \<bar>tiny dt\<bar> - prec dt + 1 \<le> emin dt - prec dt + 1"
    using tiny_pos [of dt] by simp
  with nearest_rep [of "tiny dt" 1 "emin dt - prec dt + 1" dt] show ?thesis
    by (simp add: tiny_def)
qed

lemma nearest_on_grid: "\<exists>k. nearest dt x = of_int k * tiny dt"
proof -
  define d where "d = exponent dt \<bar>x\<bar> - emin dt"
  with exponent_range [of dt "\<bar>x\<bar>"] have d: "0 \<le> d" by simp
  have "exponent dt \<bar>x\<bar> - prec dt + 1 = d + (emin dt - prec dt + 1)"
    by (simp add: d_def)
  then have "ulp dt x = 2 powi d * tiny dt"
    unfolding ulp_def tiny_def by (simp only: p2_add)
  with d have "ulp dt x = of_int (2 ^ nat d) * tiny dt" by (simp add: p2_is_int)
  then have "nearest dt x = of_int (round_half_even (x / ulp dt x) * 2 ^ nat d) * tiny dt"
    by (simp add: nearest_def)
  then show ?thesis ..
qed

lemma nearest_diff_pos:
  assumes "nearest dt a = a" "nearest dt b = b" "a < b"
  shows "tiny dt \<le> nearest dt (b - a)"
proof -
  from nearest_on_grid [of dt a] assms(1) obtain ka where a: "a = of_int ka * tiny dt" by auto
  from nearest_on_grid [of dt b] assms(2) obtain kb where b: "b = of_int kb * tiny dt" by auto
  from assms(3) tiny_pos [of dt] have "ka < kb" unfolding a b by simp
  then have "(1::real) \<le> of_int (kb - ka)" by linarith
  with tiny_pos [of dt] have "1 * tiny dt \<le> of_int (kb - ka) * tiny dt"
    by (intro mult_right_mono) simp_all
  then have "tiny dt \<le> b - a" unfolding a b by (simp add: algebra_simps)
  from nearest_mono [OF this, of dt] show ?thesis by (simp add: nearest_tiny)
qed

section \<open>What an operation of the dtype stores\<close>

lemma huge_gt_1: "1 < huge dt"
proof -
  have "(2::real) powi 0 < 2 powi (emax dt + 1)"
    using emax_ge [of dt] by (intro p2_strict_mono) simp
  then show ?thesis by (simp add: huge_def)
qed

lemma huge_pos: "0 < huge dt"
  using huge_gt_1 [of dt] by simp

lemma np_round_eq_Finite:
  "np_round dt x = Finite y \<longleftrightarrow> y = nearest dt x \<and> - huge dt < nearest dt x \<and> nearest dt x < huge dt"
  using huge_pos [of dt] by (auto simp: np_round_def Let_def)

lemma np_round_eq_PosInf: "np_round dt x = PosInf \<longleftrightarrow> huge dt \<le> nearest dt x"
  by (simp add: np_round_def Let_def)

lemma np_round_eq_NegInf: "np_round dt x = NegInf \<longleftrightarrow> nearest dt x \<le> - huge dt"
  using huge_pos [of dt] by (auto simp: np_round_def Let_def)

lemma np_round_not_NaN [simp]: "np_round dt x \<noteq> NaN"
  by (simp add: np_round_def Let_def)

lemma np_round_cases:
  obtains (fin) "np_round dt x = Finite (nearest dt x)" "- huge dt < nearest dt x" "nearest dt x < huge dt"
  | (pos) "np_round dt x = PosInf" "huge dt \<le> nearest dt x"
  | (neg) "np_round dt x = NegInf" "nearest dt x \<le> - huge dt"
  using huge_pos [of dt] by (cases "np_round dt x") (auto simp: np_round_def Let_def split: if_splits)

lemma np_round_idem: "np_round dt x = Finite y \<Longrightarrow> np_round dt y = Finite y"
  by (simp add: np_round_eq_Finite nearest_idem)

lemma np_round_fix: "np_round dt x = Finite y \<Longrightarrow> nearest dt y = y"
  by (simp add: np_round_eq_Finite nearest_idem)

lemma np_round_0 [simp]: "np_round dt 0 = Finite 0"
  using huge_pos [of dt] by (simp add: np_round_eq_Finite)

lemma np_round_1 [simp]: "np_round dt 1 = Finite 1"
  using huge_gt_1 [of dt] by (simp add: np_round_eq_Finite)

lemma np_round_unit:
  assumes "0 \<le> x" "x \<le> 1"
  shows "\<exists>q. np_round dt x = Finite q \<and> 0 \<le> q \<and> q \<le> 1"
proof -
  from nearest_mono [OF assms(1), of dt] nearest_mono [OF assms(2), of dt]
  have "0 \<le> nearest dt x" "nearest dt x \<le> 1" by simp_all
  with huge_gt_1 [of dt] show ?thesis by (simp add: np_round_eq_Finite)
qed

lemma np_min2_Finite [simp]: "np_min2 (Finite x) (Finite y) = Finite (min x y)"
  by (simp add: min_def)

lemma np_max2_Finite [simp]: "np_max2 (Finite x) (Finite y) = Finite (max x y)"
  by (simp add: max_def)

lemma fl_sub_Finite [simp]: "fl_sub dt (Finite x) (Finite y) = np_round dt (x - y)"
  by (simp add: fl_sub_def)

lemma np_clip0_round:
  assumes "nearest dt d < huge dt"
  shows "np_clip0 (np_round dt d) = Finite (max (nearest dt d) 0)"
proof (cases rule: np_round_cases [of dt d])
  case fin
  then show ?thesis by (simp add: np_clip0_def)
next
  case pos
  with assms show ?thesis by simp
next
  case neg
  with huge_pos [of dt] show ?thesis by (simp add: np_clip0_def max_def)
qed

lemma np_clip0_nonneg:
  assumes "0 \<le> d"
  shows "np_clip0 (np_round dt d) = np_round dt d"
proof (cases rule: np_round_cases [of dt d])
  case fin
  with nearest_nonneg [OF assms, of dt] show ?thesis by (simp add: np_clip0_def max_def)
next
  case pos
  then show ?thesis by (simp add: np_clip0_def)
next
  case neg
  with nearest_nonneg [OF assms, of dt] huge_pos [of dt] show ?thesis by simp
qed

lemma fl_mul_round_Finite:
  assumes "fl_mul dt (np_round dt x) (np_round dt y) = Finite B"
  shows "np_round dt x = Finite (nearest dt x) \<and> np_round dt y = Finite (nearest dt y) \<and>
         np_round dt (nearest dt x * nearest dt y) = Finite B"
proof (cases rule: np_round_cases [of dt x])
  case fx: fin
  show ?thesis
  proof (cases rule: np_round_cases [of dt y])
    case fin
    with fx assms show ?thesis by simp
  next
    case pos
    with fx assms show ?thesis by (simp split: if_splits)
  next
    case neg
    with fx assms show ?thesis by (simp split: if_splits)
  qed
next
  case px: pos
  with assms show ?thesis
    by (cases rule: np_round_cases [of dt y]) (simp_all split: if_splits)
next
  case nx: neg
  with assms show ?thesis
    by (cases rule: np_round_cases [of dt y]) (simp_all split: if_splits)
qed

section \<open>The overlap of boxes in the arithmetic of the dtype\<close>

lemma area_ieee_fbox:
  "area_ieee dt (fbox_of (x1, y1, x2, y2)) = fl_mul dt (np_round dt (x2 - x1)) (np_round dt (y2 - y1))"
  by (simp add: area_ieee_def fbox_of_def)

lemma intersect_row_ieee_fbox:
  "intersect_row_ieee dt (fbox_of (ax1, ay1, ax2, ay2)) (fbox_of (bx1, by1, bx2, by2)) =
     fl_mul dt (np_clip0 (np_round dt (min ax2 bx2 - max ax1 bx1)))
               (np_clip0 (np_round dt (min ay2 by2 - max ay1 by1)))"
  by (simp add: intersect_row_ieee_def fbox_of_def Let_def)

lemma jaccard_numpy_ieee_rows:
  "jaccard_numpy_ieee dt box_a box_b = map (\<lambda>a. jaccard_row_ieee dt a box_b) box_a"
  by (induction box_a)
     (simp_all add: jaccard_numpy_ieee_def intersect_ieee_def jaccard_row_ieee_def
        union_row_ieee_def Let_def)

lemma inter_bound:
  assumes D: "np_round dt Dx = Finite wx" "np_round dt Dy = Finite wy"
    and A: "np_round dt (wx * wy) = Finite A"
    and le: "dx \<le> Dx" "dy \<le> Dy"
  shows "\<exists>i. fl_mul dt (np_clip0 (np_round dt dx)) (np_clip0 (np_round dt dy)) = Finite i \<and>
             0 \<le> i \<and> i \<le> max A 0 \<and> nearest dt i = i"
proof -
  let ?ix = "max (nearest dt dx) 0" and ?iy = "max (nearest dt dy) 0"
  from D have wx: "wx = nearest dt Dx" "nearest dt Dx < huge dt"
    and wy: "wy = nearest dt Dy" "nearest dt Dy < huge dt"
    by (simp_all add: np_round_eq_Finite)
  from A have A': "A = nearest dt (wx * wy)" "A < huge dt" by (simp_all add: np_round_eq_Finite)
  from nearest_mono [OF le(1), of dt] wx have lx: "nearest dt dx \<le> wx" "nearest dt dx < huge dt"
    by simp_all
  from nearest_mono [OF le(2), of dt] wy have ly: "nearest dt dy \<le> wy" "nearest dt dy < huge dt"
    by simp_all
  have cx: "np_clip0 (np_round dt dx) = Finite ?ix" using lx(2) by (rule np_clip0_round)
  have cy: "np_clip0 (np_round dt dy) = Finite ?iy" using ly(2) by (rule np_clip0_round)
  have nn: "0 \<le> ?ix * ?iy" by simp
  from nearest_nonneg [OF nn, of dt] have lo: "0 \<le> nearest dt (?ix * ?iy)" .
  have up: "nearest dt (?ix * ?iy) \<le> max A 0"
  proof (cases "0 < wx \<and> 0 < wy")
    case True
    with lx(1) ly(1) have "?ix \<le> wx" "?iy \<le> wy" by simp_all
    then have "?ix * ?iy \<le> wx * wy" by (intro mult_mono) simp_all
    from nearest_mono [OF this, of dt] A'(1) show ?thesis by simp
  next
    case False
    with lx(1) ly(1) have "?ix = 0 \<or> ?iy = 0" by (auto simp: max_def)
    then have z: "?ix * ?iy = 0" by auto
    show ?thesis by (subst z) simp
  qed
  with A'(2) huge_pos [of dt] have "nearest dt (?ix * ?iy) < huge dt" by (simp add: max_def split: if_splits)
  with lo huge_pos [of dt] have "np_round dt (?ix * ?iy) = Finite (nearest dt (?ix * ?iy))"
    by (simp add: np_round_eq_Finite)
  with cx cy lo up show ?thesis by (simp add: nearest_idem)
qed

lemma inter_le_b:
  assumes "area_ieee dt (fbox_of b) = Finite B"
  shows "\<exists>i. intersect_row_ieee dt (fbox_of a) (fbox_of b) = Finite i \<and>
             0 \<le> i \<and> i \<le> max B 0 \<and> nearest dt i = i"
proof -
  obtain ax1 ay1 ax2 ay2 where a: "a = (ax1, ay1, ax2, ay2)" by (cases a) auto
  obtain bx1 by1 bx2 by2 where b: "b = (bx1, by1, bx2, by2)" by (cases b) auto
  from assms have "fl_mul dt (np_round dt (bx2 - bx1)) (np_round dt (by2 - by1)) = Finite B"
    by (simp add: b area_ieee_fbox)
  from fl_mul_round_Finite [OF this] have
    D: "np_round dt (bx2 - bx1) = Finite (nearest dt (bx2 - bx1))"
       "np_round dt (by2 - by1) = Finite (nearest dt (by2 - by1))"
       "np_round dt (nearest dt (bx2 - bx1) * nearest dt (by2 - by1)) = Finite B"
    by simp_all
  have "min ax2 bx2 - max ax1 bx1 \<le> bx2 - bx1" "min ay2 by2 - max ay1 by1 \<le> by2 - by1"
    by simp_all
  from inter_bound [OF D this] show ?thesis by (simp add: a b intersect_row_ieee_fbox)
qed

lemma inter_le_a:
  assumes "area_ieee dt (fbox_of a) = Finite A"
  shows "\<exists>i. intersect_row_ieee dt (fbox_of a) (fbox_of b) = Finite i \<and>
             0 \<le> i \<and> i \<le> max A 0 \<and> nearest dt i = i"
proof -
  obtain ax1 ay1 ax2 ay2 where a: "a = (ax1, ay1, ax2, ay2)" by (cases a) auto
  obtain bx1 by1 bx2 by2 where b: "b = (bx1, by1, bx2, by2)" by (cases b) auto
  from assms have "fl_mul dt (np_round dt (ax2 - ax1)) (np_round dt (ay2 - ay1)) = Finite A"
    by (simp add: a area_ieee_fbox)
  from fl_mul_round_Finite [OF this] have
    D: "np_round dt (ax2 - ax1) = Finite (nearest dt (ax2 - ax1))"
       "np_round dt (ay2 - ay1) = Finite (nearest dt (ay2 - ay1))"
       "np_round dt (nearest dt (ax2 - ax1) * nearest dt (ay2 - ay1)) = Finite A"
    by simp_all
  have "min ax2 bx2 - max ax1 bx1 \<le> ax2 - ax1" "min ay2 by2 - max ay1 by1 \<le> ay2 - ay1"
    by simp_all
  from inter_bound [OF D this] show ?thesis by (simp add: a b intersect_row_ieee_fbox)
qed

lemma area_ieee_cases:
  obtains (fin) A where "area_ieee dt (fbox_of a) = Finite A" "np_round dt A = Finite A"
  | (pos) "area_ieee dt (fbox_of a) = PosInf"
  | (neg) "area_ieee dt (fbox_of a) = NegInf"
  | (nan) "area_ieee dt (fbox_of a) = NaN"
proof (cases "area_ieee dt (fbox_of a)")
  case (Finite A)
  obtain x1 y1 x2 y2 where a: "a = (x1, y1, x2, y2)" by (cases a) auto
  from Finite have "fl_mul dt (np_round dt (x2 - x1)) (np_round dt (y2 - y1)) = Finite A"
    by (simp add: a area_ieee_fbox)
  from fl_mul_round_Finite [OF this, THEN conjunct2, THEN conjunct2]
  have "np_round dt A = Finite A" by (rule np_round_idem)
  with Finite show ?thesis by (rule fin)
qed (simp_all add: pos neg nan)

lemma area_ieee_well_formed:
  assumes "well_formed a"
  shows "(\<exists>A. area_ieee dt (fbox_of a) = Finite A \<and> 0 \<le> A) \<or>
         area_ieee dt (fbox_of a) = PosInf \<or> area_ieee dt (fbox_of a) = NaN"
proof -
  obtain x1 y1 x2 y2 where a: "a = (x1, y1, x2, y2)" by (cases a) auto
  from assms have d: "0 \<le> x2 - x1" "0 \<le> y2 - y1" by (simp_all add: a well_formed_def)
  note nx = nearest_nonneg [OF d(1), of dt] and ny = nearest_nonneg [OF d(2), of dt]
  show ?thesis
  proof (cases rule: np_round_cases [of dt "x2 - x1"])
    case fx: fin
    show ?thesis
    proof (cases rule: np_round_cases [of dt "y2 - y1"])
      case fy: fin
      from nx ny have p: "0 \<le> nearest dt (x2 - x1) * nearest dt (y2 - y1)" by simp
      from nearest_nonneg [OF p, of dt] huge_pos [of dt] show ?thesis
        by (cases rule: np_round_cases [of dt "nearest dt (x2 - x1) * nearest dt (y2 - y1)"])
           (simp_all add: a area_ieee_fbox fx fy)
    next
      case pos
      with fx nx show ?thesis by (simp add: a area_ieee_fbox)
    next
      case neg
      with ny huge_pos [of dt] show ?thesis by simp
    qed
  next
    case px: pos
    show ?thesis
    proof (cases rule: np_round_cases [of dt "y2 - y1"])
      case fin
      with px ny show ?thesis by (simp add: a area_ieee_fbox)
    next
      case pos
      with px show ?thesis by (simp add: a area_ieee_fbox)
    next
      case neg
      with ny huge_pos [of dt] show ?thesis by simp
    qed
  next
    case neg
    with nx huge_pos [of dt] show ?thesis by simp
  qed
qed

lemma union_overflow:
  assumes i: "intersect_row_ieee dt a b = Finite i"
    and s: "fl_add dt (area_ieee dt a) (area_ieee dt b) = PosInf"
  shows "union_row_ieee dt a b = PosInf \<and> jaccard_row_ieee dt a b = Finite 0"
  by (simp add: union_row_ieee_def jaccard_row_ieee_def i s fl_sub_def)

lemma jaccard_row_finite_areas:
  assumes A: "area_ieee dt (fbox_of a) = Finite A" "0 \<le> A"
    and B: "area_ieee dt (fbox_of b) = Finite B" "0 < B"
  shows "np_less (Finite 0) (union_row_ieee dt (fbox_of a) (fbox_of b)) \<and>
         (\<exists>q. jaccard_row_ieee dt (fbox_of a) (fbox_of b) = Finite q \<and> 0 \<le> q \<and> q \<le> 1)"
proof -
  from inter_le_a [OF A(1), of b] inter_le_b [OF B(1), of a] A(2) B(2)
  obtain i where i: "intersect_row_ieee dt (fbox_of a) (fbox_of b) = Finite i"
    "0 \<le> i" "i \<le> A" "i \<le> B" "nearest dt i = i"
    by (auto simp: max_def split: if_splits)
  have fixB: "nearest dt B = B"
    by (rule area_ieee_cases [of dt b]) (use B(1) in \<open>auto dest: np_round_fix\<close>)
  from A(2) B(2) have nn: "0 \<le> A + B" by simp
  show ?thesis
  proof (cases rule: np_round_cases [of dt "A + B"])
    case pos
    then have "fl_add dt (area_ieee dt (fbox_of a)) (area_ieee dt (fbox_of b)) = PosInf"
      by (simp add: A B)
    from union_overflow [OF i(1) this] show ?thesis by simp
  next
    case neg
    with nearest_nonneg [OF nn, of dt] huge_pos [of dt] show ?thesis by simp
  next
    case fin
    define s where "s = nearest dt (A + B)"
    have s: "fl_add dt (area_ieee dt (fbox_of a)) (area_ieee dt (fbox_of b)) = Finite s"
      "s < huge dt" "nearest dt s = s"
      using fin by (simp_all add: A B s_def nearest_idem)
    from A(2) have "B \<le> A + B" by simp
    from nearest_mono [OF this, of dt] have sB: "B \<le> s" by (simp add: s_def fixB)
    from i(3,4) have "2 * i \<le> A + B" by simp
    from nearest_mono [OF this, of dt] nearest_double [OF i(5)] have s2: "2 * i \<le> s"
      by (simp add: s_def)
    from s2 i(2) sB B(2) have lt: "i < s" by linarith
    from nearest_diff_pos [OF i(5) s(3) lt] tiny_pos [of dt] have upos: "0 < nearest dt (s - i)"
      by simp
    from i(2) have "s - i \<le> s" by simp
    from nearest_mono [OF this, of dt] s(2,3) have uhi: "nearest dt (s - i) < huge dt" by simp
    from s2 have "i \<le> s - i" by simp
    from nearest_mono [OF this, of dt] i(5) have ui: "i \<le> nearest dt (s - i)" by simp
    from upos uhi huge_pos [of dt] have u: "np_round dt (s - i) = Finite (nearest dt (s - i))"
      by (simp add: np_round_eq_Finite)
    have un: "union_row_ieee dt (fbox_of a) (fbox_of b) = Finite (nearest dt (s - i))"
      by (simp add: union_row_ieee_def s(1) i(1) u)
    from i(2) ui upos have "0 \<le> i / nearest dt (s - i)" "i / nearest dt (s - i) \<le> 1"
      by simp_all
    from np_round_unit [OF this, of dt] upos un i(1) show ?thesis
      by (simp add: jaccard_row_ieee_def)
  qed
qed

lemma jaccard_row_positive:
  assumes wf: "well_formed a"
    and nn: "area_ieee dt (fbox_of a) \<noteq> NaN"
    and pos: "np_less (Finite 0) (area_ieee dt (fbox_of b))"
    and fin: "is_finite (area_ieee dt (fbox_of a)) \<or> is_finite (area_ieee dt (fbox_of b))"
  shows "np_less (Finite 0) (union_row_ieee dt (fbox_of a) (fbox_of b)) \<and>
         (\<exists>q. jaccard_row_ieee dt (fbox_of a) (fbox_of b) = Finite q \<and> 0 \<le> q \<and> q \<le> 1)"
proof -
  from area_ieee_well_formed [OF wf, of dt] nn
  consider (fa) A where "area_ieee dt (fbox_of a) = Finite A" "0 \<le> A"
    | (ia) "area_ieee dt (fbox_of a) = PosInf" by blast
  then show ?thesis
  proof cases
    case fa
    show ?thesis
    proof (cases "area_ieee dt (fbox_of b)")
      case (Finite B)
      with pos have "0 < B" by simp
      from jaccard_row_finite_areas [OF fa Finite this] show ?thesis .
    next
      case PosInf
      from inter_le_a [OF fa(1), of b] obtain i
        where i: "intersect_row_ieee dt (fbox_of a) (fbox_of b) = Finite i" by blast
      have "fl_add dt (area_ieee dt (fbox_of a)) (area_ieee dt (fbox_of b)) = PosInf"
        by (simp add: fa PosInf)
      from union_overflow [OF i this] show ?thesis by simp
    next
      case NegInf
      with pos show ?thesis by simp
    next
      case NaN
      with pos show ?thesis by simp
    qed
  next
    case ia
    with fin obtain B where B: "area_ieee dt (fbox_of b) = Finite B"
      by (cases "area_ieee dt (fbox_of b)") simp_all
    from inter_le_b [OF B, of a] obtain i
      where i: "intersect_row_ieee dt (fbox_of a) (fbox_of b) = Finite i" by blast
    have "fl_add dt (area_ieee dt (fbox_of a)) (area_ieee dt (fbox_of b)) = PosInf"
      by (simp add: ia B)
    from union_overflow [OF i this] show ?thesis by simp
  qed
qed

lemma jaccard_row_zero:
  assumes "area_ieee dt (fbox_of b) = Finite 0"
  shows "intersect_row_ieee dt (fbox_of a) (fbox_of b) = Finite 0 \<and>
         union_row_ieee dt (fbox_of a) (fbox_of b) = area_ieee dt (fbox_of a) \<and>
         jaccard_row_ieee dt (fbox_of a) (fbox_of b) =
           (if area_ieee dt (fbox_of a) = Finite 0 \<or> area_ieee dt (fbox_of a) = NaN then NaN
            else Finite 0)"
proof -
  from inter_le_b [OF assms, of a]
  have i: "intersect_row_ieee dt (fbox_of a) (fbox_of b) = Finite 0" by auto
  show ?thesis
    by (cases rule: area_ieee_cases [of dt a])
       (simp_all add: i assms union_row_ieee_def jaccard_row_ieee_def fl_sub_def)
qed

lemma intersect_self:
  assumes "well_formed b"
  shows "intersect_row_ieee dt (fbox_of b) (fbox_of b) = area_ieee dt (fbox_of b)"
proof -
  obtain x1 y1 x2 y2 where b: "b = (x1, y1, x2, y2)" by (cases b) auto
  from assms have "0 \<le> x2 - x1" "0 \<le> y2 - y1" by (simp_all add: b well_formed_def)
  then show ?thesis
    by (simp add: b intersect_row_ieee_fbox area_ieee_fbox np_clip0_nonneg)
qed

lemma jaccard_row_self:
  assumes "well_formed b"
  shows "jaccard_row_ieee dt (fbox_of b) (fbox_of b) =
           (case area_ieee dt (fbox_of b) of
              Finite A \<Rightarrow> if A = 0 then NaN
                          else if np_round dt (A + A) = PosInf then Finite 0 else Finite 1
            | _ \<Rightarrow> NaN)"
proof (cases rule: area_ieee_cases [of dt b])
  case (fin A)
  from area_ieee_well_formed [OF assms, of dt] fin(1) have A: "0 \<le> A" by simp
  from np_round_fix [OF fin(2)] have fx: "nearest dt A = A" .
  note dbl = nearest_double [OF fx]
  from A have nn: "0 \<le> A + A" by simp
  show ?thesis
  proof (cases rule: np_round_cases [of dt "A + A"])
    case fin2: fin
    then show ?thesis
      by (simp add: jaccard_row_ieee_def union_row_ieee_def intersect_self [OF assms] fin dbl)
  next
    case pos
    with dbl huge_pos [of dt] have "A \<noteq> 0" by auto
    with pos show ?thesis
      by (simp add: jaccard_row_ieee_def union_row_ieee_def intersect_self [OF assms] fin
          fl_sub_def)
  next
    case neg
    with nearest_nonneg [OF nn, of dt] huge_pos [of dt] show ?thesis by simp
  qed
qed (simp_all add: jaccard_row_ieee_def union_row_ieee_def intersect_self [OF assms] fl_sub_def)


text \<open>Values of the 32-bit format, by evaluation.\<close>

lemmas round_eval = np_round_def huge_def nearest_def ulp_def exponent_def emin_def
  scan_up.simps scan_down.simps round_half_even_def Let_def

lemmas jaccard_eval = jaccard_numpy_ieee_rows jaccard_row_ieee_def union_row_ieee_def
  intersect_row_ieee_fbox area_ieee_fbox np_clip0_def fl_sub_def

lemma float32_small:
  "np_round Float32 2 = Finite 2" "np_round Float32 3 = Finite 3"
  "np_round Float32 4 = Finite 4" "np_round Float32 5 = Finite 5"
  "np_round Float32 6 = Finite 6" "np_round Float32 7 = Finite 7"
  "np_round Float32 8 = Finite 8" "np_round Float32 12 = Finite 12"
  "np_round Float32 (- 2) = Finite (- 2)" "np_round Float32 (- 3) = Finite (- 3)"
  "np_round Float32 (1 / 7) = Finite (9586981 / 67108864)"
  by (simp_all add: round_eval)

lemma float32_underflow:
  "np_round Float32 (1 / 2 ^ 80) = Finite (1 / 2 ^ 80)"
  "np_round Float32 (1 / 2 ^ 160) = Finite 0"
  by (simp_all add: round_eval)

lemma float32_overflow:
  "np_round Float32 (2 ^ 63) = Finite (2 ^ 63)"
  "np_round Float32 (2 ^ 64) = Finite (2 ^ 64)"
  "np_round Float32 (2 ^ 127) = Finite (2 ^ 127)"
  "np_round Float32 (2 ^ 128) = PosInf"
  by (simp_all add: round_eval)

lemma underflow_self:
  "jaccard_numpy_ieee Float32 [fbox_of (0, 0, 1 / 2 ^ 80, 1 / 2 ^ 80)]
     (fbox_of (0, 0, 1 / 2 ^ 80, 1 / 2 ^ 80)) = [NaN]"
  using float32_underflow by (simp add: jaccard_eval)

lemma overflow_self:
  "jaccard_numpy_ieee Float32 [fbox_of (0, 0, 2 ^ 64, 2 ^ 64)] (fbox_of (0, 0, 2 ^ 64, 2 ^ 64))
     = [NaN]"
  using float32_overflow by (simp add: jaccard_eval)

lemma overflow_double_self:
  "jaccard_numpy_ieee Float32 [fbox_of (0, 0, 2 ^ 64, 2 ^ 63)] (fbox_of (0, 0, 2 ^ 64, 2 ^ 63))
     = [Finite 0]"
  using float32_overflow by (simp add: jaccard_eval)

lemma underflow_reference:
  "jaccard_numpy_ieee Float32 [fbox_of (0, 0, 0, 0)] (fbox_of (0, 0, 1 / 2 ^ 80, 1 / 2 ^ 80))
     = [NaN]"
  using float32_underflow by (simp add: jaccard_eval)

lemma nan_area:
  "jaccard_numpy_ieee Float32 [fbox_of (- (2 ^ 127), 0, 2 ^ 127, 0)] (fbox_of (0, 0, 1, 1))
     = [NaN]"
  using float32_overflow by (simp add: jaccard_eval)

lemma example_area: "area_ieee Float32 (fbox_of (0, 1, 2, 4)) = Finite 6"
  using float32_small by (simp add: area_ieee_fbox)

lemma example_overlaps:
  "area_ieee Float32 (fbox_of (0, 0, 2, 2)) = Finite 4 \<and>
   area_ieee Float32 (fbox_of (5, 5, 6, 6)) = Finite 1 \<and>
   area_ieee Float32 (fbox_of (1, 1, 3, 3)) = Finite 4 \<and>
   jaccard_numpy_ieee Float32 [fbox_of (0, 0, 2, 2), fbox_of (5, 5, 6, 6)] (fbox_of (1, 1, 3, 3))
     = [Finite (9586981 / 67108864), Finite 0]"
  using float32_small by (simp add: jaccard_eval)

lemma example_zero_area:
  "area_ieee Float32 (fbox_of (0, 0, 0, 0)) = Finite 0 \<and>
   area_ieee Float32 (fbox_of (0, 0, 1, 1)) = Finite 1 \<and>
   area_ieee Float32 (fbox_of (2, 2, 2, 5)) = Finite 0 \<and>
   jaccard_numpy_ieee Float32 [fbox_of (0, 0, 1, 1), fbox_of (2, 2, 2, 5)] (fbox_of (0, 0, 0, 0))
     = [Finite 0, NaN]"
  using float32_small by (simp add: jaccard_eval)

subsection \<open>The overlap of a box with itself\<close>

text \<open>
  C7 (as amended). For a well-formed box of finite coordinates, in particular for a box
  of strictly positive width and height, the intersection of the box with itself is its
  area as computed in the dtype, and the overlap of the box with itself is determined by
  that area: NaN when the area is 0, an infinity or NaN; 0 when the area is finite and
  not 0 and its double overflows; 1 otherwise. So \<open>jaccard_numpy\<close> returns exactly 1 if
  and only if the computed area is finite and not 0 and its double does not overflow.
\<close>

theorem jaccard_self:
  assumes "x1 \<le> x2" and "y1 \<le> y2"
  shows "intersect_row_ieee dt (fbox_of (x1, y1, x2, y2)) (fbox_of (x1, y1, x2, y2))
           = area_ieee dt (fbox_of (x1, y1, x2, y2)) \<and>
         jaccard_numpy_ieee dt [fbox_of (x1, y1, x2, y2)] (fbox_of (x1, y1, x2, y2))
           = [case area_ieee dt (fbox_of (x1, y1, x2, y2)) of
                Finite A \<Rightarrow> if A = 0 then NaN
                            else if np_round dt (A + A) = PosInf then Finite 0 else Finite 1
              | _ \<Rightarrow> NaN] \<and>
         (jaccard_numpy_ieee dt [fbox_of (x1, y1, x2, y2)] (fbox_of (x1, y1, x2, y2)) = [Finite 1]
            \<longleftrightarrow> (\<exists>A. area_ieee dt (fbox_of (x1, y1, x2, y2)) = Finite A \<and> A \<noteq> 0 \<and>
                     np_round dt (A + A) \<noteq> PosInf))"
proof -
  from assms have wf: "well_formed (x1, y1, x2, y2)" by (simp add: well_formed_def)
  note row = jaccard_row_self [OF wf, of dt]
  have eq: "jaccard_numpy_ieee dt [fbox_of (x1, y1, x2, y2)] (fbox_of (x1, y1, x2, y2))
           = [case area_ieee dt (fbox_of (x1, y1, x2, y2)) of
                Finite A \<Rightarrow> if A = 0 then NaN
                            else if np_round dt (A + A) = PosInf then Finite 0 else Finite 1
              | _ \<Rightarrow> NaN]"
    by (simp only: jaccard_numpy_ieee_rows list.map row)
  have iff: "jaccard_numpy_ieee dt [fbox_of (x1, y1, x2, y2)] (fbox_of (x1, y1, x2, y2)) = [Finite 1]
            \<longleftrightarrow> (\<exists>A. area_ieee dt (fbox_of (x1, y1, x2, y2)) = Finite A \<and> A \<noteq> 0 \<and>
                     np_round dt (A + A) \<noteq> PosInf)"
    unfolding eq by (cases "area_ieee dt (fbox_of (x1, y1, x2, y2))") simp_all
  from intersect_self [OF wf, of dt] eq iff show ?thesis by (intro conjI)
qed

theorem jaccard_self_witness:
  "(0::real) \<le> 2 \<and> (1::real) \<le> 4 \<and> float_box Float32 (0, 1, 2, 4) \<and>
   area_ieee Float32 (fbox_of (0, 1, 2, 4)) = Finite 6 \<and>
   np_round Float32 (6 + 6) = Finite 12 \<and>
   intersect_row_ieee Float32 (fbox_of (0, 1, 2, 4)) (fbox_of (0, 1, 2, 4)) = Finite 6 \<and>
   jaccard_numpy_ieee Float32 [fbox_of (0, 1, 2, 4)] (fbox_of (0, 1, 2, 4)) = [Finite 1]"
  using jaccard_self [of 0 2 1 4 Float32] example_area float32_small
  by (simp add: float_box_def representable_def)

theorem jaccard_self_counterexample:
  "(0::real) < 1 / 2 ^ 80 \<and> float_box Float32 (0, 0, 1 / 2 ^ 80, 1 / 2 ^ 80) \<and>
   jaccard_numpy_ieee Float32 [fbox_of (0, 0, 1 / 2 ^ 80, 1 / 2 ^ 80)]
     (fbox_of (0, 0, 1 / 2 ^ 80, 1 / 2 ^ 80)) = [NaN] \<and>
   (0::real) < 2 ^ 64 \<and> float_box Float32 (0, 0, 2 ^ 64, 2 ^ 64) \<and>
   jaccard_numpy_ieee Float32 [fbox_of (0, 0, 2 ^ 64, 2 ^ 64)] (fbox_of (0, 0, 2 ^ 64, 2 ^ 64))
     = [NaN] \<and>
   (0::real) < 2 ^ 63 \<and> float_box Float32 (0, 0, 2 ^ 64, 2 ^ 63) \<and>
   jaccard_numpy_ieee Float32 [fbox_of (0, 0, 2 ^ 64, 2 ^ 63)] (fbox_of (0, 0, 2 ^ 64, 2 ^ 63))
     = [Finite 0]"
  using underflow_self overflow_self overflow_double_self float32_underflow float32_overflow
  by (simp add: float_box_def representable_def)

subsection \<open>The union denominator\<close>

text \<open>
  C5 (as amended). For well-formed boxes and a reference box, with the areas as
  \<open>jaccard_numpy\<close> computes them in the dtype of the boxes: if the area of the reference
  box is strictly positive (it may be the infinity), no area of a box is NaN, and the
  area of a box and the area of the reference box are not both infinite, then every
  union denominator is strictly positive and every overlap returned is a finite value
  between 0 and 1. If the area of the reference box is 0, because the box has no area
  or because its area underflows, the intersection is 0 and the union is the area of the
  box itself: the overlap returned is NaN for a box whose area is 0 or NaN (the
  unguarded division, returned as a value, no error) and the finite value 0 for every
  other box.
\<close>

theorem jaccard_union_positive:
  "((\<forall>a \<in> set box_a. well_formed a \<and> area_ieee dt (fbox_of a) \<noteq> NaN \<and>
        (is_finite (area_ieee dt (fbox_of a)) \<or> is_finite (area_ieee dt (fbox_of box_b)))) \<and>
    np_less (Finite 0) (area_ieee dt (fbox_of box_b)) \<longrightarrow>
      (\<forall>a \<in> set box_a. np_less (Finite 0) (union_row_ieee dt (fbox_of a) (fbox_of box_b))) \<and>
      (\<forall>q \<in> set (jaccard_numpy_ieee dt (map fbox_of box_a) (fbox_of box_b)).
          \<exists>r. q = Finite r \<and> 0 \<le> r \<and> r \<le> 1)) \<and>
   (area_ieee dt (fbox_of box_b) = Finite 0 \<longrightarrow>
      (\<forall>a \<in> set box_a. union_row_ieee dt (fbox_of a) (fbox_of box_b) = area_ieee dt (fbox_of a)) \<and>
      jaccard_numpy_ieee dt (map fbox_of box_a) (fbox_of box_b) =
        map (\<lambda>a. if area_ieee dt (fbox_of a) = Finite 0 \<or> area_ieee dt (fbox_of a) = NaN
                  then NaN else Finite 0) box_a)"
proof (intro conjI impI)
  assume h: "(\<forall>a \<in> set box_a. well_formed a \<and> area_ieee dt (fbox_of a) \<noteq> NaN \<and>
        (is_finite (area_ieee dt (fbox_of a)) \<or> is_finite (area_ieee dt (fbox_of box_b)))) \<and>
    np_less (Finite 0) (area_ieee dt (fbox_of box_b))"
  have row: "np_less (Finite 0) (union_row_ieee dt (fbox_of a) (fbox_of box_b)) \<and>
         (\<exists>q. jaccard_row_ieee dt (fbox_of a) (fbox_of box_b) = Finite q \<and> 0 \<le> q \<and> q \<le> 1)"
    if "a \<in> set box_a" for a
    using h that by (intro jaccard_row_positive) simp_all
  from row show "\<forall>a \<in> set box_a. np_less (Finite 0) (union_row_ieee dt (fbox_of a) (fbox_of box_b))"
    by simp
  from row show "\<forall>q \<in> set (jaccard_numpy_ieee dt (map fbox_of box_a) (fbox_of box_b)).
          \<exists>r. q = Finite r \<and> 0 \<le> r \<and> r \<le> 1"
    by (auto simp: jaccard_numpy_ieee_rows)
next
  assume z: "area_ieee dt (fbox_of box_b) = Finite 0"
  from jaccard_row_zero [OF z]
  show "\<forall>a \<in> set box_a. union_row_ieee dt (fbox_of a) (fbox_of box_b) = area_ieee dt (fbox_of a)"
    by simp
  from jaccard_row_zero [OF z]
  show "jaccard_numpy_ieee dt (map fbox_of box_a) (fbox_of box_b) =
        map (\<lambda>a. if area_ieee dt (fbox_of a) = Finite 0 \<or> area_ieee dt (fbox_of a) = NaN
                  then NaN else Finite 0) box_a"
    by (simp add: jaccard_numpy_ieee_rows comp_def)
qed

theorem jaccard_union_positive_witness:
  "well_formed (0, 0, 2, 2) \<and> well_formed (5, 5, 6, 6) \<and>
   area_ieee Float32 (fbox_of (0, 0, 2, 2)) = Finite 4 \<and>
   area_ieee Float32 (fbox_of (5, 5, 6, 6)) = Finite 1 \<and>
   area_ieee Float32 (fbox_of (1, 1, 3, 3)) = Finite 4 \<and>
   np_less (Finite 0) (union_row_ieee Float32 (fbox_of (0, 0, 2, 2)) (fbox_of (1, 1, 3, 3))) \<and>
   np_less (Finite 0) (union_row_ieee Float32 (fbox_of (5, 5, 6, 6)) (fbox_of (1, 1, 3, 3))) \<and>
   jaccard_numpy_ieee Float32 [fbox_of (0, 0, 2, 2), fbox_of (5, 5, 6, 6)] (fbox_of (1, 1, 3, 3))
     = [Finite (9586981 / 67108864), Finite 0] \<and>
   area_ieee Float32 (fbox_of (0, 0, 0, 0)) = Finite 0 \<and>
   union_row_ieee Float32 (fbox_of (0, 0, 1, 1)) (fbox_of (0, 0, 0, 0)) = Finite 1 \<and>
   union_row_ieee Float32 (fbox_of (2, 2, 2, 5)) (fbox_of (0, 0, 0, 0)) = Finite 0 \<and>
   jaccard_numpy_ieee Float32 [fbox_of (0, 0, 1, 1), fbox_of (2, 2, 2, 5)] (fbox_of (0, 0, 0, 0))
     = [Finite 0, NaN]"
  using jaccard_union_positive [of "[(0, 0, 2, 2), (5, 5, 6, 6)]" Float32 "(1, 1, 3, 3)"]
    jaccard_union_positive [of "[(0, 0, 1, 1), (2, 2, 2, 5)]" Float32 "(0, 0, 0, 0)"]
    example_overlaps example_zero_area
  by (simp add: well_formed_def)

theorem jaccard_union_counterexample:
  "well_formed (0, 0, 0, 0) \<and> float_box Float32 (0, 0, 1 / 2 ^ 80, 1 / 2 ^ 80) \<and>
   0 < area (0, 0, 1 / 2 ^ 80, 1 / 2 ^ 80) \<and>
   jaccard_numpy_ieee Float32 [fbox_of (0, 0, 0, 0)] (fbox_of (0, 0, 1 / 2 ^ 80, 1 / 2 ^ 80)) = [NaN] \<and>
   well_formed (0, 0, 2 ^ 64, 2 ^ 64) \<and> float_box Float32 (0, 0, 2 ^ 64, 2 ^ 64) \<and>
   0 < area (0, 0, 2 ^ 64, 2 ^ 64) \<and>
   jaccard_numpy_ieee Float32 [fbox_of (0, 0, 2 ^ 64, 2 ^ 64)] (fbox_of (0, 0, 2 ^ 64, 2 ^ 64)) = [NaN] \<and>
   well_formed (- (2 ^ 127), 0, 2 ^ 127, 0) \<and> float_box Float32 (- (2 ^ 127), 0, 2 ^ 127, 0) \<and>
   0 < area (0, 0, 1, 1) \<and>
   jaccard_numpy_ieee Float32 [fbox_of (- (2 ^ 127), 0, 2 ^ 127, 0)] (fbox_of (0, 0, 1, 1)) = [NaN] \<and>
   well_formed (0, 0, 1, 1) \<and> area (0, 0, 0, 0) = 0 \<and>
   jaccard_numpy_ieee Float32 [fbox_of (0, 0, 1, 1)] (fbox_of (0, 0, 0, 0)) = [Finite 0]"
  using underflow_reference overflow_self nan_area float32_underflow float32_overflow
  by (simp add: float_box_def representable_def well_formed_def area_def jaccard_eval
      nearest_minus np_round_eq_Finite)

section \<open>Coordinate transforms\<close>

lemma unscale_scale:
  "fx \<noteq> 0 \<Longrightarrow> fy \<noteq> 0 \<Longrightarrow> unscale_box fx fy (scale_box fx fy b) = b"
  by (cases b) (simp add: unscale_box_def scale_box_def)

lemma scale_unscale:
  "fx \<noteq> 0 \<Longrightarrow> fy \<noteq> 0 \<Longrightarrow> scale_box fx fy (unscale_box fx fy b) = b"
  by (cases b) (simp add: unscale_box_def scale_box_def)

text \<open>
  C6. For an image of positive height and width, \<open>ToAbsoluteCoords\<close> followed by
  \<open>ToPercentCoords\<close> returns the sample it started from, and so does
  \<open>ToPercentCoords\<close> followed by \<open>ToAbsoluteCoords\<close> (exactly, over the reals).
\<close>

theorem coords_round_trip:
  "shape img = [h, w, c] \<Longrightarrow> 0 < h \<Longrightarrow> 0 < w \<Longrightarrow>
     (\<exists>s. ToAbsoluteCoords (img, masks, boxes, lbls) = Inr s \<and>
          ToPercentCoords s = Returned (img, masks, boxes, lbls)) \<and>
     (\<exists>s. ToPercentCoords (img, masks, boxes, lbls) = Returned s \<and>
          ToAbsoluteCoords s = Inr (img, masks, boxes, lbls))"
  by (simp add: ToAbsoluteCoords_def ToPercentCoords_def comp_def unscale_scale scale_unscale)

theorem coords_round_trip_witness:
  "shape (np_zeros [300, 400, 3]) = [300, 400, 3] \<and>
   ToAbsoluteCoords (np_zeros [300, 400, 3], np_zeros [1, 300, 400], [(1/8, 1/6, 3/8, 1/2)],
       \<lparr>labels = [1], num_crowds = 0\<rparr>)
     = Inr (np_zeros [300, 400, 3], np_zeros [1, 300, 400], [(50, 50, 150, 150)],
       \<lparr>labels = [1], num_crowds = 0\<rparr>) \<and>
   ToPercentCoords (np_zeros [300, 400, 3], np_zeros [1, 300, 400], [(50, 50, 150, 150)],
       \<lparr>labels = [1], num_crowds = 0\<rparr>)
     = Returned (np_zeros [300, 400, 3], np_zeros [1, 300, 400], [(1/8, 1/6, 3/8, 1/2)],
       \<lparr>labels = [1], num_crowds = 0\<rparr>)"
  using coords_round_trip [of "np_zeros [300, 400, 3]" 300 400 3 "np_zeros [1, 300, 400]"
      "[(1/8, 1/6, 3/8, 1/2)]" "\<lparr>labels = [1], num_crowds = 0\<rparr>"]
  by (auto simp: np_zeros_def ToAbsoluteCoords_def scale_box_def)

section \<open>RandomMirror\<close>

lemma shape_flip_axis [simp]: "shape (flip_axis k a) = shape a"
  by (simp add: flip_axis_def)

lemma mirror_ieee_twice:
  assumes "wf_array img" "wf_array masks" "3 \<le> length (shape masks)"
  shows "mirror_ieee dt w (img, masks, boxes, lbls)
           = Inr (flip_axis 1 img, flip_axis 2 masks, map (mirror_box_ieee dt w) boxes, lbls) \<and>
         mirror_ieee dt w (flip_axis 1 img, flip_axis 2 masks, map (mirror_box_ieee dt w) boxes, lbls)
           = Inr (img, masks, map (mirror_box_ieee dt w) (map (mirror_box_ieee dt w) boxes), lbls)"
  using assms by (simp add: mirror_ieee_def flip_axis_twice)

lemma RandomMirror_ieee_twice:
  assumes "shape img = [h, w, c]" "shape masks = [n, h, w]" "wf_array img" "wf_array masks"
    and "randint01 k1 = 1" "randint01 k2 = 1"
  shows "RandomMirror_ieee dt (img, masks, boxes, lbls) (k1 # k2 # t)
           = Some (Inr ((flip_axis 1 img, flip_axis 2 masks,
                         map (mirror_box_ieee dt w) boxes, lbls), k2 # t)) \<and>
         RandomMirror_ieee dt (flip_axis 1 img, flip_axis 2 masks,
             map (mirror_box_ieee dt w) boxes, lbls) (k2 # t)
           = Some (Inr ((img, masks,
                         map (mirror_box_ieee dt w) (map (mirror_box_ieee dt w) boxes), lbls), t))"
  using assms mirror_ieee_twice [of img masks dt w boxes lbls]
  by (simp add: RandomMirror_ieee_def)

lemma mirror_box_ieee_twice:
  "mirror_box_ieee dt w (mirror_box_ieee dt w (x1, y1, x2, y2))
     = (fl_sub dt (np_round dt (real w)) (fl_sub dt (np_round dt (real w)) x1), y1,
        fl_sub dt (np_round dt (real w)) (fl_sub dt (np_round dt (real w)) x2), y2)"
  by (simp add: mirror_box_ieee_def)

lemma mirror_coordinate_exact:
  assumes "representable dt (real w)" "representable dt x" "representable dt (real w - x)"
  shows "fl_sub dt (np_round dt (real w)) (fl_sub dt (np_round dt (real w)) (Finite x)) = Finite x"
  using assms by (simp add: representable_def)

text \<open>
  C8 (as amended). For an image of shape \<open>[h, w, c]\<close>, masks of shape \<open>[n, h, w]\<close> and
  boxes of finite coordinates, two runs of \<open>RandomMirror\<close> that both take the mirroring
  branch return the image, the masks and the labels they started from, and boxes with
  the y-coordinates they started from. An x-coordinate \<open>x\<close> comes back as
  \<open>w - (w - x)\<close>, both subtractions being those of the dtype of the boxes: it is \<open>x\<close>
  where \<open>w\<close>, \<open>x\<close> and the difference \<open>w - x\<close> are values of the dtype, so that the
  first reflection does not round.
\<close>

theorem mirror_involution:
  assumes "shape img = [h, w, c]" and "shape masks = [n, h, w]"
    and "wf_array img" and "wf_array masks"
    and "randint01 k1 = 1" and "randint01 k2 = 1"
  shows "RandomMirror_ieee dt (img, masks, map fbox_of boxes, lbls) (k1 # k2 # t)
           = Some (Inr ((flip_axis 1 img, flip_axis 2 masks,
                         map (mirror_box_ieee dt w) (map fbox_of boxes), lbls), k2 # t)) \<and>
         RandomMirror_ieee dt (flip_axis 1 img, flip_axis 2 masks,
             map (mirror_box_ieee dt w) (map fbox_of boxes), lbls) (k2 # t)
           = Some (Inr ((img, masks,
                         map (mirror_box_ieee dt w) (map (mirror_box_ieee dt w) (map fbox_of boxes)),
                         lbls), t)) \<and>
         map (mirror_box_ieee dt w) (map (mirror_box_ieee dt w) (map fbox_of boxes))
           = map (\<lambda>(x1, y1, x2, y2).
                    (fl_sub dt (np_round dt (real w)) (fl_sub dt (np_round dt (real w)) (Finite x1)),
                     Finite y1,
                     fl_sub dt (np_round dt (real w)) (fl_sub dt (np_round dt (real w)) (Finite x2)),
                     Finite y2)) boxes \<and>
         (representable dt (real w) \<and>
          (\<forall>(x1, y1, x2, y2) \<in> set boxes.
              representable dt x1 \<and> representable dt (real w - x1) \<and>
              representable dt x2 \<and> representable dt (real w - x2)) \<longrightarrow>
            map (mirror_box_ieee dt w) (map (mirror_box_ieee dt w) (map fbox_of boxes))
              = map fbox_of boxes)"
proof -
  have twice: "map (mirror_box_ieee dt w) (map (mirror_box_ieee dt w) (map fbox_of boxes))
           = map (\<lambda>(x1, y1, x2, y2).
                    (fl_sub dt (np_round dt (real w)) (fl_sub dt (np_round dt (real w)) (Finite x1)),
                     Finite y1,
                     fl_sub dt (np_round dt (real w)) (fl_sub dt (np_round dt (real w)) (Finite x2)),
                     Finite y2)) boxes"
    by (simp add: fbox_of_def mirror_box_ieee_twice split_def)
  have exact: "map (mirror_box_ieee dt w) (map (mirror_box_ieee dt w) (map fbox_of boxes))
              = map fbox_of boxes"
    if "representable dt (real w) \<and>
          (\<forall>(x1, y1, x2, y2) \<in> set boxes.
              representable dt x1 \<and> representable dt (real w - x1) \<and>
              representable dt x2 \<and> representable dt (real w - x2))"
    unfolding twice using that
    by (auto simp: fbox_of_def mirror_coordinate_exact)
  from RandomMirror_ieee_twice [OF assms, of dt "map fbox_of boxes" lbls t] twice exact
  show ?thesis by blast
qed

section \<open>The overlap test of RandomSampleCrop\<close>

lemma np_less_PosInf [simp]: "np_less PosInf x = False"
  by (cases x) simp_all

lemma overlap_rejects_unbounded:
  "overlap_rejects lo PosInf overlap = (if overlap = [] then Inl ValueError else Inr False)"
  by (cases overlap) (simp_all add: overlap_rejects_def and_then_def)

text \<open>
  C2 (as amended). Every mode of \<open>sample_options\<close> other than the no-crop mode has no
  upper bound, so \<open>max_iou\<close> is \<open>+\<infinity>\<close>. For every rectangle and every
  non-empty box array the condition
  \<^verbatim>\<open>overlap.min() < min_iou and max_iou < overlap.max()\<close> is false, and the candidate
  goes on to the annotation-survival test. For the empty box array \<^verbatim>\<open>overlap.min()\<close>
  raises ValueError: the condition has no value, and no candidate is rejected by it either.
\<close>

theorem overlap_test_never_rejects:
  "mode \<in> set sample_options \<Longrightarrow> mode = Some (lo, hi) \<Longrightarrow>
     max_iou_of hi = PosInf \<and>
     overlap_rejects (min_iou_of lo) (max_iou_of hi) (jaccard_numpy boxes (rect_box r))
       = (if boxes = [] then Inl ValueError else Inr False) \<and>
     crop_candidate (min_iou_of lo) (max_iou_of hi) r (img, masks, boxes, lbls)
       = (if boxes = [] then Inl ValueError else crop_keep r (img, masks, boxes, lbls))"
  by (auto simp: sample_options_def max_iou_of_def overlap_rejects_unbounded jaccard_numpy_rows
      crop_candidate_def and_then_def)

theorem overlap_test_never_rejects_witness:
  "Some (Some (9 / 10), None) \<in> set sample_options \<and>
   jaccard_numpy [(0, 0, 2, 2), (5, 5, 6, 6)] (rect_box (1, 1, 3, 3)) = [Finite (1 / 7), Finite 0] \<and>
   np_amin [Finite (1 / 7), Finite 0] = Inr (Finite 0) \<and>
   np_less (Finite 0) (min_iou_of (Some (9 / 10))) \<and>
   overlap_rejects (min_iou_of (Some (9 / 10))) (max_iou_of None)
       (jaccard_numpy [(0, 0, 2, 2), (5, 5, 6, 6)] (rect_box (1, 1, 3, 3))) = Inr False"
  using overlap_test_never_rejects [of "Some (Some (9 / 10), None)" "Some (9 / 10)" None
      "[(0, 0, 2, 2), (5, 5, 6, 6)]" "(1, 1, 3, 3)"]
  by (simp add: sample_options_def jaccard_numpy_rows jaccard_row_def union_row_def
      intersect_row_def area_def np_div_def Let_def rect_box_def min_iou_of_def max_iou_of_def)

theorem overlap_test_empty_boxes_counterexample:
  "overlap_rejects (min_iou_of (Some (1 / 10))) (max_iou_of None)
     (jaccard_numpy [] (rect_box (1, 1, 3, 3))) = Inl ValueError"
  by (simp add: overlap_rejects_def and_then_def jaccard_numpy_rows)

section \<open>The validation pipeline\<close>

text \<open>
  The four steps of the validation pipeline are embedded as functions of the sample
  alone, so a run of the pipeline passes the tape through and its result is the same on
  every tape.
\<close>

lemma ValAug_passes_tape:
  "ValAug px img_size s [] \<noteq> None \<and>
   ValAug px img_size s t = map_option (map_sum id (\<lambda>r. (fst r, t))) (ValAug px img_size s []) \<and>
   map_option (map_sum id fst) (ValAug px img_size s t1)
     = map_option (map_sum id fst) (ValAug px img_size s t2)"
  by (simp add: ValAug_def pure_transform_def split: sum.splits)

section \<open>The structure of a crop\<close>

lemma range_len_full_region [simp]: "map range_len (full_region shp) = shp"
  by (simp add: full_region_def range_len_def comp_def)

lemma shape_slice_view [simp]: "shape (slice_view a region) = map range_len region"
  by (simp add: slice_view_def)

lemma length_center_mask [simp]: "length (center_mask r boxes) = length boxes"
  by (simp add: center_mask_def)

lemma crop_keep_SomeD:
  assumes "crop_keep (r0, r1, r2, r3) (img, masks, boxes, lbls) = Inr (Some (img', masks', boxes', lbls'))"
  shows "\<exists>height width d rest n mh mw mrest.
     shape img = height # width # d # rest \<and>
     shape masks = n # mh # mw # mrest \<and>
     length boxes = n \<and> length (labels lbls) = length boxes \<and>
     img' = slice_view img
              ([slice_range height r1 r3, slice_range width r0 r2] @ full_region (d # rest)) \<and>
     shape masks' = length (true_positions (center_mask (r0, r1, r2, r3) boxes))
         # range_len (slice_range mh r1 r3) # range_len (slice_range mw r0 r2) # mrest \<and>
     boxes' = map (clip_box (r0, r1, r2, r3)) (select (center_mask (r0, r1, r2, r3) boxes) boxes) \<and>
     labels lbls' = select (center_mask (r0, r1, r2, r3) boxes) (labels lbls) \<and>
     num_crowds lbls' =
       (if 0 < num_crowds lbls
        then sum_list (select (center_mask (r0, r1, r2, r3) boxes)
                         (crowd_mask_of (length boxes) (num_crowds lbls)))
        else num_crowds lbls)"
proof -
  from assms obtain height width d rest where si: "shape img = height # width # d # rest"
    by (auto simp: crop_keep_def split: list.splits)
  from assms si obtain n mh mw mrest where sm: "shape masks = n # mh # mw # mrest"
    by (auto simp: crop_keep_def Let_def split: list.splits if_splits)
  from assms si sm show ?thesis
    by (auto simp: crop_keep_def Let_def and_then_def select_axis0_def range_len_def
        split: if_splits)
qed

lemma crop_candidate_SomeD:
  "crop_candidate lo hi r s = Inr (Some s') \<Longrightarrow> crop_keep r s = Inr (Some s')"
  by (cases s) (auto simp: crop_candidate_def and_then_def split: sum.splits if_splits)

lemma sample_trials_SomeD:
  "sample_trials n lo hi height width s t = Some (Inr (Some s', t')) \<Longrightarrow>
     \<exists>r. crop_keep r s = Inr (Some s')"
proof (induction n arbitrary: t)
  case 0
  then show ?case by simp
next
  case (Suc n)
  show ?case
  proof (cases t)
    case Nil
    with Suc.prems show ?thesis by simp
  next
    case c1: (Cons kw ta)
    show ?thesis
    proof (cases ta)
      case Nil
      with c1 Suc.prems show ?thesis by simp
    next
      case c2: (Cons kh t1)
      show ?thesis
      proof (cases t1)
        case Nil
        with c1 c2 Suc.prems Suc.IH [of "[]"] show ?thesis
          by (auto simp: Let_def split: if_splits)
      next
        case c3: (Cons kl tb)
        show ?thesis
        proof (cases tb)
          case Nil
          with c1 c2 c3 Suc.prems Suc.IH [of t1] show ?thesis
            by (auto simp: Let_def split: if_splits)
        next
          case c4: (Cons kt t2)
          with c1 c2 c3 Suc.prems Suc.IH [of t1] Suc.IH [of t2] show ?thesis
            by (fastforce simp: Let_def split: if_splits sum.splits option.splits
                dest!: crop_candidate_SomeD)
        qed
      qed
    qed
  qed
qed

lemma crop_loop_SomeD:
  "crop_loop height width s t = Some (Inr (s', t')) \<Longrightarrow>
     s' = s \<or> (\<exists>r. crop_keep r s = Inr (Some s'))"
proof (induction height width s t rule: crop_loop.induct)
  case (1 height width s t)
  show ?case
  proof (cases t)
    case Nil
    with "1.prems" show ?thesis by (simp add: crop_loop.simps)
  next
    case (Cons k t0)
    show ?thesis
    proof (cases "choice sample_options k")
      case None
      with Cons "1.prems" show ?thesis by (simp add: crop_loop.simps)
    next
      case (Some mode)
      let ?r = "sample_trials 50 (min_iou_of (fst mode)) (max_iou_of (snd mode)) height width s t0"
      from "1.prems" Cons Some have run:
        "(case ?r of
            None \<Rightarrow> None
          | Some (Inl e) \<Rightarrow> Some (Inl e)
          | Some (Inr (Some s', t1)) \<Rightarrow> Some (Inr (s', t1))
          | Some (Inr (None, t1)) \<Rightarrow> crop_loop height width s t1) = Some (Inr (s', t'))"
        by (simp add: crop_loop.simps)
      show ?thesis
      proof (cases ?r)
        case None
        with run show ?thesis by simp
      next
        case outer: (Some x)
        show ?thesis
        proof (cases x)
          case (Inl e)
          with outer run show ?thesis by simp
        next
          case (Inr p)
          obtain res t1 where p: "p = (res, t1)" by (cases p)
          show ?thesis
          proof (cases res)
            case None
            with outer Inr p run have "crop_loop height width s t1 = Some (Inr (s', t'))"
              by simp
            with "1.IH" [OF Cons Some outer Inr p [symmetric] None] show ?thesis .
          next
            case found: (Some s'')
            with outer Inr p run have "?r = Some (Inr (Some s', t1))" by simp
            then have "\<exists>r. crop_keep r s = Inr (Some s')" by (rule sample_trials_SomeD)
            then show ?thesis ..
          qed
        qed
      qed
    qed
  qed
qed

lemma RandomSampleCrop_SomeD:
  "RandomSampleCrop s t = Some (Inr (s', t')) \<Longrightarrow>
     s' = s \<or> (\<exists>r. crop_keep r s = Inr (Some s'))"
  by (cases s) (auto simp: RandomSampleCrop_def split: list.splits dest: crop_loop_SomeD)

section \<open>What the transforms return\<close>

lemma assign_region_shape:
  "assign_region canvas region src = Inr c \<Longrightarrow> shape c = shape canvas"
  by (auto simp: assign_region_def Let_def split: if_splits)

lemma fill_mean_shape: "fill_mean canvas = Inr c \<Longrightarrow> shape c = shape canvas"
  by (auto simp: fill_mean_def dest: assign_region_shape)

lemma np_zeros_int_shape: "np_zeros_int dims = Inr c \<Longrightarrow> shape c = map nat dims"
  by (auto simp: np_zeros_int_def np_zeros_def split: if_splits)

lemma shape_np_zeros [simp]: "shape (np_zeros shp) = shp"
  by (simp add: np_zeros_def)

lemma expand_at_InrD:
  assumes "expand_at ratio left top' (img, masks, boxes, lbls) = Inr (img', masks', boxes', lbls')"
  shows "\<exists>eh ew depth n. shape img' = [eh, ew, depth] \<and> shape masks' = [n, eh, ew] \<and>
           boxes' = map (shift_box (py_int left) (py_int top')) boxes \<and> lbls' = lbls"
proof -
  from assms obtain height width depth where si: "shape img = [height, width, depth]"
    by (auto simp: expand_at_def split: list.splits)
  from assms si obtain n rest where sm: "shape masks = n # rest"
    by (auto simp: expand_at_def Let_def and_then_def split: list.splits sum.splits)
  from assms si sm show ?thesis
    by (auto simp: expand_at_def Let_def and_then_def split: sum.splits
        dest!: assign_region_shape fill_mean_shape np_zeros_int_shape)
qed

lemma Expand_SomeD:
  assumes "Expand (img, masks, boxes, lbls) t = Some (Inr ((img', masks', boxes', lbls'), t'))"
  shows "(img', masks', boxes', lbls') = (img, masks, boxes, lbls) \<or>
         (\<exists>eh ew depth n dx dy. shape img' = [eh, ew, depth] \<and> shape masks' = [n, eh, ew] \<and>
            boxes' = map (shift_box dx dy) boxes \<and> lbls' = lbls)"
proof (cases t)
  case Nil
  with assms show ?thesis by (simp add: Expand_def)
next
  case (Cons k t0)
  show ?thesis
  proof (cases "randint01 k \<noteq> 0")
    case False
    with assms Cons show ?thesis by (simp add: Expand_def)
  next
    case True
    from assms Cons True obtain ratio left top' where
      "expand_at ratio left top' (img, masks, boxes, lbls) = Inr (img', masks', boxes', lbls')"
      by (auto simp: Expand_def Let_def split: list.splits sum.splits)
    from expand_at_InrD [OF this] show ?thesis by blast
  qed
qed

lemma RandomMirror_SomeD:
  assumes "RandomMirror (img, masks, boxes, lbls) t = Some (Inr ((img', masks', boxes', lbls'), t'))"
  shows "(img', masks', boxes', lbls') = (img, masks, boxes, lbls) \<or>
         (\<exists>w. img' = flip_axis 1 img \<and> masks' = flip_axis 2 masks \<and>
            boxes' = map (mirror_box w) boxes \<and> lbls' = lbls)"
  using assms
  by (auto simp: RandomMirror_def mirror_def split: list.splits if_splits sum.splits)

lemma cv2_resize_shape:
  "cv2_resize px src (w, h) = Inr r \<Longrightarrow> take 2 (shape r) = [h, w]"
  by (auto simp: cv2_resize_def and_then_def split: sum.splits list.splits if_splits)

lemma Resize_InrD:
  assumes "Resize px img_size resize_gt (img, masks, boxes, lbls) = Inr (img', masks', boxes', lbls')"
  shows "take 2 (shape img') = [img_size, img_size] \<and> lbls' = lbls \<and>
         (if resize_gt
          then drop 1 (shape masks') = [img_size, img_size] \<and>
               (\<exists>fx fy. 0 \<le> fx \<and> 0 \<le> fy \<and> boxes' = map (scale_box fx fy) boxes)
          else masks' = masks \<and> boxes' = boxes)"
proof -
  from assms obtain img_h img_w c where si: "shape img = [img_h, img_w, c]"
    by (auto simp: Resize_def split: list.splits)
  show ?thesis
  proof (cases resize_gt)
    case False
    with assms si show ?thesis
      by (auto simp: Resize_def Let_def and_then_def split: sum.splits dest: cv2_resize_shape)
  next
    case True
    with assms si obtain m1 m2 m3 where
      i: "cv2_resize px img (img_size, img_size) = Inr img'"
      and m1: "np_transpose [1, 2, 0] masks = Inr m1"
      and m2: "cv2_resize px m1 (img_size, img_size) = Inr m2"
      and m3: "(if length (shape m2) = 2 then Inr (expand_dims0 m2)
                else np_transpose [2, 0, 1] m2) = Inr m3"
      and nz: "img_w \<noteq> 0" "img_h \<noteq> 0"
      and res: "masks' = m3" "lbls' = lbls"
        "boxes' = map (scale_box (real img_size / real img_w) (real img_size / real img_h)) boxes"
      by (auto simp: Resize_def Let_def and_then_def split: sum.splits if_splits)
    from m1 obtain a b n where sm: "shape m1 = [a, b, n]"
      by (auto simp: np_transpose_def split: if_splits)
    from m2 sm have "shape m2 = [img_size, img_size] \<or> shape m2 = [img_size, img_size, n]"
      by (auto simp: cv2_resize_def and_then_def split: sum.splits if_splits)
    with m3 have "drop 1 (shape m3) = [img_size, img_size]"
      by (auto simp: expand_dims0_def np_transpose_def split: if_splits)
    moreover have "\<exists>fx fy. 0 \<le> fx \<and> 0 \<le> fy \<and> boxes' = map (scale_box fx fy) boxes"
    proof (intro exI conjI)
      show "boxes' = map (scale_box (real img_size / real img_w) (real img_size / real img_h)) boxes"
        by (rule res)
    qed simp_all
    ultimately show ?thesis
      using True res(1,2) cv2_resize_shape [OF i] by simp
  qed
qed

lemma Pad_InrD:
  assumes "Pad width height pad_gt (img, masks, boxes, lbls) = Inr (img', masks', boxes', lbls')"
  shows "take 2 (shape img') = [height, width] \<and> boxes' = boxes \<and> lbls' = lbls \<and>
         (if pad_gt then drop 1 (shape masks') = [height, width] else masks' = masks)"
proof -
  from assms obtain im_h im_w depth where si: "shape img = [im_h, im_w, depth]"
    by (auto simp: Pad_def split: list.splits)
  show ?thesis
  proof (cases pad_gt)
    case False
    with assms si show ?thesis
      by (auto simp: Pad_def Let_def and_then_def split: sum.splits
          dest!: assign_region_shape fill_mean_shape)
  next
    case True
    with assms si obtain n rest where sm: "shape masks = n # rest"
      by (auto simp: Pad_def Let_def and_then_def split: sum.splits list.splits)
    from assms si sm True show ?thesis
      by (auto simp: Pad_def Let_def and_then_def split: sum.splits
          dest!: assign_region_shape fill_mean_shape)
  qed
qed

section \<open>Selections, clipping and alignment\<close>

lemma select_map_filter: "select (map P xs) xs = filter P xs"
  by (induction xs) (simp_all add: select_def)

lemma select_center_mask: "select (center_mask r boxes) boxes = filter (center_inside r) boxes"
  by (simp add: center_mask_def select_map_filter)

lemma length_select:
  "length msk = length xs \<Longrightarrow> length (select msk xs) = length (filter (\<lambda>m. m) msk)"
  by (induction msk xs rule: list_induct2) (simp_all add: select_def)

lemma length_true_positions: "length (true_positions msk) = length (filter (\<lambda>m. m) msk)"
  by (simp add: true_positions_def length_select)

lemma clip_box_well_formed:
  "well_formed b \<Longrightarrow> center_inside r b \<Longrightarrow> well_formed (clip_box r b)"
  by (cases b; cases r)
     (auto simp: well_formed_def center_inside_def center_def clip_box_def max_def min_def)

lemma clip_box_within:
  "well_formed b \<Longrightarrow> center_inside r b \<Longrightarrow> within_crop r (clip_box r b)"
  by (cases b; cases r)
     (auto simp: well_formed_def center_inside_def center_def clip_box_def within_crop_def
        max_def min_def)

lemma crop_keep_aligned:
  assumes "aligned img masks"
    and "crop_keep r (img, masks, boxes, lbls) = Inr (Some (img', masks', boxes', lbls'))"
  shows "aligned img' masks'"
proof -
  obtain r0 r1 r2 r3 where r: "r = (r0, r1, r2, r3)" by (cases r)
  from crop_keep_SomeD [OF assms(2) [unfolded r]] assms(1) show ?thesis
    by (auto simp: aligned_def)
qed

lemma RandomSampleCrop_aligned:
  "aligned img masks \<Longrightarrow>
   RandomSampleCrop (img, masks, boxes, lbls) t = Some (Inr ((img', masks', boxes', lbls'), t')) \<Longrightarrow>
     aligned img' masks'"
  by (auto dest!: RandomSampleCrop_SomeD dest: crop_keep_aligned)

lemma Expand_aligned:
  "aligned img masks \<Longrightarrow>
   Expand (img, masks, boxes, lbls) t = Some (Inr ((img', masks', boxes', lbls'), t')) \<Longrightarrow>
     aligned img' masks'"
  by (auto dest!: Expand_SomeD simp: aligned_def)

lemma RandomMirror_aligned:
  "aligned img masks \<Longrightarrow>
   RandomMirror (img, masks, boxes, lbls) t = Some (Inr ((img', masks', boxes', lbls'), t')) \<Longrightarrow>
     aligned img' masks'"
  by (auto dest!: RandomMirror_SomeD simp: aligned_def flip_axis_def)

lemma Resize_gt_aligned:
  "Resize px n True (img, masks, boxes, lbls) = Inr (img', masks', boxes', lbls') \<Longrightarrow>
     aligned img' masks'"
  by (auto dest!: Resize_InrD simp: aligned_def)

lemma Pad_gt_aligned:
  "Pad w h True (img, masks, boxes, lbls) = Inr (img', masks', boxes', lbls') \<Longrightarrow>
     aligned img' masks'"
  by (auto dest!: Pad_InrD simp: aligned_def)

lemma Resize_no_gt_aligned:
  "aligned img masks \<Longrightarrow>
   Resize px n False (img, masks, boxes, lbls) = Inr (img', masks', boxes', lbls') \<Longrightarrow>
     masks' = masks \<and> (aligned img' masks' \<longleftrightarrow> take 2 (shape img) = [n, n])"
  by (auto dest!: Resize_InrD simp: aligned_def)

lemma Pad_no_gt_aligned:
  "aligned img masks \<Longrightarrow>
   Pad w h False (img, masks, boxes, lbls) = Inr (img', masks', boxes', lbls') \<Longrightarrow>
     masks' = masks \<and> (aligned img' masks' \<longleftrightarrow> take 2 (shape img) = [h, w])"
  by (auto dest!: Pad_InrD simp: aligned_def)

text \<open>
  C3 (as amended). For a sample whose masks have the spatial dimensions of its image
  (\<^verbatim>\<open>masks.shape[1:] == image.shape[:2]\<close>), what \<open>Expand\<close>, \<open>RandomMirror\<close>,
  \<open>RandomSampleCrop\<close>, \<open>Resize\<close> with ground-truth resizing and \<open>Pad\<close> with
  ground-truth padding return satisfies the same equation. \<open>Resize\<close> and \<open>Pad\<close>
  with ground-truth processing disabled return the masks as they are while the image takes
  the target size: their result is aligned exactly when the input image already has the
  target height and width.
\<close>

theorem spatial_alignment:
  assumes "aligned img masks"
  shows
    "(\<forall>img' masks' boxes' lbls' t'.
        Expand (img, masks, boxes, lbls) t = Some (Inr ((img', masks', boxes', lbls'), t'))
        \<longrightarrow> aligned img' masks') \<and>
     (\<forall>img' masks' boxes' lbls' t'.
        RandomMirror (img, masks, boxes, lbls) t = Some (Inr ((img', masks', boxes', lbls'), t'))
        \<longrightarrow> aligned img' masks') \<and>
     (\<forall>img' masks' boxes' lbls' t'.
        RandomSampleCrop (img, masks, boxes, lbls) t = Some (Inr ((img', masks', boxes', lbls'), t'))
        \<longrightarrow> aligned img' masks') \<and>
     (\<forall>img' masks' boxes' lbls'.
        Resize px n True (img, masks, boxes, lbls) = Inr (img', masks', boxes', lbls')
        \<longrightarrow> aligned img' masks') \<and>
     (\<forall>img' masks' boxes' lbls'.
        Pad w h True (img, masks, boxes, lbls) = Inr (img', masks', boxes', lbls')
        \<longrightarrow> aligned img' masks') \<and>
     (\<forall>img' masks' boxes' lbls'.
        Resize px n False (img, masks, boxes, lbls) = Inr (img', masks', boxes', lbls')
        \<longrightarrow> masks' = masks \<and> (aligned img' masks' \<longleftrightarrow> take 2 (shape img) = [n, n])) \<and>
     (\<forall>img' masks' boxes' lbls'.
        Pad w h False (img, masks, boxes, lbls) = Inr (img', masks', boxes', lbls')
        \<longrightarrow> masks' = masks \<and> (aligned img' masks' \<longleftrightarrow> take 2 (shape img) = [h, w]))"
proof -
  have c1: "\<forall>img' masks' boxes' lbls' t'.
        Expand (img, masks, boxes, lbls) t = Some (Inr ((img', masks', boxes', lbls'), t'))
        \<longrightarrow> aligned img' masks'"
    using assms Expand_aligned by blast
  have c2: "\<forall>img' masks' boxes' lbls' t'.
        RandomMirror (img, masks, boxes, lbls) t = Some (Inr ((img', masks', boxes', lbls'), t'))
        \<longrightarrow> aligned img' masks'"
    using assms RandomMirror_aligned by blast
  have c3: "\<forall>img' masks' boxes' lbls' t'.
        RandomSampleCrop (img, masks, boxes, lbls) t = Some (Inr ((img', masks', boxes', lbls'), t'))
        \<longrightarrow> aligned img' masks'"
    using assms RandomSampleCrop_aligned by blast
  have c4: "\<forall>img' masks' boxes' lbls'.
        Resize px n True (img, masks, boxes, lbls) = Inr (img', masks', boxes', lbls')
        \<longrightarrow> aligned img' masks'"
    using Resize_gt_aligned by blast
  have c5: "\<forall>img' masks' boxes' lbls'.
        Pad w h True (img, masks, boxes, lbls) = Inr (img', masks', boxes', lbls')
        \<longrightarrow> aligned img' masks'"
    using Pad_gt_aligned by blast
  have c6: "\<forall>img' masks' boxes' lbls'.
        Resize px n False (img, masks, boxes, lbls) = Inr (img', masks', boxes', lbls')
        \<longrightarrow> masks' = masks \<and> (aligned img' masks' \<longleftrightarrow> take 2 (shape img) = [n, n])"
    using Resize_no_gt_aligned [OF assms] by blast
  have c7: "\<forall>img' masks' boxes' lbls'.
        Pad w h False (img, masks, boxes, lbls) = Inr (img', masks', boxes', lbls')
        \<longrightarrow> masks' = masks \<and> (aligned img' masks' \<longleftrightarrow> take 2 (shape img) = [h, w])"
    using Pad_no_gt_aligned [OF assms] by blast
  show ?thesis
    by (rule conjI [OF c1 conjI [OF c2 conjI [OF c3 conjI [OF c4 conjI [OF c5 conjI [OF c6 c7]]]]]])
qed

theorem spatial_alignment_witness:
  "aligned \<lparr>shape = [1, 1, 3], flat = [10, 20, 30::real]\<rparr> \<lparr>shape = [1, 1, 1], flat = [1::real]\<rparr> \<and>
   Expand (\<lparr>shape = [1, 1, 3], flat = [10, 20, 30]\<rparr>, \<lparr>shape = [1, 1, 1], flat = [1]\<rparr>,
        [(0, 0, 1, 1)], \<lparr>labels = [7], num_crowds = 0\<rparr>) [1, 4503599627370496, 0, 0]
     = Some (Inr ((\<lparr>shape = [2, 2, 3], flat = [103.94, 116.78, 123.68, 103.94, 116.78, 123.68,
                      103.94, 116.78, 123.68, 10, 20, 30]\<rparr>,
            \<lparr>shape = [1, 2, 2], flat = [0, 0, 0, 1]\<rparr>, [(1, 1, 2, 2)],
            \<lparr>labels = [7], num_crowds = 0\<rparr>), [])) \<and>
   aligned \<lparr>shape = [2, 2, 3], flat = [103.94, 116.78, 123.68, 103.94, 116.78, 123.68,
                      103.94, 116.78, 123.68, 10, 20, 30::real]\<rparr>
           \<lparr>shape = [1, 2, 2], flat = [0, 0, 0, 1::real]\<rparr> \<and>
   RandomMirror (\<lparr>shape = [1, 1, 3], flat = [10, 20, 30]\<rparr>, \<lparr>shape = [1, 1, 1], flat = [1]\<rparr>,
        [(0, 0, 1, 1)], \<lparr>labels = [7], num_crowds = 0\<rparr>) [1]
     = Some (Inr ((\<lparr>shape = [1, 1, 3], flat = [10, 20, 30]\<rparr>, \<lparr>shape = [1, 1, 1], flat = [1]\<rparr>,
        [(0, 0, 1, 1)], \<lparr>labels = [7], num_crowds = 0\<rparr>), [])) \<and>
   RandomSampleCrop (\<lparr>shape = [1, 1, 3], flat = [10, 20, 30]\<rparr>, \<lparr>shape = [1, 1, 1], flat = [1]\<rparr>,
        [(0, 0, 1, 1)], \<lparr>labels = [7], num_crowds = 0\<rparr>)
        [5, 4503599627370496, 4503599627370496, 4503599627370496, 4503599627370496]
     = Some (Inr ((\<lparr>shape = [1, 1, 3], flat = [10, 20, 30]\<rparr>, \<lparr>shape = [1, 1, 1], flat = [1]\<rparr>,
        [(0, 0, 1, 1)], \<lparr>labels = [7], num_crowds = 0\<rparr>), [])) \<and>
   Resize (\<lambda>src w h. Inr (\<lambda>idx. 0)) 2 True
        (\<lparr>shape = [1, 1, 3], flat = [10, 20, 30]\<rparr>, \<lparr>shape = [1, 1, 1], flat = [1]\<rparr>,
         [(0, 0, 1, 1)], \<lparr>labels = [7], num_crowds = 0\<rparr>)
     = Inr (\<lparr>shape = [2, 2, 3], flat = [0, 0, 0, 0, 0, 0, 0, 0, 0, 0, 0, 0]\<rparr>,
            \<lparr>shape = [1, 2, 2], flat = [0, 0, 0, 0]\<rparr>, [(0, 0, 2, 2)],
            \<lparr>labels = [7], num_crowds = 0\<rparr>) \<and>
   aligned \<lparr>shape = [2, 2, 3], flat = [0, 0, 0, 0, 0, 0, 0, 0, 0, 0, 0, 0::real]\<rparr>
           \<lparr>shape = [1, 2, 2], flat = [0, 0, 0, 0::real]\<rparr> \<and>
   Pad 2 2 True (\<lparr>shape = [1, 1, 3], flat = [10, 20, 30]\<rparr>, \<lparr>shape = [1, 1, 1], flat = [1]\<rparr>,
        [(0, 0, 1, 1)], \<lparr>labels = [7], num_crowds = 0\<rparr>)
     = Inr (\<lparr>shape = [2, 2, 3], flat = [10, 20, 30, 103.94, 116.78, 123.68,
                      103.94, 116.78, 123.68, 103.94, 116.78, 123.68]\<rparr>,
            \<lparr>shape = [1, 2, 2], flat = [1, 0, 0, 0]\<rparr>, [(0, 0, 1, 1)],
            \<lparr>labels = [7], num_crowds = 0\<rparr>) \<and>
   aligned \<lparr>shape = [2, 2, 3], flat = [10, 20, 30, 103.94, 116.78, 123.68,
                      103.94, 116.78, 123.68, 103.94, 116.78, 123.68::real]\<rparr>
           \<lparr>shape = [1, 2, 2], flat = [1, 0, 0, 0::real]\<rparr> \<and>
   Resize (\<lambda>src w h. Inr (\<lambda>idx. 0)) 1 False
        (\<lparr>shape = [1, 1, 3], flat = [10, 20, 30]\<rparr>, \<lparr>shape = [1, 1, 1], flat = [1]\<rparr>,
         [(0, 0, 1, 1)], \<lparr>labels = [7], num_crowds = 0\<rparr>)
     = Inr (\<lparr>shape = [1, 1, 3], flat = [0, 0, 0]\<rparr>, \<lparr>shape = [1, 1, 1], flat = [1]\<rparr>,
            [(0, 0, 1, 1)], \<lparr>labels = [7], num_crowds = 0\<rparr>) \<and>
   aligned \<lparr>shape = [1, 1, 3], flat = [0, 0, 0::real]\<rparr> \<lparr>shape = [1, 1, 1], flat = [1::real]\<rparr> \<and>
   Pad 1 1 False (\<lparr>shape = [1, 1, 3], flat = [10, 20, 30]\<rparr>, \<lparr>shape = [1, 1, 1], flat = [1]\<rparr>,
        [(0, 0, 1, 1)], \<lparr>labels = [7], num_crowds = 0\<rparr>)
     = Inr (\<lparr>shape = [1, 1, 3], flat = [10, 20, 30]\<rparr>, \<lparr>shape = [1, 1, 1], flat = [1]\<rparr>,
            [(0, 0, 1, 1)], \<lparr>labels = [7], num_crowds = 0\<rparr>)"
  (is "?al \<and> ?eE \<and> ?aE \<and> ?eM \<and> ?eC \<and> ?eR \<and> ?aR \<and> ?eP \<and> ?aP \<and> ?eRn \<and> ?aRn \<and> ?ePn")
proof -
  let ?img = "\<lparr>shape = [1, 1, 3], flat = [10, 20, 30::real]\<rparr>"
  let ?msk = "\<lparr>shape = [1, 1, 1], flat = [1::real]\<rparr>"
  let ?lb = "\<lparr>labels = [7], num_crowds = 0\<rparr>"
  let ?s = "(?img, ?msk, [(0, 0, 1, 1)], ?lb) :: sample"
  have al: ?al
    by (simp add: aligned_def)
  note th = spatial_alignment [OF al, of "[(0, 0, 1, 1)]" ?lb]
  have xa: "expand_at (5 / 2) 1 1 ?s
      = Inr (\<lparr>shape = [2, 2, 3], flat = [103.94, 116.78, 123.68, 103.94, 116.78, 123.68,
                      103.94, 116.78, 123.68, 10, 20, 30]\<rparr>,
            \<lparr>shape = [1, 2, 2], flat = [0, 0, 0, 1]\<rparr>, [(1, 1, 2, 2)], ?lb)"
    by code_simp
  have eE: ?eE
    using xa by (simp add: Expand_def Let_def uniform_def random_unit_def randint01_def)
  have eM: ?eM
    by (simp add: RandomMirror_def mirror_def randint01_def flip_axis_def build_def
        elem_at_def at_shape_def mirror_box_def upt_conv_Cons)
  have ca: "crop_candidate NegInf PosInf (0, 0, 1, 1) ?s = Inr (Some ?s)"
    by code_simp
  have tr: "sample_trials (Suc 49) NegInf PosInf 1 1 ?s
      [4503599627370496, 4503599627370496, 4503599627370496, 4503599627370496]
      = Some (Inr (Some ?s, []))"
    using ca by (subst sample_trials.simps(2))
      (simp add: Let_def uniform_def random_unit_def py_int_def)
  have n: "Suc 49 = 50" by simp
  have ch: "choice sample_options 5 = Some (None, None)"
    by (simp add: choice_def sample_options_def)
  have eC: ?eC
    using tr unfolding n
    by (subst RandomSampleCrop_def, simp, subst crop_loop.simps)
       (simp add: ch min_iou_of_def max_iou_of_def)
  have eR: ?eR by code_simp
  have eP: ?eP by code_simp
  have eR0: ?eRn by code_simp
  have eP0: ?ePn by code_simp
  let ?px = "\<lambda>(src :: real ndarray) (w :: nat) (h :: nat). Inr (\<lambda>idx :: nat list. 0 :: real) :: error + (nat list \<Rightarrow> real)"
  from th [of "[1, 4503599627370496, 0, 0]" ?px 2 2 2, THEN conjunct1] eE
  have aE: ?aE by simp
  from th [of "[]" ?px 2 2 2, THEN conjunct2, THEN conjunct2, THEN conjunct2, THEN conjunct1] eR
  have aR: ?aR by simp
  from th [of "[]" ?px 2 2 2, THEN conjunct2, THEN conjunct2, THEN conjunct2, THEN conjunct2,
      THEN conjunct1] eP
  have aP: ?aP by simp
  from th [of "[]" ?px 1 1 1, THEN conjunct2, THEN conjunct2, THEN conjunct2, THEN conjunct2,
      THEN conjunct2, THEN conjunct1] eR0
  have aR0: ?aRn by simp
  from al eE aE eM eC eR aR eP aP eR0 aR0 eP0 show ?thesis by (intro conjI)
qed

theorem pad_without_gt_counterexample:
  "aligned \<lparr>shape = [1, 1, 3], flat = [10, 20, 30::real]\<rparr> \<lparr>shape = [1, 1, 1], flat = [1::real]\<rparr> \<and>
   Pad 2 1 False (\<lparr>shape = [1, 1, 3], flat = [10, 20, 30]\<rparr>, \<lparr>shape = [1, 1, 1], flat = [1]\<rparr>,
        [(0, 0, 1, 1)], \<lparr>labels = [7], num_crowds = 0\<rparr>)
     = Inr (\<lparr>shape = [1, 2, 3], flat = [10, 20, 30, 103.94, 116.78, 123.68]\<rparr>,
            \<lparr>shape = [1, 1, 1], flat = [1]\<rparr>, [(0, 0, 1, 1)], \<lparr>labels = [7], num_crowds = 0\<rparr>) \<and>
   \<not> aligned \<lparr>shape = [1, 2, 3], flat = [10, 20, 30, 103.94, 116.78, 123.68::real]\<rparr>
             \<lparr>shape = [1, 1, 1], flat = [1::real]\<rparr>"
proof -
  have "Pad 2 1 False (\<lparr>shape = [1, 1, 3], flat = [10, 20, 30]\<rparr>, \<lparr>shape = [1, 1, 1], flat = [1]\<rparr>,
        [(0, 0, 1, 1)], \<lparr>labels = [7], num_crowds = 0\<rparr>)
     = Inr (\<lparr>shape = [1, 2, 3], flat = [10, 20, 30, 103.94, 116.78, 123.68]\<rparr>,
            \<lparr>shape = [1, 1, 1], flat = [1]\<rparr>, [(0, 0, 1, 1)], \<lparr>labels = [7], num_crowds = 0\<rparr>)"
    by code_simp
  then show ?thesis by (simp add: aligned_def)
qed

section \<open>Well-formed boxes\<close>

lemma scale_box_well_formed:
  "0 \<le> fx \<Longrightarrow> 0 \<le> fy \<Longrightarrow> well_formed b \<Longrightarrow> well_formed (scale_box fx fy b)"
  by (cases b) (simp add: well_formed_def scale_box_def mult_right_mono)

lemma unscale_box_well_formed:
  "0 \<le> fx \<Longrightarrow> 0 \<le> fy \<Longrightarrow> well_formed b \<Longrightarrow> well_formed (unscale_box fx fy b)"
  by (cases b) (simp add: well_formed_def unscale_box_def divide_right_mono)

lemma shift_box_well_formed: "well_formed b \<Longrightarrow> well_formed (shift_box dx dy b)"
  by (cases b) (simp add: well_formed_def shift_box_def)

lemma mirror_box_well_formed: "well_formed b \<Longrightarrow> well_formed (mirror_box w b)"
  by (cases b) (simp add: well_formed_def mirror_box_def)

lemma crop_keep_boxes:
  assumes "crop_keep r (img, masks, boxes, lbls) = Inr (Some (img', masks', boxes', lbls'))"
  shows "boxes' = map (clip_box r) (filter (center_inside r) boxes)"
proof -
  obtain r0 r1 r2 r3 where r: "r = (r0, r1, r2, r3)" by (cases r)
  from crop_keep_SomeD [OF assms [unfolded r]] show ?thesis
    by (auto simp: r select_center_mask)
qed

lemma ToAbsoluteCoords_well_formed:
  "\<forall>b \<in> set boxes. well_formed b \<Longrightarrow>
   ToAbsoluteCoords (img, masks, boxes, lbls) = Inr (img', masks', boxes', lbls') \<Longrightarrow>
     \<forall>b \<in> set boxes'. well_formed b"
  by (auto simp: ToAbsoluteCoords_def scale_box_well_formed split: list.splits)

lemma ToPercentCoords_well_formed:
  "\<forall>b \<in> set boxes. well_formed b \<Longrightarrow>
   ToPercentCoords (img, masks, boxes, lbls) = Returned (img', masks', boxes', lbls') \<Longrightarrow>
     \<forall>b \<in> set boxes'. well_formed b"
  by (auto simp: ToPercentCoords_def unscale_box_well_formed split: list.splits if_splits)

lemma Expand_well_formed:
  "\<forall>b \<in> set boxes. well_formed b \<Longrightarrow>
   Expand (img, masks, boxes, lbls) t = Some (Inr ((img', masks', boxes', lbls'), t')) \<Longrightarrow>
     \<forall>b \<in> set boxes'. well_formed b"
  by (auto dest!: Expand_SomeD simp: shift_box_well_formed)

lemma RandomMirror_well_formed:
  "\<forall>b \<in> set boxes. well_formed b \<Longrightarrow>
   RandomMirror (img, masks, boxes, lbls) t = Some (Inr ((img', masks', boxes', lbls'), t')) \<Longrightarrow>
     \<forall>b \<in> set boxes'. well_formed b"
  by (auto dest!: RandomMirror_SomeD simp: mirror_box_well_formed)

lemma Resize_well_formed:
  "\<forall>b \<in> set boxes. well_formed b \<Longrightarrow>
   Resize px n True (img, masks, boxes, lbls) = Inr (img', masks', boxes', lbls') \<Longrightarrow>
     \<forall>b \<in> set boxes'. well_formed b"
  by (auto dest!: Resize_InrD simp: scale_box_well_formed)

lemma RandomSampleCrop_well_formed:
  "\<forall>b \<in> set boxes. well_formed b \<Longrightarrow>
   RandomSampleCrop (img, masks, boxes, lbls) t = Some (Inr ((img', masks', boxes', lbls'), t')) \<Longrightarrow>
     \<forall>b \<in> set boxes'. well_formed b"
  by (auto dest!: RandomSampleCrop_SomeD crop_keep_boxes simp: clip_box_well_formed)

text \<open>
  C10. Every transform that touches the boxes keeps them well formed: if every box of the
  input has \<open>x1 \<le> x2\<close> and \<open>y1 \<le> y2\<close>, so has every box returned by
  \<open>ToAbsoluteCoords\<close>, \<open>ToPercentCoords\<close>, \<open>Expand\<close>, \<open>RandomMirror\<close>,
  \<open>Resize\<close> with ground-truth resizing and \<open>RandomSampleCrop\<close>. In the crop, a box
  survives only with its centre strictly inside the rectangle, so clipping and
  translating cannot invert it.
\<close>

theorem boxes_stay_well_formed:
  assumes "\<forall>b \<in> set boxes. well_formed b"
  shows
    "(\<forall>img' masks' boxes' lbls'.
        ToAbsoluteCoords (img, masks, boxes, lbls) = Inr (img', masks', boxes', lbls')
        \<longrightarrow> (\<forall>b \<in> set boxes'. well_formed b)) \<and>
     (\<forall>img' masks' boxes' lbls'.
        ToPercentCoords (img, masks, boxes, lbls) = Returned (img', masks', boxes', lbls')
        \<longrightarrow> (\<forall>b \<in> set boxes'. well_formed b)) \<and>
     (\<forall>img' masks' boxes' lbls' t'.
        Expand (img, masks, boxes, lbls) t = Some (Inr ((img', masks', boxes', lbls'), t'))
        \<longrightarrow> (\<forall>b \<in> set boxes'. well_formed b)) \<and>
     (\<forall>img' masks' boxes' lbls' t'.
        RandomMirror (img, masks, boxes, lbls) t = Some (Inr ((img', masks', boxes', lbls'), t'))
        \<longrightarrow> (\<forall>b \<in> set boxes'. well_formed b)) \<and>
     (\<forall>img' masks' boxes' lbls'.
        Resize px n True (img, masks, boxes, lbls) = Inr (img', masks', boxes', lbls')
        \<longrightarrow> (\<forall>b \<in> set boxes'. well_formed b)) \<and>
     (\<forall>img' masks' boxes' lbls' t'.
        RandomSampleCrop (img, masks, boxes, lbls) t = Some (Inr ((img', masks', boxes', lbls'), t'))
        \<longrightarrow> (\<forall>b \<in> set boxes'. well_formed b))"
proof -
  have c1: "\<forall>img' masks' boxes' lbls'.
        ToAbsoluteCoords (img, masks, boxes, lbls) = Inr (img', masks', boxes', lbls')
        \<longrightarrow> (\<forall>b \<in> set boxes'. well_formed b)"
    using ToAbsoluteCoords_well_formed [OF assms] by blast
  have c2: "\<forall>img' masks' boxes' lbls'.
        ToPercentCoords (img, masks, boxes, lbls) = Returned (img', masks', boxes', lbls')
        \<longrightarrow> (\<forall>b \<in> set boxes'. well_formed b)"
    using ToPercentCoords_well_formed [OF assms] by blast
  have c3: "\<forall>img' masks' boxes' lbls' t'.
        Expand (img, masks, boxes, lbls) t = Some (Inr ((img', masks', boxes', lbls'), t'))
        \<longrightarrow> (\<forall>b \<in> set boxes'. well_formed b)"
    using Expand_well_formed [OF assms] by blast
  have c4: "\<forall>img' masks' boxes' lbls' t'.
        RandomMirror (img, masks, boxes, lbls) t = Some (Inr ((img', masks', boxes', lbls'), t'))
        \<longrightarrow> (\<forall>b \<in> set boxes'. well_formed b)"
    using RandomMirror_well_formed [OF assms] by blast
  have c5: "\<forall>img' masks' boxes' lbls'.
        Resize px n True (img, masks, boxes, lbls) = Inr (img', masks', boxes', lbls')
        \<longrightarrow> (\<forall>b \<in> set boxes'. well_formed b)"
    using Resize_well_formed [OF assms] by blast
  have c6: "\<forall>img' masks' boxes' lbls' t'.
        RandomSampleCrop (img, masks, boxes, lbls) t = Some (Inr ((img', masks', boxes', lbls'), t'))
        \<longrightarrow> (\<forall>b \<in> set boxes'. well_formed b)"
    using RandomSampleCrop_well_formed [OF assms] by blast
  show ?thesis
    by (rule conjI [OF c1 conjI [OF c2 conjI [OF c3 conjI [OF c4 conjI [OF c5 c6]]]]])
qed

section \<open>Crowds, lengths and bounds after a crop\<close>

lemma sum_list_select_le:
  fixes xs :: "int list"
  shows "\<forall>x \<in> set xs. 0 \<le> x \<Longrightarrow> sum_list (select msk xs) \<le> sum_list xs"
proof (induction xs arbitrary: msk)
  case Nil
  then show ?case by (simp add: select_def)
next
  case (Cons x xs)
  show ?case
  proof (cases msk)
    case Nil
    with Cons.prems show ?thesis by (simp add: select_def sum_list_nonneg)
  next
    case (Cons m ms)
    with Cons.IH [of ms] Cons.prems show ?thesis by (auto simp: select_def)
  qed
qed

lemma sum_list_select_le_length:
  fixes xs :: "int list"
  shows "\<forall>x \<in> set xs. x \<le> 1 \<Longrightarrow> sum_list (select msk xs) \<le> int (length (select msk xs))"
proof (induction xs arbitrary: msk)
  case Nil
  then show ?case by (simp add: select_def)
next
  case (Cons x xs)
  show ?case
  proof (cases msk)
    case Nil
    then show ?thesis by (simp add: select_def)
  next
    case (Cons m ms)
    with Cons.IH [of ms] Cons.prems show ?thesis by (auto simp: select_def)
  qed
qed

lemma crowd_mask_of_set: "set (crowd_mask_of n nc) \<subseteq> {0, 1}"
  by (auto simp: crowd_mask_of_def Let_def)

lemma length_crowd_mask_of [simp]: "length (crowd_mask_of n nc) = n"
  by (auto simp: crowd_mask_of_def Let_def slice_bound_def)

lemma sum_list_crowd_mask_of: "0 < nc \<Longrightarrow> sum_list (crowd_mask_of n nc) \<le> nc"
  by (auto simp: crowd_mask_of_def Let_def slice_bound_def sum_list_replicate)

lemma crop_keep_num_crowds:
  assumes "crop_keep r (img, masks, boxes, lbls) = Inr (Some (img', masks', boxes', lbls'))"
  shows "num_crowds lbls' \<le> num_crowds lbls"
    and "num_crowds lbls \<le> int (length boxes) \<Longrightarrow> num_crowds lbls' \<le> int (length boxes')"
    and "length (labels lbls') = length boxes'"
    and "\<exists>rest. shape masks' = length boxes' # rest"
proof -
  obtain r0 r1 r2 r3 where r: "r = (r0, r1, r2, r3)" by (cases r)
  let ?msk = "center_mask r boxes"
  let ?cm = "crowd_mask_of (length boxes) (num_crowds lbls)"
  from crop_keep_SomeD [OF assms [unfolded r]]
  have b: "boxes' = map (clip_box r) (select ?msk boxes)"
    and l: "labels lbls' = select ?msk (labels lbls)"
    and ll: "length (labels lbls) = length boxes"
    and nc: "num_crowds lbls' = (if 0 < num_crowds lbls then sum_list (select ?msk ?cm)
                                  else num_crowds lbls)"
    and sm: "\<exists>rest. shape masks' = length (true_positions ?msk) # rest"
    by (auto simp: r)
  have nonneg: "\<forall>x \<in> set ?cm. 0 \<le> x" and le1: "\<forall>x \<in> set ?cm. x \<le> 1"
    using crowd_mask_of_set [of "length boxes" "num_crowds lbls"] by auto
  have len: "length (select ?msk xs) = length boxes'" if "length xs = length boxes" for xs :: "'x list"
    using that by (simp add: b length_select)
  show "num_crowds lbls' \<le> num_crowds lbls"
  proof (cases "0 < num_crowds lbls")
    case True
    from sum_list_select_le [OF nonneg, of ?msk] sum_list_crowd_mask_of [OF True, of "length boxes"]
    show ?thesis by (simp add: nc True)
  next
    case False
    then show ?thesis by (simp add: nc)
  qed
  show "num_crowds lbls' \<le> int (length boxes')" if "num_crowds lbls \<le> int (length boxes)"
  proof (cases "0 < num_crowds lbls")
    case True
    from sum_list_select_le_length [OF le1, of ?msk] len [of ?cm]
    show ?thesis by (simp add: nc True)
  next
    case False
    then show ?thesis by (simp add: nc)
  qed
  show "length (labels lbls') = length boxes'"
    using len [OF ll] by (simp add: l)
  from sm show "\<exists>rest. shape masks' = length boxes' # rest"
    by (simp add: b length_true_positions length_select)
qed

lemma crop_keep_within:
  assumes "crop_keep r (img, masks, boxes, lbls) = Inr (Some (img', masks', boxes', lbls'))"
    and "\<forall>b \<in> set boxes. well_formed b"
  shows "\<forall>b \<in> set boxes'. within_crop r b"
  using crop_keep_boxes [OF assms(1)] assms(2) by (auto simp: clip_box_within)

text \<open>
  C4. What \<open>RandomSampleCrop\<close> returns has a \<open>num_crowds\<close> that is at most the one
  of the input. If the input's \<open>num_crowds\<close> is at most its number of boxes (the crowd
  entries are trailing annotations), then after \<open>RandomSampleCrop\<close>, \<open>Expand\<close>,
  \<open>RandomMirror\<close> and \<open>Resize\<close> the \<open>num_crowds\<close> returned is at most the number
  of boxes returned.
\<close>

theorem num_crowds_bounds:
  "(\<forall>img' masks' boxes' lbls' t'.
      RandomSampleCrop (img, masks, boxes, lbls) t = Some (Inr ((img', masks', boxes', lbls'), t'))
      \<longrightarrow> num_crowds lbls' \<le> num_crowds lbls) \<and>
   (num_crowds lbls \<le> int (length boxes) \<longrightarrow>
      (\<forall>img' masks' boxes' lbls' t'.
         RandomSampleCrop (img, masks, boxes, lbls) t = Some (Inr ((img', masks', boxes', lbls'), t'))
         \<longrightarrow> num_crowds lbls' \<le> int (length boxes')) \<and>
      (\<forall>img' masks' boxes' lbls' t'.
         Expand (img, masks, boxes, lbls) t = Some (Inr ((img', masks', boxes', lbls'), t'))
         \<longrightarrow> num_crowds lbls' \<le> int (length boxes')) \<and>
      (\<forall>img' masks' boxes' lbls' t'.
         RandomMirror (img, masks, boxes, lbls) t = Some (Inr ((img', masks', boxes', lbls'), t'))
         \<longrightarrow> num_crowds lbls' \<le> int (length boxes')) \<and>
      (\<forall>img' masks' boxes' lbls'.
         Resize px n resize_gt (img, masks, boxes, lbls) = Inr (img', masks', boxes', lbls')
         \<longrightarrow> num_crowds lbls' \<le> int (length boxes')))"
proof -
  have c1: "\<forall>img' masks' boxes' lbls' t'.
      RandomSampleCrop (img, masks, boxes, lbls) t = Some (Inr ((img', masks', boxes', lbls'), t'))
      \<longrightarrow> num_crowds lbls' \<le> num_crowds lbls"
    by (auto dest!: RandomSampleCrop_SomeD crop_keep_num_crowds(1))
  have c2: "\<forall>img' masks' boxes' lbls' t'.
         RandomSampleCrop (img, masks, boxes, lbls) t = Some (Inr ((img', masks', boxes', lbls'), t'))
         \<longrightarrow> num_crowds lbls' \<le> int (length boxes')"
    if "num_crowds lbls \<le> int (length boxes)"
    using that by (auto dest!: RandomSampleCrop_SomeD dest: crop_keep_num_crowds(2))
  have c3: "\<forall>img' masks' boxes' lbls' t'.
         Expand (img, masks, boxes, lbls) t = Some (Inr ((img', masks', boxes', lbls'), t'))
         \<longrightarrow> num_crowds lbls' \<le> int (length boxes')"
    if "num_crowds lbls \<le> int (length boxes)"
    using that by (auto dest!: Expand_SomeD)
  have c4: "\<forall>img' masks' boxes' lbls' t'.
         RandomMirror (img, masks, boxes, lbls) t = Some (Inr ((img', masks', boxes', lbls'), t'))
         \<longrightarrow> num_crowds lbls' \<le> int (length boxes')"
    if "num_crowds lbls \<le> int (length boxes)"
    using that by (auto dest!: RandomMirror_SomeD)
  have c5: "\<forall>img' masks' boxes' lbls'.
         Resize px n resize_gt (img, masks, boxes, lbls) = Inr (img', masks', boxes', lbls')
         \<longrightarrow> num_crowds lbls' \<le> int (length boxes')"
    if "num_crowds lbls \<le> int (length boxes)"
    using that by (cases resize_gt) (auto dest!: Resize_InrD)
  show ?thesis
    using c1 c2 c3 c4 c5 by (intro conjI impI) assumption+
qed

text \<open>
  C1 (as amended). Let the masks, boxes and labels of the input have the same length. Then
  the masks, boxes and labels that \<open>RandomSampleCrop\<close> returns have the same length.
  Either the sample is returned as it is (the no-crop mode, which clips nothing), or it
  is the crop for a rectangle \<open>r\<close>: the boxes returned are the clipped boxes whose
  centre is strictly inside \<open>r\<close>, and each of them that comes from a well-formed box
  has its x-coordinates in \<open>[0, r2 - r0]\<close> and its y-coordinates in
  \<open>[0, r3 - r1]\<close>; so has every box returned, if every box of the input is well
  formed.
\<close>

theorem crop_boxes_within:
  assumes "RandomSampleCrop (img, masks, boxes, lbls) t
             = Some (Inr ((img', masks', boxes', lbls'), t'))"
    and "length (labels lbls) = length boxes"
    and "shape masks = length boxes # mshape"
  shows "(\<exists>rest. shape masks' = length boxes' # rest) \<and>
         length (labels lbls') = length boxes' \<and>
         ((img', masks', boxes', lbls') = (img, masks, boxes, lbls) \<or>
          (\<exists>r. crop_keep r (img, masks, boxes, lbls) = Inr (Some (img', masks', boxes', lbls')) \<and>
               boxes' = map (clip_box r) (filter (center_inside r) boxes) \<and>
               (\<forall>b \<in> set boxes. well_formed b \<and> center_inside r b
                  \<longrightarrow> within_crop r (clip_box r b)) \<and>
               ((\<forall>b \<in> set boxes. well_formed b) \<longrightarrow> (\<forall>b \<in> set boxes'. within_crop r b))))"
proof -
  from RandomSampleCrop_SomeD [OF assms(1)]
  consider "(img', masks', boxes', lbls') = (img, masks, boxes, lbls)"
    | r where "crop_keep r (img, masks, boxes, lbls) = Inr (Some (img', masks', boxes', lbls'))"
    by blast
  then show ?thesis
  proof cases
    case 1
    with assms(2,3) show ?thesis by simp
  next
    case 2
    have per_box: "\<forall>b \<in> set boxes. well_formed b \<and> center_inside r b
        \<longrightarrow> within_crop r (clip_box r b)"
      by (simp add: clip_box_within)
    have all_boxes: "(\<forall>b \<in> set boxes. well_formed b) \<longrightarrow> (\<forall>b \<in> set boxes'. within_crop r b)"
      using crop_keep_within [OF 2] by blast
    from crop_keep_num_crowds(3,4) [OF 2] crop_keep_boxes [OF 2] per_box all_boxes 2
    show ?thesis by blast
  qed
qed

section \<open>Example runs\<close>

text \<open>
  Runs on concrete samples and tapes: a 1 x 1 image with one box, a 4 x 4 image with three
  boxes the last of which is a crowd, and a 4 x 4 image whose single box has
  \<open>x1 > x2\<close>. The draw \<open>4503599627370496\<close> is \<open>random() = 1 / 2\<close>.
\<close>

lemma example_expand_at:
  "expand_at (5 / 2) 1 1
     (\<lparr>shape = [1, 1, 3], flat = [10, 20, 30]\<rparr>, \<lparr>shape = [1, 1, 1], flat = [1]\<rparr>,
      [(0, 0, 1, 1)], \<lparr>labels = [7], num_crowds = 0\<rparr>)
   = Inr (\<lparr>shape = [2, 2, 3], flat = [103.94, 116.78, 123.68, 103.94, 116.78, 123.68,
                    103.94, 116.78, 123.68, 10, 20, 30]\<rparr>,
       \<lparr>shape = [1, 2, 2], flat = [0, 0, 0, 1]\<rparr>, [(1, 1, 2, 2)],
       \<lparr>labels = [7], num_crowds = 0\<rparr>)"
  by code_simp

lemma example_expand:
  "Expand
     (\<lparr>shape = [1, 1, 3], flat = [10, 20, 30]\<rparr>, \<lparr>shape = [1, 1, 1], flat = [1]\<rparr>,
      [(0, 0, 1, 1)], \<lparr>labels = [7], num_crowds = 0\<rparr>)
     [1, 4503599627370496, 0, 0]
   = Some (Inr ((\<lparr>shape = [2, 2, 3], flat = [103.94, 116.78, 123.68, 103.94, 116.78, 123.68,
                    103.94, 116.78, 123.68, 10, 20, 30]\<rparr>,
       \<lparr>shape = [1, 2, 2], flat = [0, 0, 0, 1]\<rparr>, [(1, 1, 2, 2)],
       \<lparr>labels = [7], num_crowds = 0\<rparr>), []))"
  using example_expand_at
  by (simp add: Expand_def Let_def uniform_def random_unit_def randint01_def)

lemma example_mirror:
  "RandomMirror
     (\<lparr>shape = [1, 1, 3], flat = [10, 20, 30]\<rparr>, \<lparr>shape = [1, 1, 1], flat = [1]\<rparr>,
      [(0, 0, 1, 1)], \<lparr>labels = [7], num_crowds = 0\<rparr>) [1]
   = Some (Inr ((\<lparr>shape = [1, 1, 3], flat = [10, 20, 30]\<rparr>, \<lparr>shape = [1, 1, 1], flat = [1]\<rparr>,
      [(0, 0, 1, 1)], \<lparr>labels = [7], num_crowds = 0\<rparr>), []))"
  by (simp add: RandomMirror_def mirror_def randint01_def flip_axis_def build_def
      elem_at_def at_shape_def mirror_box_def upt_conv_Cons)

lemma example_resize:
  "Resize (\<lambda>src w h. Inr (\<lambda>idx. 0)) 2 True
     (\<lparr>shape = [1, 1, 3], flat = [10, 20, 30]\<rparr>, \<lparr>shape = [1, 1, 1], flat = [1]\<rparr>,
      [(0, 0, 1, 1)], \<lparr>labels = [7], num_crowds = 0\<rparr>)
   = Inr (\<lparr>shape = [2, 2, 3], flat = [0, 0, 0, 0, 0, 0, 0, 0, 0, 0, 0, 0]\<rparr>,
       \<lparr>shape = [1, 2, 2], flat = [0, 0, 0, 0]\<rparr>, [(0, 0, 2, 2)],
       \<lparr>labels = [7], num_crowds = 0\<rparr>)"
  by code_simp

lemma example_crop_candidate:
  "crop_candidate NegInf PosInf (1, 1, 3, 3)
     (np_zeros [4, 4, 1], np_zeros [3, 4, 4], [(0, 0, 2, 2), (1, 1, 4, 4), (2, 2, 3, 3)],
      \<lparr>labels = [7, 8, 9], num_crowds = 1\<rparr>)
   = Inr (Some
     (np_zeros [2, 2, 1], np_zeros [2, 2, 2], [(0, 0, 2, 2), (1, 1, 2, 2)],
      \<lparr>labels = [8, 9], num_crowds = 1\<rparr>))"
  by code_simp

lemma example_crop:
  "RandomSampleCrop
     (np_zeros [4, 4, 1], np_zeros [3, 4, 4], [(0, 0, 2, 2), (1, 1, 4, 4), (2, 2, 3, 3)],
      \<lparr>labels = [7, 8, 9], num_crowds = 1\<rparr>)
     [5, 4503599627370496, 4503599627370496, 0, 0]
   = Some (Inr (
     (np_zeros [2, 2, 1], np_zeros [2, 2, 2], [(0, 0, 2, 2), (1, 1, 2, 2)],
      \<lparr>labels = [8, 9], num_crowds = 1\<rparr>), []))"
proof -
  have tr: "sample_trials (Suc 49) NegInf PosInf 4 4
     (np_zeros [4, 4, 1], np_zeros [3, 4, 4], [(0, 0, 2, 2), (1, 1, 4, 4), (2, 2, 3, 3)],
      \<lparr>labels = [7, 8, 9], num_crowds = 1\<rparr>)
     [4503599627370496, 4503599627370496, 0, 0]
   = Some (Inr (Some
     (np_zeros [2, 2, 1], np_zeros [2, 2, 2], [(0, 0, 2, 2), (1, 1, 2, 2)],
      \<lparr>labels = [8, 9], num_crowds = 1\<rparr>), []))"
    using example_crop_candidate by (subst sample_trials.simps(2))
      (simp add: Let_def uniform_def random_unit_def py_int_def)
  have n: "Suc 49 = 50" by simp
  have ch: "choice sample_options 5 = Some (None, None)"
    by (simp add: choice_def sample_options_def)
  show ?thesis
    using tr unfolding n
    by (subst RandomSampleCrop_def, simp add: np_zeros_def, subst crop_loop.simps)
       (simp add: ch min_iou_of_def max_iou_of_def np_zeros_def)
qed

lemma inverted_box_crop_candidate:
  "crop_candidate NegInf PosInf (1, 1, 3, 3)
     (np_zeros [4, 4, 1], np_zeros [1, 4, 4], [(4, 0, 0, 4)], \<lparr>labels = [7], num_crowds = 0\<rparr>)
   = Inr (Some
     (np_zeros [2, 2, 1], np_zeros [1, 2, 2], [(3, 0, - 1, 2)], \<lparr>labels = [7], num_crowds = 0\<rparr>))"
  by code_simp

lemma inverted_box_crop:
  "RandomSampleCrop
     (np_zeros [4, 4, 1], np_zeros [1, 4, 4], [(4, 0, 0, 4)], \<lparr>labels = [7], num_crowds = 0\<rparr>)
     [5, 4503599627370496, 4503599627370496, 0, 0]
   = Some (Inr (
     (np_zeros [2, 2, 1], np_zeros [1, 2, 2], [(3, 0, - 1, 2)], \<lparr>labels = [7], num_crowds = 0\<rparr>), []))"
proof -
  have tr: "sample_trials (Suc 49) NegInf PosInf 4 4
     (np_zeros [4, 4, 1], np_zeros [1, 4, 4], [(4, 0, 0, 4)], \<lparr>labels = [7], num_crowds = 0\<rparr>)
     [4503599627370496, 4503599627370496, 0, 0]
   = Some (Inr (Some
     (np_zeros [2, 2, 1], np_zeros [1, 2, 2], [(3, 0, - 1, 2)], \<lparr>labels = [7], num_crowds = 0\<rparr>), []))"
    using inverted_box_crop_candidate by (subst sample_trials.simps(2))
      (simp add: Let_def uniform_def random_unit_def py_int_def)
  have n: "Suc 49 = 50" by simp
  have ch: "choice sample_options 5 = Some (None, None)"
    by (simp add: choice_def sample_options_def)
  show ?thesis
    using tr unfolding n
    by (subst RandomSampleCrop_def, simp add: np_zeros_def, subst crop_loop.simps)
       (simp add: ch min_iou_of_def max_iou_of_def np_zeros_def)
qed

lemma example_crop_keep:
  "crop_keep (1, 1, 3, 3)
     (np_zeros [4, 4, 1], np_zeros [1, 4, 4], [(4, 0, 0, 4)], \<lparr>labels = [7], num_crowds = 0\<rparr>)
   = Inr (Some
     (np_zeros [2, 2, 1], np_zeros [1, 2, 2], [(3, 0, - 1, 2)], \<lparr>labels = [7], num_crowds = 0\<rparr>))"
  by code_simp

lemma example_crop_rect:
  "crop_keep (1, 1, 3, 3)
     (np_zeros [4, 4, 1], np_zeros [3, 4, 4], [(0, 0, 2, 2), (1, 1, 4, 4), (2, 2, 3, 3)],
      \<lparr>labels = [7, 8, 9], num_crowds = 1\<rparr>)
   = Inr (Some
     (np_zeros [2, 2, 1], np_zeros [2, 2, 2], [(0, 0, 2, 2), (1, 1, 2, 2)],
      \<lparr>labels = [8, 9], num_crowds = 1\<rparr>))"
  by code_simp

lemma no_crop_run:
  "RandomSampleCrop
     (np_zeros [4, 4, 1], np_zeros [1, 4, 4], [(0, 0, 10, 10)], \<lparr>labels = [7], num_crowds = 0\<rparr>) [0]
   = Some (Inr (
     (np_zeros [4, 4, 1], np_zeros [1, 4, 4], [(0, 0, 10, 10)], \<lparr>labels = [7], num_crowds = 0\<rparr>), []))"
proof -
  have ch: "choice sample_options 0 = None"
    by (simp add: choice_def sample_options_def)
  show ?thesis
    by (subst RandomSampleCrop_def, simp add: np_zeros_def, subst crop_loop.simps)
       (simp add: ch np_zeros_def)
qed

theorem crop_boxes_within_witness:
  "length (labels \<lparr>labels = [7, 8, 9], num_crowds = 1\<rparr>)
     = length [(0, 0, 2, 2), (1, 1, 4, 4), (2, 2, 3, 3) :: box] \<and>
   shape (np_zeros [3, 4, 4]) = [length [(0, 0, 2, 2), (1, 1, 4, 4), (2, 2, 3, 3) :: box], 4, 4] \<and>
   RandomSampleCrop
     (np_zeros [4, 4, 1], np_zeros [3, 4, 4], [(0, 0, 2, 2), (1, 1, 4, 4), (2, 2, 3, 3)],
      \<lparr>labels = [7, 8, 9], num_crowds = 1\<rparr>)
     [5, 4503599627370496, 4503599627370496, 0, 0]
   = Some (Inr (
     (np_zeros [2, 2, 1], np_zeros [2, 2, 2], [(0, 0, 2, 2), (1, 1, 2, 2)],
      \<lparr>labels = [8, 9], num_crowds = 1\<rparr>), [])) \<and>
   crop_keep (1, 1, 3, 3)
     (np_zeros [4, 4, 1], np_zeros [3, 4, 4], [(0, 0, 2, 2), (1, 1, 4, 4), (2, 2, 3, 3)],
      \<lparr>labels = [7, 8, 9], num_crowds = 1\<rparr>)
   = Inr (Some
     (np_zeros [2, 2, 1], np_zeros [2, 2, 2], [(0, 0, 2, 2), (1, 1, 2, 2)],
      \<lparr>labels = [8, 9], num_crowds = 1\<rparr>)) \<and>
   well_formed (1, 1, 4, 4) \<and> center_inside (1, 1, 3, 3) (1, 1, 4, 4) \<and>
   clip_box (1, 1, 3, 3) (1, 1, 4, 4) = (0, 0, 2, 2) \<and>
   well_formed (2, 2, 3, 3) \<and> center_inside (1, 1, 3, 3) (2, 2, 3, 3) \<and>
   clip_box (1, 1, 3, 3) (2, 2, 3, 3) = (1, 1, 2, 2) \<and>
   within_crop (1, 1, 3, 3) (0, 0, 2, 2) \<and> within_crop (1, 1, 3, 3) (1, 1, 2, 2) \<and>
   shape (np_zeros [2, 2, 2]) = [length [(0, 0, 2, 2), (1, 1, 2, 2) :: box], 2, 2] \<and>
   length (labels \<lparr>labels = [8, 9], num_crowds = 1\<rparr>) = length [(0, 0, 2, 2), (1, 1, 2, 2) :: box]"
  using crop_boxes_within [OF example_crop, of "[4, 4]"] example_crop example_crop_rect
  by (simp add: well_formed_def within_crop_def center_inside_def center_def clip_box_def)

theorem crop_bound_counterexample:
  "RandomSampleCrop
     (np_zeros [4, 4, 1], np_zeros [1, 4, 4], [(4, 0, 0, 4)], \<lparr>labels = [7], num_crowds = 0\<rparr>)
     [5, 4503599627370496, 4503599627370496, 0, 0]
   = Some (Inr (
     (np_zeros [2, 2, 1], np_zeros [1, 2, 2], [(3, 0, - 1, 2)], \<lparr>labels = [7], num_crowds = 0\<rparr>), [])) \<and>
   crop_keep (1, 1, 3, 3)
     (np_zeros [4, 4, 1], np_zeros [1, 4, 4], [(4, 0, 0, 4)], \<lparr>labels = [7], num_crowds = 0\<rparr>)
   = Inr (Some
     (np_zeros [2, 2, 1], np_zeros [1, 2, 2], [(3, 0, - 1, 2)], \<lparr>labels = [7], num_crowds = 0\<rparr>)) \<and>
   \<not> within_crop (1, 1, 3, 3) (3, 0, - 1, 2) \<and>
   RandomSampleCrop
     (np_zeros [4, 4, 1], np_zeros [1, 4, 4], [(0, 0, 10, 10)], \<lparr>labels = [7], num_crowds = 0\<rparr>) [0]
   = Some (Inr (
     (np_zeros [4, 4, 1], np_zeros [1, 4, 4], [(0, 0, 10, 10)], \<lparr>labels = [7], num_crowds = 0\<rparr>), [])) \<and>
   well_formed (0, 0, 10, 10) \<and>
   \<not> within_crop (0, 0, 4, 4) (0, 0, 10, 10)"
  using inverted_box_crop example_crop_keep no_crop_run
  by (simp add: within_crop_def well_formed_def)

theorem num_crowds_bounds_witness:
  "num_crowds \<lparr>labels = [7, 8, 9], num_crowds = 1\<rparr> \<le> int (length ([(0, 0, 2, 2), (1, 1, 4, 4), (2, 2, 3, 3)] :: box list)) \<and>
   RandomSampleCrop
     (np_zeros [4, 4, 1], np_zeros [3, 4, 4], [(0, 0, 2, 2), (1, 1, 4, 4), (2, 2, 3, 3)],
      \<lparr>labels = [7, 8, 9], num_crowds = 1\<rparr>)
     [5, 4503599627370496, 4503599627370496, 0, 0]
   = Some (Inr (
     (np_zeros [2, 2, 1], np_zeros [2, 2, 2], [(0, 0, 2, 2), (1, 1, 2, 2)],
      \<lparr>labels = [8, 9], num_crowds = 1\<rparr>), [])) \<and>
   num_crowds \<lparr>labels = [8, 9], num_crowds = 1\<rparr> \<le> num_crowds \<lparr>labels = [7, 8, 9], num_crowds = 1\<rparr> \<and>
   num_crowds \<lparr>labels = [8, 9], num_crowds = 1\<rparr> \<le> int (length [(0, 0, 2, 2), (1, 1, 2, 2) :: box]) \<and>
   num_crowds \<lparr>labels = [7], num_crowds = 0\<rparr> \<le> int (length [(0, 0, 1, 1) :: box]) \<and>
   Expand
     (\<lparr>shape = [1, 1, 3], flat = [10, 20, 30]\<rparr>, \<lparr>shape = [1, 1, 1], flat = [1]\<rparr>,
      [(0, 0, 1, 1)], \<lparr>labels = [7], num_crowds = 0\<rparr>)
     [1, 4503599627370496, 0, 0]
   = Some (Inr ((\<lparr>shape = [2, 2, 3], flat = [103.94, 116.78, 123.68, 103.94, 116.78, 123.68,
                    103.94, 116.78, 123.68, 10, 20, 30]\<rparr>,
       \<lparr>shape = [1, 2, 2], flat = [0, 0, 0, 1]\<rparr>, [(1, 1, 2, 2)],
       \<lparr>labels = [7], num_crowds = 0\<rparr>), [])) \<and>
   RandomMirror
     (\<lparr>shape = [1, 1, 3], flat = [10, 20, 30]\<rparr>, \<lparr>shape = [1, 1, 1], flat = [1]\<rparr>,
      [(0, 0, 1, 1)], \<lparr>labels = [7], num_crowds = 0\<rparr>) [1]
   = Some (Inr ((\<lparr>shape = [1, 1, 3], flat = [10, 20, 30]\<rparr>, \<lparr>shape = [1, 1, 1], flat = [1]\<rparr>,
      [(0, 0, 1, 1)], \<lparr>labels = [7], num_crowds = 0\<rparr>), [])) \<and>
   Resize (\<lambda>src w h. Inr (\<lambda>idx. 0)) 2 True
     (\<lparr>shape = [1, 1, 3], flat = [10, 20, 30]\<rparr>, \<lparr>shape = [1, 1, 1], flat = [1]\<rparr>,
      [(0, 0, 1, 1)], \<lparr>labels = [7], num_crowds = 0\<rparr>)
   = Inr (\<lparr>shape = [2, 2, 3], flat = [0, 0, 0, 0, 0, 0, 0, 0, 0, 0, 0, 0]\<rparr>,
       \<lparr>shape = [1, 2, 2], flat = [0, 0, 0, 0]\<rparr>, [(0, 0, 2, 2)],
       \<lparr>labels = [7], num_crowds = 0\<rparr>) \<and>
   num_crowds \<lparr>labels = [7], num_crowds = 0\<rparr> \<le> int (length [(1, 1, 2, 2) :: box]) \<and>
   num_crowds \<lparr>labels = [7], num_crowds = 0\<rparr> \<le> int (length [(0, 0, 2, 2) :: box])"
  using num_crowds_bounds [of "np_zeros [4, 4, 1]" "np_zeros [3, 4, 4]" "[(0, 0, 2, 2), (1, 1, 4, 4), (2, 2, 3, 3)]"
      "\<lparr>labels = [7, 8, 9], num_crowds = 1\<rparr>" "[5, 4503599627370496, 4503599627370496, 0, 0]" "(\<lambda>(src :: real ndarray) (w :: nat) (h :: nat). Inr (\<lambda>idx :: nat list. 0 :: real) :: error + (nat list \<Rightarrow> real))" 2 True]
    num_crowds_bounds [of "\<lparr>shape = [1, 1, 3], flat = [10, 20, 30]\<rparr>"
      "\<lparr>shape = [1, 1, 1], flat = [1]\<rparr>" "[(0, 0, 1, 1)]" "\<lparr>labels = [7], num_crowds = 0\<rparr>" "[1, 4503599627370496, 0, 0]" "(\<lambda>(src :: real ndarray) (w :: nat) (h :: nat). Inr (\<lambda>idx :: nat list. 0 :: real) :: error + (nat list \<Rightarrow> real))" 2 True]
    num_crowds_bounds [of "\<lparr>shape = [1, 1, 3], flat = [10, 20, 30]\<rparr>"
      "\<lparr>shape = [1, 1, 1], flat = [1]\<rparr>" "[(0, 0, 1, 1)]" "\<lparr>labels = [7], num_crowds = 0\<rparr>" "[1]" "(\<lambda>(src :: real ndarray) (w :: nat) (h :: nat). Inr (\<lambda>idx :: nat list. 0 :: real) :: error + (nat list \<Rightarrow> real))" 2 True]
    example_crop example_expand example_mirror example_resize
  by simp

theorem boxes_stay_well_formed_witness:
  "well_formed (0, 0, 2, 2) \<and> well_formed (1, 1, 4, 4) \<and> well_formed (2, 2, 3, 3) \<and>
   ToAbsoluteCoords
     (np_zeros [4, 4, 1], np_zeros [3, 4, 4], [(0, 0, 2, 2), (1, 1, 4, 4), (2, 2, 3, 3)],
      \<lparr>labels = [7, 8, 9], num_crowds = 1\<rparr>)
   = Inr (np_zeros [4, 4, 1], np_zeros [3, 4, 4], [(0, 0, 8, 8), (4, 4, 16, 16), (8, 8, 12, 12)],
          \<lparr>labels = [7, 8, 9], num_crowds = 1\<rparr>) \<and>
   well_formed (0, 0, 8, 8) \<and> well_formed (4, 4, 16, 16) \<and> well_formed (8, 8, 12, 12) \<and>
   ToPercentCoords
     (np_zeros [4, 4, 1], np_zeros [3, 4, 4], [(0, 0, 2, 2), (1, 1, 4, 4), (2, 2, 3, 3)],
      \<lparr>labels = [7, 8, 9], num_crowds = 1\<rparr>)
   = Returned (np_zeros [4, 4, 1], np_zeros [3, 4, 4],
          [(0, 0, 1 / 2, 1 / 2), (1 / 4, 1 / 4, 1, 1), (1 / 2, 1 / 2, 3 / 4, 3 / 4)],
          \<lparr>labels = [7, 8, 9], num_crowds = 1\<rparr>) \<and>
   well_formed (0, 0, 1 / 2, 1 / 2) \<and> well_formed (1 / 4, 1 / 4, 1, 1) \<and>
   well_formed (1 / 2, 1 / 2, 3 / 4, 3 / 4) \<and>
   RandomSampleCrop
     (np_zeros [4, 4, 1], np_zeros [3, 4, 4], [(0, 0, 2, 2), (1, 1, 4, 4), (2, 2, 3, 3)],
      \<lparr>labels = [7, 8, 9], num_crowds = 1\<rparr>)
     [5, 4503599627370496, 4503599627370496, 0, 0]
   = Some (Inr (
     (np_zeros [2, 2, 1], np_zeros [2, 2, 2], [(0, 0, 2, 2), (1, 1, 2, 2)],
      \<lparr>labels = [8, 9], num_crowds = 1\<rparr>), [])) \<and>
   well_formed (1, 1, 2, 2) \<and>
   well_formed (0, 0, 1, 1) \<and>
   Expand
     (\<lparr>shape = [1, 1, 3], flat = [10, 20, 30]\<rparr>, \<lparr>shape = [1, 1, 1], flat = [1]\<rparr>,
      [(0, 0, 1, 1)], \<lparr>labels = [7], num_crowds = 0\<rparr>)
     [1, 4503599627370496, 0, 0]
   = Some (Inr ((\<lparr>shape = [2, 2, 3], flat = [103.94, 116.78, 123.68, 103.94, 116.78, 123.68,
                    103.94, 116.78, 123.68, 10, 20, 30]\<rparr>,
       \<lparr>shape = [1, 2, 2], flat = [0, 0, 0, 1]\<rparr>, [(1, 1, 2, 2)],
       \<lparr>labels = [7], num_crowds = 0\<rparr>), [])) \<and>
   RandomMirror
     (\<lparr>shape = [1, 1, 3], flat = [10, 20, 30]\<rparr>, \<lparr>shape = [1, 1, 1], flat = [1]\<rparr>,
      [(0, 0, 1, 1)], \<lparr>labels = [7], num_crowds = 0\<rparr>) [1]
   = Some (Inr ((\<lparr>shape = [1, 1, 3], flat = [10, 20, 30]\<rparr>, \<lparr>shape = [1, 1, 1], flat = [1]\<rparr>,
      [(0, 0, 1, 1)], \<lparr>labels = [7], num_crowds = 0\<rparr>), [])) \<and>
   Resize (\<lambda>src w h. Inr (\<lambda>idx. 0)) 2 True
     (\<lparr>shape = [1, 1, 3], flat = [10, 20, 30]\<rparr>, \<lparr>shape = [1, 1, 1], flat = [1]\<rparr>,
      [(0, 0, 1, 1)], \<lparr>labels = [7], num_crowds = 0\<rparr>)
   = Inr (\<lparr>shape = [2, 2, 3], flat = [0, 0, 0, 0, 0, 0, 0, 0, 0, 0, 0, 0]\<rparr>,
       \<lparr>shape = [1, 2, 2], flat = [0, 0, 0, 0]\<rparr>, [(0, 0, 2, 2)],
       \<lparr>labels = [7], num_crowds = 0\<rparr>)"
  using boxes_stay_well_formed [of "[(0, 0, 2, 2), (1, 1, 4, 4), (2, 2, 3, 3)]" "np_zeros [4, 4, 1]" "np_zeros [3, 4, 4]"
      "\<lparr>labels = [7, 8, 9], num_crowds = 1\<rparr>" "[5, 4503599627370496, 4503599627370496, 0, 0]" "(\<lambda>(src :: real ndarray) (w :: nat) (h :: nat). Inr (\<lambda>idx :: nat list. 0 :: real) :: error + (nat list \<Rightarrow> real))" 2]
    boxes_stay_well_formed [of "[(0, 0, 1, 1)]" "\<lparr>shape = [1, 1, 3], flat = [10, 20, 30]\<rparr>"
      "\<lparr>shape = [1, 1, 1], flat = [1]\<rparr>" "\<lparr>labels = [7], num_crowds = 0\<rparr>" "[1, 4503599627370496, 0, 0]" "(\<lambda>(src :: real ndarray) (w :: nat) (h :: nat). Inr (\<lambda>idx :: nat list. 0 :: real) :: error + (nat list \<Rightarrow> real))" 2]
    boxes_stay_well_formed [of "[(0, 0, 1, 1)]" "\<lparr>shape = [1, 1, 3], flat = [10, 20, 30]\<rparr>"
      "\<lparr>shape = [1, 1, 1], flat = [1]\<rparr>" "\<lparr>labels = [7], num_crowds = 0\<rparr>" "[1]" "(\<lambda>(src :: real ndarray) (w :: nat) (h :: nat). Inr (\<lambda>idx :: nat list. 0 :: real) :: error + (nat list \<Rightarrow> real))" 2]
    example_crop example_expand example_mirror example_resize
  by (simp add: well_formed_def ToAbsoluteCoords_def ToPercentCoords_def np_zeros_def
      scale_box_def unscale_box_def)

subsection \<open>Two reflections of a box of the 32-bit format\<close>

text \<open>
  An image of width 550 and the box whose x-coordinates are the values of the 32-bit
  format nearest to 12.3 and 45.7: the two differences \<open>550 - x\<close> are not values of the
  format, and the coordinates come back as 12.29998779296875 and 45.70001220703125.
\<close>

lemma wf_array_np_zeros: "wf_array (np_zeros shp)"
  by (simp add: np_zeros_def wf_array_def build_def length_indices)

lemma float32_mirror:
  "np_round Float32 550 = Finite 550"
  "np_round Float32 (12897485 / 1048576) = Finite (12897485 / 1048576)"
  "np_round Float32 (11979981 / 262144) = Finite (11979981 / 262144)"
  "np_round Float32 (550 - 11979981 / 262144) = Finite (8262451 / 16384)"
  "np_round Float32 (550 - 12897485 / 1048576) = Finite (8809677 / 16384)"
  "np_round Float32 (550 - 8809677 / 16384) = Finite (201523 / 16384)"
  "np_round Float32 (550 - 8262451 / 16384) = Finite (748749 / 16384)"
  by (simp_all add: round_eval)

theorem mirror_rounding_counterexample:
  "representable Float32 (12897485 / 1048576) \<and> representable Float32 (11979981 / 262144) \<and>
   randint01 1 = 1 \<and>
   RandomMirror_ieee Float32
       (np_zeros [1, 550, 3], np_zeros [1, 1, 550],
        [fbox_of (12897485 / 1048576, 0, 11979981 / 262144, 1)],
        \<lparr>labels = [5], num_crowds = 0\<rparr>) [1, 1]
     = Some (Inr ((flip_axis 1 (np_zeros [1, 550, 3]), flip_axis 2 (np_zeros [1, 1, 550]),
                   [(Finite (8262451 / 16384), Finite 0, Finite (8809677 / 16384), Finite 1)],
                   \<lparr>labels = [5], num_crowds = 0\<rparr>), [1])) \<and>
   RandomMirror_ieee Float32
       (flip_axis 1 (np_zeros [1, 550, 3]), flip_axis 2 (np_zeros [1, 1, 550]),
        [(Finite (8262451 / 16384), Finite 0, Finite (8809677 / 16384), Finite 1)],
        \<lparr>labels = [5], num_crowds = 0\<rparr>) [1]
     = Some (Inr ((np_zeros [1, 550, 3], np_zeros [1, 1, 550],
                   [(Finite (201523 / 16384), Finite 0, Finite (748749 / 16384), Finite 1)],
                   \<lparr>labels = [5], num_crowds = 0\<rparr>), [])) \<and>
   (201523 / 16384 :: real) \<noteq> 12897485 / 1048576 \<and>
   (748749 / 16384 :: real) \<noteq> 11979981 / 262144"
  using RandomMirror_ieee_twice [of "np_zeros [1, 550, 3]" 1 550 3 "np_zeros [1, 1, 550]" 1 1 1
      Float32 "[fbox_of (12897485 / 1048576, 0, 11979981 / 262144, 1)]"
      "\<lparr>labels = [5], num_crowds = 0\<rparr>" "[]"]
    float32_mirror
  by (simp add: wf_array_np_zeros randint01_def representable_def mirror_box_ieee_def
      fbox_of_def)

theorem mirror_involution_witness:
  "randint01 1 = 1 \<and> randint01 3 = 1 \<and>
   wf_array (build [1, 2, 3] (\<lambda>idx. real (idx ! 1))) \<and>
   wf_array (build [1, 1, 2] (\<lambda>idx. real (idx ! 2))) \<and>
   representable Float32 (real 2) \<and>
   representable Float32 0 \<and> representable Float32 (real 2 - 0) \<and>
   representable Float32 1 \<and> representable Float32 (real 2 - 1) \<and>
   RandomMirror_ieee Float32
       (build [1, 2, 3] (\<lambda>idx. real (idx ! 1)), build [1, 1, 2] (\<lambda>idx. real (idx ! 2)),
        [fbox_of (0, 0, 1, 1)], \<lparr>labels = [5], num_crowds = 0\<rparr>) [1, 3, 8]
     = Some (Inr ((\<lparr>shape = [1, 2, 3], flat = [1, 1, 1, 0, 0, 0]\<rparr>,
                   \<lparr>shape = [1, 1, 2], flat = [1, 0]\<rparr>,
                   [fbox_of (1, 0, 2, 1)], \<lparr>labels = [5], num_crowds = 0\<rparr>), [3, 8])) \<and>
   RandomMirror_ieee Float32
       (\<lparr>shape = [1, 2, 3], flat = [1, 1, 1, 0, 0, 0]\<rparr>, \<lparr>shape = [1, 1, 2], flat = [1, 0]\<rparr>,
        [fbox_of (1, 0, 2, 1)], \<lparr>labels = [5], num_crowds = 0\<rparr>) [3, 8]
     = Some (Inr ((build [1, 2, 3] (\<lambda>idx. real (idx ! 1)), build [1, 1, 2] (\<lambda>idx. real (idx ! 2)),
        [fbox_of (0, 0, 1, 1)], \<lparr>labels = [5], num_crowds = 0\<rparr>), [8]))"
  using mirror_involution [of "build [1, 2, 3] (\<lambda>idx. real (idx ! 1))" 1 2 3
      "build [1, 1, 2] (\<lambda>idx. real (idx ! 2))" 1 1 3 Float32 "[(0, 0, 1, 1)]"
      "\<lparr>labels = [5], num_crowds = 0\<rparr>" "[8]"]
    float32_small
  by (simp add: randint01_def wf_array_def build_def flip_axis_def elem_at_def at_shape_def
      mirror_box_ieee_def fbox_of_def representable_def upt_conv_Cons)

end
